theory Spec2Isabelle
  imports Main "HOL-Library.Sublist" "HOL-Library.Word"
begin

unbundle bit_operations_syntax

section \<open>Go strings: the library functions the program calls\<close>

text \<open>
  A Go string is a sequence of bytes; \<open>string\<close> (a \<open>char list\<close>) is that sequence.
  The functions of this section are the ones of Go's \<^verbatim>\<open>strings\<close> package that
  \<^verbatim>\<open>byoit\<close> calls, written out as the library computes them.
\<close>

subsection \<open>strings.TrimSpace\<close>

text \<open>
  \<^verbatim>\<open>strings.TrimSpace\<close> removes leading and trailing white space as
  \<^verbatim>\<open>unicode.IsSpace\<close> defines it. A rune is read from the UTF-8 bytes; the white
  space runes are the six ASCII ones and U+0085, U+00A0, U+1680, U+2000..U+200A, U+2028,
  U+2029, U+202F, U+205F, U+3000. The decoder accepts only the shortest encoding, so a
  leading (trailing) white space rune is exactly a leading (trailing) copy of one of the
  byte sequences below.
\<close>

definition asciiSpace :: "char \<Rightarrow> bool" where
  "asciiSpace c =
     (c = CHR 0x09 \<or> c = CHR 0x0A \<or> c = CHR 0x0B \<or> c = CHR 0x0C \<or> c = CHR 0x0D \<or> c = CHR 0x20)"

definition space2 :: "char \<Rightarrow> char \<Rightarrow> bool" where
  "space2 a b = (a = CHR 0xC2 \<and> (b = CHR 0x85 \<or> b = CHR 0xA0))"

definition space3 :: "char \<Rightarrow> char \<Rightarrow> char \<Rightarrow> bool" where
  "space3 a b c =
     ((a = CHR 0xE1 \<and> b = CHR 0x9A \<and> c = CHR 0x80) \<or>
      (a = CHR 0xE2 \<and> b = CHR 0x80 \<and>
         ((0x80 \<le> (of_char c :: nat) \<and> (of_char c :: nat) \<le> 0x8A) \<or>
          c = CHR 0xA8 \<or> c = CHR 0xA9 \<or> c = CHR 0xAF)) \<or>
      (a = CHR 0xE2 \<and> b = CHR 0x81 \<and> c = CHR 0x9F) \<or>
      (a = CHR 0xE3 \<and> b = CHR 0x80 \<and> c = CHR 0x80))"

text \<open>The number of bytes of the white space rune a string starts with; 0 when it starts with none.\<close>

fun spaceWidth :: "string \<Rightarrow> nat" where
  "spaceWidth [] = 0"
| "spaceWidth [a] = (if asciiSpace a then 1 else 0)"
| "spaceWidth [a, b] = (if asciiSpace a then 1 else if space2 a b then 2 else 0)"
| "spaceWidth (a # b # c # _) =
     (if asciiSpace a then 1 else if space2 a b then 2 else if space3 a b c then 3 else 0)"

text \<open>The same for the rune a string ends with, read on the reversed string.\<close>

fun spaceWidthEnd :: "string \<Rightarrow> nat" where
  "spaceWidthEnd [] = 0"
| "spaceWidthEnd [a] = (if asciiSpace a then 1 else 0)"
| "spaceWidthEnd [b, a] = (if asciiSpace b then 1 else if space2 a b then 2 else 0)"
| "spaceWidthEnd (c # b # a # _) =
     (if asciiSpace c then 1 else if space2 b c then 2 else if space3 a b c then 3 else 0)"

function TrimLeft :: "string \<Rightarrow> string" where
  "TrimLeft s = (if spaceWidth s = 0 then s else TrimLeft (drop (spaceWidth s) s))"
  by pat_completeness auto
termination
proof (relation "measure length")
  show "wf (measure length)" by simp
next
  fix s :: string
  assume "spaceWidth s \<noteq> 0"
  moreover have "s \<noteq> []" using \<open>spaceWidth s \<noteq> 0\<close> by (cases s) auto
  ultimately show "(drop (spaceWidth s) s, s) \<in> measure length" by simp
qed

function TrimRightRev :: "string \<Rightarrow> string" where
  "TrimRightRev r = (if spaceWidthEnd r = 0 then r else TrimRightRev (drop (spaceWidthEnd r) r))"
  by pat_completeness auto
termination
proof (relation "measure length")
  show "wf (measure length)" by simp
next
  fix r :: string
  assume "spaceWidthEnd r \<noteq> 0"
  moreover have "r \<noteq> []" using \<open>spaceWidthEnd r \<noteq> 0\<close> by (cases r) auto
  ultimately show "(drop (spaceWidthEnd r) r, r) \<in> measure length" by simp
qed

definition TrimRight :: "string \<Rightarrow> string" where
  "TrimRight s = rev (TrimRightRev (rev s))"

definition TrimSpace :: "string \<Rightarrow> string" where
  "TrimSpace s = TrimRight (TrimLeft s)"

subsection \<open>strings.Split and strings.Join\<close>

text \<open>
  \<^verbatim>\<open>strings.Split(s, sep)\<close> for a separator of one byte (the program splits on
  \<^verbatim>\<open>"."\<close> only): the pieces between the separators, empty pieces kept, always at
  least one piece.
\<close>

fun Split :: "string \<Rightarrow> char \<Rightarrow> string list" where
  "Split [] sep = [[]]"
| "Split (c # cs) sep =
     (if c = sep then [] # Split cs sep
      else (case Split cs sep of [] \<Rightarrow> [[c]] | p # ps \<Rightarrow> (c # p) # ps))"

text \<open>
  \<^verbatim>\<open>strings.Join(elems, sep)\<close>: the empty string for no element, the element
  itself for one, else the elements with \<open>sep\<close> between them.
\<close>

fun Join :: "string list \<Rightarrow> string \<Rightarrow> string" where
  "Join [] sep = []"
| "Join [x] sep = x"
| "Join (x # y # ys) sep = x @ sep @ Join (y # ys) sep"

section \<open>Go net: the library functions behind \<^verbatim>\<open>net.ParseCIDR\<close>\<close>

text \<open>
  An \<^verbatim>\<open>IP\<close> and an \<^verbatim>\<open>IPMask\<close> are byte slices (4 or 16 bytes); an
  \<^verbatim>\<open>IPNet\<close> is a network address with its mask. A Go \<^verbatim>\<open>error\<close> is its
  message; \<open>None\<close> of \<open>error option\<close> is the \<^verbatim>\<open>nil\<close> error.
\<close>

type_synonym byte = "8 word"
type_synonym error = string

record IPNet =
  IP :: "byte list"
  Mask :: "byte list"

definition isDigit :: "char \<Rightarrow> bool" where
  "isDigit c = (48 \<le> (of_char c :: nat) \<and> (of_char c :: nat) \<le> 57)"

definition digitVal :: "char \<Rightarrow> nat" where
  "digitVal c = of_char c - 48"

text \<open>
  \<^verbatim>\<open>dtoi\<close>: the decimal number a string starts with, the number of bytes read and
  whether a number was read; numbers from \<^verbatim>\<open>0xFFFFFF\<close> on are refused.
\<close>

definition big :: nat where
  "big = 0xFFFFFF"

fun dtoi_loop :: "string \<Rightarrow> nat \<Rightarrow> nat \<Rightarrow> nat \<times> nat \<times> bool" where
  "dtoi_loop [] n i = (if i = 0 then (0, 0, False) else (n, i, True))"
| "dtoi_loop (c # cs) n i =
     (if isDigit c then
        (let n' = n * 10 + digitVal c in
         if n' \<ge> big then (big, i, False) else dtoi_loop cs n' (i + 1))
      else if i = 0 then (0, 0, False) else (n, i, True))"

definition dtoi :: "string \<Rightarrow> nat \<times> nat \<times> bool" where
  "dtoi s = dtoi_loop s 0 0"

text \<open>
  \<^verbatim>\<open>parseIPv4Fields\<close>: the loop over the bytes of a dotted quad. \<open>first\<close> is
  \<^verbatim>\<open>i == 0\<close>, \<open>prev\<close> the byte before the current one, \<open>flds\<close> the octets
  stored so far (\<^verbatim>\<open>pos\<close> is their number).
\<close>

fun parseIPv4Fields_loop ::
  "string \<Rightarrow> bool \<Rightarrow> char \<Rightarrow> nat \<Rightarrow> nat \<Rightarrow> byte list \<Rightarrow> error + byte list" where
  "parseIPv4Fields_loop [] first prev val digLen flds =
     (if length flds < 3 then Inl ''IPv4 address too short''
      else Inr (flds @ [of_nat val]))"
| "parseIPv4Fields_loop (c # cs) first prev val digLen flds =
     (if isDigit c then
        (if digLen = 1 \<and> val = 0 then Inl ''IPv4 field has octet with leading zero''
         else let val' = val * 10 + digitVal c in
           if val' > 255 then Inl ''IPv4 field has value >255''
           else parseIPv4Fields_loop cs False c val' (digLen + 1) flds)
      else if c = CHR ''.'' then
        (if first \<or> cs = [] \<or> prev = CHR ''.'' then Inl ''IPv4 field must have at least one digit''
         else if length flds = 3 then Inl ''IPv4 address too long''
         else parseIPv4Fields_loop cs False c 0 0 (flds @ [of_nat val]))
      else Inl ''unexpected character'')"

definition parseIPv4 :: "string \<Rightarrow> error + byte list" where
  "parseIPv4 s = parseIPv4Fields_loop s True (CHR 0x00) 0 0 []"

text \<open>
  \<^verbatim>\<open>parseIPv6\<close>. \<open>hexVal\<close> reads one hexadecimal digit. The loop of
  \<open>parseIPv6_loop\<close> reads one group of at most four digits per round into \<open>ip\<close>
  (\<^verbatim>\<open>i\<close> is the length of \<open>ip\<close>), or a trailing dotted quad, and notes where
  the \<^verbatim>\<open>::\<close> stood. It returns the bytes read, the place of the ellipsis and the
  rest of the string.
\<close>

definition hexVal :: "char \<Rightarrow> nat option" where
  "hexVal c =
     (let k = (of_char c :: nat) in
      if 48 \<le> k \<and> k \<le> 57 then Some (k - 48)
      else if 97 \<le> k \<and> k \<le> 102 then Some (k - 97 + 10)
      else if 65 \<le> k \<and> k \<le> 70 then Some (k - 65 + 10)
      else None)"

definition isHex :: "char \<Rightarrow> bool" where
  "isHex c = (hexVal c \<noteq> None)"

fun hexAcc :: "string \<Rightarrow> nat \<Rightarrow> nat" where
  "hexAcc [] acc = acc"
| "hexAcc (c # cs) acc = hexAcc cs (acc * 16 + (case hexVal c of Some v \<Rightarrow> v | None \<Rightarrow> 0))"

function parseIPv6_loop ::
  "string \<Rightarrow> byte list \<Rightarrow> nat option \<Rightarrow> error + (byte list \<times> nat option \<times> string)" where
  "parseIPv6_loop s ip ellipsis =
     (if \<not> length ip < 16 then Inr (ip, ellipsis, s)
      else
        let grp = takeWhile isHex s; rest = dropWhile isHex s; acc = hexAcc grp 0 in
        if length grp > 4 then Inl ''each group must have 4 or less digits''
        else if grp = [] then Inl ''each colon-separated field must have at least one digit''
        else if rest \<noteq> [] \<and> hd rest = CHR ''.'' then
          (if ellipsis = None \<and> length ip \<noteq> 12 then
             Inl ''embedded IPv4 address must replace the final 2 flds of the address''
           else if length ip + 4 > 16 then
             Inl ''too many hex flds to fit an embedded IPv4 at the end of the address''
           else (case parseIPv4Fields_loop s True (CHR 0x00) 0 0 [] of
                   Inl e \<Rightarrow> Inl e
                 | Inr v4 \<Rightarrow> Inr (ip @ v4, ellipsis, [])))
        else
          (let ip' = ip @ [of_nat (acc div 256), of_nat (acc mod 256)] in
           case rest of
             [] \<Rightarrow> Inr (ip', ellipsis, [])
           | c # r1 \<Rightarrow>
               if c \<noteq> CHR '':'' then Inl ''unexpected character, want colon''
               else (case r1 of
                       [] \<Rightarrow> Inl ''colon must be followed by more characters''
                     | c2 # r2 \<Rightarrow>
                         if c2 = CHR '':'' then
                           (if ellipsis \<noteq> None then Inl ''multiple :: in address''
                            else if r2 = [] then Inr (ip', Some (length ip'), [])
                            else parseIPv6_loop r2 ip' (Some (length ip')))
                         else parseIPv6_loop r1 ip' ellipsis)))"
  by pat_completeness auto
termination
proof (relation "measure (\<lambda>(s, ip, ellipsis). length s)")
  show "wf (measure (\<lambda>(s, ip, ellipsis). length s))" by simp
next
  fix s :: string and c c2 :: char and r1 r2 :: string and rest :: string
    and ip ip' :: "byte list" and ellipsis :: "nat option"
  assume "rest = dropWhile isHex s" "rest = c # r1" "r1 = c2 # r2"
  then have "length s = length (takeWhile isHex s) + length (c # c2 # r2)"
    by (metis length_append takeWhile_dropWhile_id)
  then show "((r2, ip', Some (length ip')), s, ip, ellipsis) \<in> measure (\<lambda>(s, ip, ellipsis). length s)"
    by simp
next
  fix s :: string and c c2 :: char and r1 r2 :: string and rest :: string
    and ip ip' :: "byte list" and ellipsis :: "nat option"
  assume "rest = dropWhile isHex s" "rest = c # r1"
  then have "length s = length (takeWhile isHex s) + length (c # r1)"
    by (metis length_append takeWhile_dropWhile_id)
  then show "((r1, ip', ellipsis), s, ip, ellipsis) \<in> measure (\<lambda>(s, ip, ellipsis). length s)"
    by simp
qed

text \<open>
  The whole of \<^verbatim>\<open>parseIPv6\<close>: the zone after a \<^verbatim>\<open>%\<close> is split off first (an
  empty one is an error), a leading \<^verbatim>\<open>::\<close> is read, the loop runs, nothing may be
  left over, and the ellipsis is expanded to the missing zero bytes. The result is the
  16 bytes and the zone.
\<close>

definition parseIPv6 :: "string \<Rightarrow> error + (byte list \<times> string)" where
  "parseIPv6 inp =
     (let hasZone = (CHR ''%'' \<in> set inp);
          s0 = takeWhile (\<lambda>c. c \<noteq> CHR ''%'') inp;
          zone = drop 1 (dropWhile (\<lambda>c. c \<noteq> CHR ''%'') inp) in
      if hasZone \<and> zone = [] then Inl ''zone must be a non-empty string''
      else
        let lead = (length s0 \<ge> 2 \<and> take 2 s0 = ''::'');
            s1 = (if lead then drop 2 s0 else s0);
            e0 = (if lead then Some 0 else None) in
        if lead \<and> s1 = [] then Inr (replicate 16 0, zone)
        else (case parseIPv6_loop s1 [] e0 of
                Inl e \<Rightarrow> Inl e
              | Inr (ip, ellipsis, rest) \<Rightarrow>
                  if rest \<noteq> [] then Inl ''trailing garbage after address''
                  else if length ip < 16 then
                    (case ellipsis of
                       None \<Rightarrow> Inl ''address string too short''
                     | Some e \<Rightarrow> Inr (take e ip @ replicate (16 - length ip) 0 @ drop e ip, zone))
                  else if ellipsis \<noteq> None then
                    Inl ''the :: must expand to at least one field of zeros''
                  else Inr (ip, zone)))"

text \<open>
  \<^verbatim>\<open>netip.ParseAddr\<close> looks for the first of \<^verbatim>\<open>.\<close>, \<^verbatim>\<open>:\<close> and
  \<^verbatim>\<open>%\<close> and parses an IPv4 or an IPv6 address accordingly. An address is its bit
  length (32 or 128), its 16 bytes (an IPv4 address as \<^verbatim>\<open>::ffff:a.b.c.d\<close>, what
  \<^verbatim>\<open>As16\<close> returns) and its zone.
\<close>

definition v4InV6Prefix :: "byte list" where
  "v4InV6Prefix = [0, 0, 0, 0, 0, 0, 0, 0, 0, 0, 0xff, 0xff]"

fun ParseAddr_scan :: "string \<Rightarrow> string \<Rightarrow> error + (nat \<times> byte list \<times> string)" where
  "ParseAddr_scan [] s = Inl ''unable to parse IP''"
| "ParseAddr_scan (c # cs) s =
     (if c = CHR ''.'' then
        (case parseIPv4 s of Inl e \<Rightarrow> Inl e | Inr v4 \<Rightarrow> Inr (32, v4InV6Prefix @ v4, []))
      else if c = CHR '':'' then
        (case parseIPv6 s of Inl e \<Rightarrow> Inl e | Inr (v6, zone) \<Rightarrow> Inr (128, v6, zone))
      else if c = CHR ''%'' then Inl ''missing IPv6 address''
      else ParseAddr_scan cs s)"

definition ParseAddr :: "string \<Rightarrow> error + (nat \<times> byte list \<times> string)" where
  "ParseAddr s = ParseAddr_scan s s"

text \<open>\<^verbatim>\<open>net.CIDRMask(ones, bits)\<close>: \<open>ones\<close> one bits, then zero bits, in \<open>bits / 8\<close> bytes.\<close>

fun CIDRMask_loop :: "nat \<Rightarrow> nat \<Rightarrow> byte list" where
  "CIDRMask_loop 0 n = []"
| "CIDRMask_loop (Suc l) n =
     (if n \<ge> 8 then 0xff # CIDRMask_loop l (n - 8)
      else (NOT (drop_bit n (0xff :: byte))) # CIDRMask_loop l 0)"

definition CIDRMask :: "nat \<Rightarrow> nat \<Rightarrow> byte list" where
  "CIDRMask ones bits =
     (if bits \<noteq> 32 \<and> bits \<noteq> 128 then []
      else if ones > bits then []
      else CIDRMask_loop (bits div 8) ones)"

text \<open>
  \<^verbatim>\<open>IP.To4\<close> (\<open>None\<close> is the nil slice) and \<^verbatim>\<open>IP.Mask\<close> (the empty
  list is the nil slice).
\<close>

definition isZeros :: "byte list \<Rightarrow> bool" where
  "isZeros p = list_all (\<lambda>b. b = 0) p"

definition To4 :: "byte list \<Rightarrow> byte list option" where
  "To4 ip =
     (if length ip = 4 then Some ip
      else if length ip = 16 \<and> isZeros (take 10 ip) \<and> ip ! 10 = 0xff \<and> ip ! 11 = 0xff
        then Some (drop 12 ip)
      else None)"

definition allFF :: "byte list \<Rightarrow> bool" where
  "allFF b = list_all (\<lambda>c. c = 0xff) b"

definition IP_Mask :: "byte list \<Rightarrow> byte list \<Rightarrow> byte list" where
  "IP_Mask ip msk =
     (let mask1 = (if length msk = 16 \<and> length ip = 4 \<and> allFF (take 12 msk) then drop 12 msk else msk);
          ip1 = (if length mask1 = 4 \<and> length ip = 16 \<and> take 12 ip = v4InV6Prefix then drop 12 ip else ip)
      in if length ip1 \<noteq> length mask1 then []
         else map (\<lambda>(x, m). x AND m) (zip ip1 mask1))"

text \<open>
  \<^verbatim>\<open>net.ParseCIDR\<close>: the text before the first \<^verbatim>\<open>/\<close> is the address, the text
  after it the prefix length. It returns the address in 16 bytes and the network: the
  masked address and the mask.
\<close>

definition ParseCIDR :: "string \<Rightarrow> error + (byte list \<times> IPNet)" where
  "ParseCIDR s =
     (case dropWhile (\<lambda>c. c \<noteq> CHR ''/'') s of
        [] \<Rightarrow> Inl (''invalid CIDR address: '' @ s)
      | _ # msk \<Rightarrow>
          (case ParseAddr (takeWhile (\<lambda>c. c \<noteq> CHR ''/'') s) of
             Inl e \<Rightarrow> Inl (''invalid CIDR address: '' @ s)
           | Inr (bitLen, addr16, zone) \<Rightarrow>
               if zone \<noteq> [] then Inl (''invalid CIDR address: '' @ s)
               else (case dtoi msk of
                       (n, i, ok) \<Rightarrow>
                         if \<not> ok \<or> i \<noteq> length msk \<or> n > bitLen
                           then Inl (''invalid CIDR address: '' @ s)
                         else let m = CIDRMask n bitLen in
                           Inr (addr16, \<lparr>IP = IP_Mask addr16 m, Mask = m\<rparr>))))"

text \<open>
  \<^verbatim>\<open>IPMask.Size\<close>: the number of leading one bits and the number of bits, or
  \<open>(0, 0)\<close> when the mask is not ones followed by zeros. \<open>simpleMaskLength\<close> returns
  \<open>None\<close> where Go returns -1.
\<close>

fun leadingOnes :: "nat \<Rightarrow> byte \<Rightarrow> nat \<times> byte" where
  "leadingOnes 0 v = (0, v)"
| "leadingOnes (Suc k) v =
     (if v AND 0x80 \<noteq> 0 then (case leadingOnes k (push_bit 1 v) of (n, w) \<Rightarrow> (Suc n, w))
      else (0, v))"

fun simpleMaskLength :: "byte list \<Rightarrow> nat option" where
  "simpleMaskLength [] = Some 0"
| "simpleMaskLength (v # vs) =
     (if v = 0xff then map_option (\<lambda>n. n + 8) (simpleMaskLength vs)
      else (case leadingOnes 8 v of
              (n, w) \<Rightarrow> if w \<noteq> 0 then None
                        else if list_all (\<lambda>b. b = 0) vs then Some n else None))"

definition Size :: "byte list \<Rightarrow> nat \<times> nat" where
  "Size m = (case simpleMaskLength m of None \<Rightarrow> (0, 0) | Some ones \<Rightarrow> (ones, length m * 8))"

text \<open>\<^verbatim>\<open>IPNet.Contains\<close>, with \<^verbatim>\<open>networkNumberAndMask\<close>.\<close>

definition networkNumberAndMask :: "IPNet \<Rightarrow> (byte list \<times> byte list) option" where
  "networkNumberAndMask n =
     (case (case To4 (IP n) of
              Some v4 \<Rightarrow> Some v4
            | None \<Rightarrow> if length (IP n) \<noteq> 16 then None else Some (IP n)) of
        None \<Rightarrow> None
      | Some ip \<Rightarrow>
          (let m = Mask n in
           if length m = 4 then (if length ip \<noteq> 4 then None else Some (ip, m))
           else if length m = 16 then Some (ip, if length ip = 4 then drop 12 m else m)
           else None))"

definition Contains :: "IPNet \<Rightarrow> byte list \<Rightarrow> bool" where
  "Contains n ip =
     (case networkNumberAndMask n of
        None \<Rightarrow> False
      | Some (nn, m) \<Rightarrow>
          (let ip1 = (case To4 ip of Some x \<Rightarrow> x | None \<Rightarrow> ip) in
           if length ip1 \<noteq> length nn then False
           else list_all (\<lambda>(a, b, c). a AND c = b AND c) (zip nn (zip ip1 m))))"

text \<open>
  \<^verbatim>\<open>IP.String\<close>: dotted decimal for an address that \<^verbatim>\<open>To4\<close> accepts, else
  the IPv6 text: the groups in hexadecimal, the longest run of two or more zero groups
  (the first of the longest) written as \<^verbatim>\<open>::\<close>.
\<close>

function itoa :: "nat \<Rightarrow> string" where
  "itoa n = (if n < 10 then [char_of (48 + n)] else itoa (n div 10) @ [char_of (48 + n mod 10)])"
  by pat_completeness auto
termination
  by (relation "measure id") auto

declare itoa.simps [simp del]

definition dotted :: "byte list \<Rightarrow> string" where
  "dotted v4 = Join (map (\<lambda>b. itoa (unat b)) v4) ''.''"

definition hexDigit :: "nat \<Rightarrow> char" where
  "hexDigit k = (if k < 10 then char_of (48 + k) else char_of (97 + (k - 10)))"

function hexString :: "nat \<Rightarrow> string" where
  "hexString n = (if n < 16 then [hexDigit n] else hexString (n div 16) @ [hexDigit (n mod 16)])"
  by pat_completeness auto
termination
  by (relation "measure id") auto

fun groups16 :: "byte list \<Rightarrow> nat list" where
  "groups16 (hi # lo # bs) = (unat hi * 256 + unat lo) # groups16 bs"
| "groups16 _ = []"

text \<open>The zero run to compress: \<open>(start, end)\<close> over the eight groups, \<open>(255, 255)\<close> for none.\<close>

fun zeroRun :: "nat list \<Rightarrow> nat \<Rightarrow> nat \<Rightarrow> nat \<times> nat \<Rightarrow> nat \<times> nat" where
  "zeroRun g 0 i best = best"
| "zeroRun g (Suc k) i (zs, ze) =
     (let l = length (takeWhile (\<lambda>x. x = 0) (drop i g)) in
      zeroRun g k (i + 1) (if l \<ge> 2 \<and> l > ze - zs then (i, i + l) else (zs, ze)))"

fun string6_loop :: "nat list \<Rightarrow> nat \<Rightarrow> nat \<Rightarrow> nat \<times> nat \<Rightarrow> string" where
  "string6_loop g 0 i z = []"
| "string6_loop g (Suc k) i (zs, ze) =
     (if i \<ge> 8 then []
      else if i = zs then
        (if ze \<ge> 8 then ''::''
         else ''::'' @ hexString (g ! ze) @ string6_loop g k (ze + 1) (zs, ze))
      else (if i > 0 then '':'' else []) @ hexString (g ! i) @ string6_loop g k (i + 1) (zs, ze))"

definition IP_String :: "byte list \<Rightarrow> string" where
  "IP_String ip =
     (if ip = [] then ''<nil>''
      else if length ip \<noteq> 4 \<and> length ip \<noteq> 16 then ''?'' @ concat (map (\<lambda>b. (if unat b < 16 then ''0'' else []) @ hexString (unat b)) ip)
      else (case To4 ip of
              Some v4 \<Rightarrow> dotted v4
            | None \<Rightarrow> (let g = groups16 ip in string6_loop g 8 0 (zeroRun g 8 0 (255, 255)))))"

section \<open>ConfigValidator: the network block\<close>

text \<open>
  \<^verbatim>\<open>isPrivateNetwork\<close> parses its three ranges when it is called and discards the
  errors; \<open>privateNet\<close> is one such parse. The three texts parse (lemma
  \<open>private_ranges_parse\<close> below), so the \<open>Inl\<close> case never runs.
\<close>

definition privateNet :: "string \<Rightarrow> IPNet" where
  "privateNet s = (case ParseCIDR s of Inr (_, n) \<Rightarrow> n | Inl _ \<Rightarrow> \<lparr>IP = [], Mask = []\<rparr>)"

definition isPrivateNetwork :: "IPNet \<Rightarrow> bool" where
  "isPrivateNetwork ipNet =
     (Contains (privateNet ''10.0.0.0/8'') (IP ipNet)
      \<or> Contains (privateNet ''172.16.0.0/12'') (IP ipNet)
      \<or> Contains (privateNet ''192.168.0.0/16'') (IP ipNet))"

definition validateCIDR :: "string \<Rightarrow> error option" where
  "validateCIDR cidr =
     (if cidr = [] then Some ''CIDR cannot be empty''
      else (case ParseCIDR cidr of
              Inl e \<Rightarrow> Some (''invalid CIDR format: '' @ e)
            | Inr (ip, ipNet) \<Rightarrow>
                if IP_String ip \<noteq> IP_String (IP ipNet)
                  then Some ''CIDR must represent a network, not a host address''
                else if \<not> isPrivateNetwork ipNet
                  then Some ''CIDR should be a private network (10.0.0.0/8, 172.16.0.0/12, or 192.168.0.0/16)''
                else (case Size (Mask ipNet) of
                        (ones, bits) \<Rightarrow>
                          if bits = 32 \<and> ones > 24
                            then Some ''CIDR subnet too small, use /24 or larger (e.g., /24, /23, /22)''
                          else None)))"

text \<open>
  The specification's wording of a valid network block, on numbers: \<open>beValue\<close> is the
  number an address is (most significant byte first), \<open>inPrivateRanges\<close> says that an
  address lies in 10.0.0.0/8, 172.16.0.0/12 or 192.168.0.0/16, and
  \<open>networkInPrivateRanges\<close> that the network of prefix length \<open>n\<close> that starts at the
  address \<open>v\<close>, the addresses from \<open>v\<close> to \<open>v + 2 ^ (32 - n) - 1\<close>, lies inside one
  of the three.
\<close>

fun beValue :: "byte list \<Rightarrow> nat" where
  "beValue [] = 0"
| "beValue (x # xs) = unat x * 256 ^ length xs + beValue xs"

definition inPrivateRanges :: "nat \<Rightarrow> bool" where
  "inPrivateRanges v =
     ((beValue [10, 0, 0, 0] \<le> v \<and> v \<le> beValue [10, 255, 255, 255])
      \<or> (beValue [172, 16, 0, 0] \<le> v \<and> v \<le> beValue [172, 31, 255, 255])
      \<or> (beValue [192, 168, 0, 0] \<le> v \<and> v \<le> beValue [192, 168, 255, 255]))"

definition networkInPrivateRanges :: "nat \<Rightarrow> nat \<Rightarrow> bool" where
  "networkInPrivateRanges v n =
     ((beValue [10, 0, 0, 0] \<le> v \<and> v + 2 ^ (32 - n) - 1 \<le> beValue [10, 255, 255, 255])
      \<or> (beValue [172, 16, 0, 0] \<le> v \<and> v + 2 ^ (32 - n) - 1 \<le> beValue [172, 31, 255, 255])
      \<or> (beValue [192, 168, 0, 0] \<le> v \<and> v + 2 ^ (32 - n) - 1 \<le> beValue [192, 168, 255, 255]))"

section \<open>ConfigValidator: the base DN of a domain\<close>

text \<open>
  \<^verbatim>\<open>baseDNFromDomain\<close>: the loop over the parts appends \<^verbatim>\<open>"dc="+p\<close> to
  \<^verbatim>\<open>out\<close> for every part that is not empty; \<open>baseDN_loop\<close> is that loop, with
  \<open>out\<close> as its accumulator.
\<close>

fun baseDN_loop :: "string list \<Rightarrow> string list \<Rightarrow> string list" where
  "baseDN_loop [] out = out"
| "baseDN_loop (p # ps) out = baseDN_loop ps (if p \<noteq> [] then out @ [''dc='' @ p] else out)"

definition baseDNFromDomain :: "string \<Rightarrow> string" where
  "baseDNFromDomain d = Join (baseDN_loop (Split (TrimSpace d) (CHR ''.'')) []) '',''"

text \<open>
  The specification's wording of the same function: split the trimmed domain on the dot,
  discard the empty segments, prefix each remaining one with \<open>dc=\<close>, join with commas.
\<close>

definition deriveBaseIdentifier_spec :: "string \<Rightarrow> string" where
  "deriveBaseIdentifier_spec domain =
     Join (map (\<lambda>seg. ''dc='' @ seg) (filter (\<lambda>seg. seg \<noteq> []) (Split (TrimSpace domain) (CHR ''.'')))) '',''"

section \<open>The operating system and the cluster client\<close>

text \<open>
  What the program reads from its environment and cannot decide itself is a field of
  \<open>sys\<close>: the library's path functions, the directories, and the outcome of every
  call that can fail. The files the program writes are the state \<open>files\<close>, a map from
  paths to contents, passed through every function that touches them.
  \<^item> \<open>joinPath\<close> is \<^verbatim>\<open>filepath.Join\<close> of two elements, \<open>dirOf\<close> is
    \<^verbatim>\<open>filepath.Dir\<close>;
  \<^item> \<open>writeFileErr path data\<close> is \<open>None\<close> when \<^verbatim>\<open>os.WriteFile\<close> succeeds, else
    the error and what the failed call left at the path (\<open>None\<close>: the path as it
    was; \<open>Some part\<close>: a truncated file);
  \<^item> \<open>runErr args fs\<close> is what \<^verbatim>\<open>cmd.Run\<close> returns for the command line
    \<open>args\<close> started while the files are \<open>fs\<close>;
  \<^item> \<open>cmdOutput args\<close> is the standard output and the error of \<^verbatim>\<open>cmd.Run\<close>
    or \<^verbatim>\<open>cmd.Output\<close> for a command whose output is captured.
\<close>

type_synonym files = "string \<rightharpoonup> string"

record sys =
  joinPath :: "string \<Rightarrow> string \<Rightarrow> string"
  dirOf :: "string \<Rightarrow> string"
  tempDir :: string
  execDir :: string
  writeFileErr :: "string \<Rightarrow> string \<Rightarrow> (error \<times> string option) option"
  readFileErr :: "string \<Rightarrow> error option"
  mkdirAllErr :: "string \<Rightarrow> error option"
  runErr :: "string list \<Rightarrow> files \<Rightarrow> error option"
  cmdOutput :: "string list \<Rightarrow> string \<times> error option"

record world =
  files :: files
  dirs :: "string set"

definition WriteFile :: "sys \<Rightarrow> world \<Rightarrow> string \<Rightarrow> string \<Rightarrow> error option \<times> world" where
  "WriteFile env w path data =
     (case writeFileErr env path data of
        None \<Rightarrow> (None, w\<lparr>files := (files w)(path \<mapsto> data)\<rparr>)
      | Some (e, None) \<Rightarrow> (Some e, w)
      | Some (e, Some part) \<Rightarrow> (Some e, w\<lparr>files := (files w)(path \<mapsto> part)\<rparr>))"

definition MkdirAll :: "sys \<Rightarrow> world \<Rightarrow> string \<Rightarrow> error option \<times> world" where
  "MkdirAll env w dir =
     (case mkdirAllErr env dir of
        None \<Rightarrow> (None, w\<lparr>dirs := insert dir (dirs w)\<rparr>)
      | Some e \<Rightarrow> (Some e, w))"

text \<open>\<^verbatim>\<open>os.Remove\<close>; the program discards its error.\<close>

definition Remove :: "world \<Rightarrow> string \<Rightarrow> world" where
  "Remove w path = w\<lparr>files := (files w)(path := None)\<rparr>"

text \<open>
  \<^verbatim>\<open>kube\<close>: the command line of the cluster client, the \<^verbatim>\<open>k3s\<close> binary beside
  the program's own. \<^verbatim>\<open>runOut\<close> trims the captured output.
\<close>

definition kube :: "sys \<Rightarrow> string list \<Rightarrow> string list" where
  "kube env args = [joinPath env (execDir env) ''k3s'', ''kubectl''] @ args"

definition runOut :: "sys \<Rightarrow> string list \<Rightarrow> string \<times> error option" where
  "runOut env args = (case cmdOutput env args of (b, err) \<Rightarrow> (TrimSpace b, err))"

text \<open>\<^verbatim>\<open>fmt.Sprintf("%d", i)\<close> of an integer.\<close>

definition Sprintf_d :: "int \<Rightarrow> string" where
  "Sprintf_d i = (if i < 0 then ''-'' @ itoa (nat (- i)) else itoa (nat i))"

text \<open>
  \<^verbatim>\<open>applyYAML\<close>; \<open>now\<close> is \<^verbatim>\<open>time.Now().UnixNano()\<close>. The deferred
  \<^verbatim>\<open>os.Remove\<close> runs when the function returns after the write succeeded, whatever
  the client returned. When the write fails the function returns before the removal is
  deferred, and what the failed write left at the path stays.
\<close>

definition tempManifest :: "sys \<Rightarrow> int \<Rightarrow> string" where
  "tempManifest env now = joinPath env (tempDir env) (''infractl-'' @ Sprintf_d now @ ''.yaml'')"

definition applyYAML :: "sys \<Rightarrow> int \<Rightarrow> world \<Rightarrow> string \<Rightarrow> string \<Rightarrow> error option \<times> world" where
  "applyYAML env now w kubeconfig yaml =
     (let f = tempManifest env now in
      case WriteFile env w f yaml of
        (Some err, w1) \<Rightarrow> (Some err, w1)
      | (None, w1) \<Rightarrow>
          (let args = kube env [''--kubeconfig'', kubeconfig, ''apply'', ''-f'', f];
               res = runErr env args (files w1)
           in (res, Remove w1 f)))"

text \<open>
  An environment for the examples: a Unix file system in which no call fails, a client
  that prints nothing and exits with status 0.
\<close>

definition plainSys :: sys where
  "plainSys =
     \<lparr>joinPath = (\<lambda>d f. d @ ''/'' @ f), dirOf = (\<lambda>p. rev (drop 1 (dropWhile (\<lambda>c. c \<noteq> CHR ''/'') (rev p)))),
      tempDir = ''/tmp'', execDir = ''/usr/local/bin'',
      writeFileErr = (\<lambda>p d. None), readFileErr = (\<lambda>p. None), mkdirAllErr = (\<lambda>d. None),
      runErr = (\<lambda>a fs. None), cmdOutput = (\<lambda>a. ([], None))\<rparr>"

section \<open>The configuration and the operator's prompts\<close>

record Config =
  Namespace :: string
  NetworkCIDR :: string
  Domain' :: string
  BaseDN :: string
  AdminPass :: string
  ConfigPass :: string
  Kubeconfig :: string
  ReleaseName :: string
  OpenLDAPRepo :: string
  OpenLDAPChart :: string
  OpenLDAPVer :: string

text \<open>
  A process either returns, or ends in \<^verbatim>\<open>must\<close> (the error is printed as
  \<^verbatim>\<open>fatal: ...\<close> and the process exits with status 1), or never returns.
\<close>

datatype 'a proc = Returns 'a | Exits error | NeverReturns

text \<open>
  \<^verbatim>\<open>ask\<close>. The standard input is the list of what each read returns (a line the
  operator typed, or what the masked read printed); after the last one the input is at
  its end and every read returns the empty string. \<^verbatim>\<open>ask\<close> trims what it read.
\<close>

definition ask :: "string list \<Rightarrow> string \<times> string list" where
  "ask stdin = (case stdin of [] \<Rightarrow> ([], []) | l # ls \<Rightarrow> (TrimSpace l, ls))"

text \<open>
  The loop of \<^verbatim>\<open>main\<close> that asks for the network block: a refused block has its
  error printed and is asked for again. The result is the errors printed, and the
  accepted block with the input left. At the end of the input the loop never ends
  (\<open>None\<close>): every read returns the empty string, which is refused (lemma
  \<open>validateCIDR_end_of_input\<close>), and its error is printed for ever after the ones listed.
  The read of one round is \<open>ask (l # ls) = (TrimSpace l, ls)\<close>.
\<close>

fun askCIDR :: "string list \<Rightarrow> error list \<times> (string \<times> string list) option" where
  "askCIDR [] = ([], None)"
| "askCIDR (l # ls) =
     (case validateCIDR (TrimSpace l) of
        Some err \<Rightarrow> (case askCIDR ls of (errs, r) \<Rightarrow> (err # errs, r))
      | None \<Rightarrow> ([], Some (TrimSpace l, ls)))"

text \<open>
  \<^verbatim>\<open>main\<close> from the first prompt to the last (the dependency check before it and
  the cluster stages after it are not part of this function): the configuration the
  stages run with, and the errors printed on the way.
\<close>

definition initialConfig :: Config where
  "initialConfig =
     \<lparr>Namespace = ''infra'', NetworkCIDR = [], Domain' = [], BaseDN = [], AdminPass = [],
      ConfigPass = [], Kubeconfig = ''/etc/rancher/k3s/k3s.yaml'', ReleaseName = ''ldap'',
      OpenLDAPRepo = ''https://jp-gouin.github.io/helm-openldap/'',
      OpenLDAPChart = ''helm-openldap/openldap-stack-ha'', OpenLDAPVer = []\<rparr>"

definition main_prompts :: "string list \<Rightarrow> Config proc \<times> error list" where
  "main_prompts stdin =
     (case askCIDR stdin of
        (errs, None) \<Rightarrow> (NeverReturns, errs)
      | (errs, Some (cidr, in1)) \<Rightarrow>
          (let cfg1 = initialConfig\<lparr>NetworkCIDR := cidr\<rparr>;
               (dom, in2) = ask in1;
               cfg2 = cfg1\<lparr>Domain' := dom\<rparr>
           in if Domain' cfg2 = [] then (Exits ''domain is required'', errs)
              else
                let cfg3 = cfg2\<lparr>BaseDN := baseDNFromDomain (Domain' cfg2)\<rparr>;
                    (pass, in3) = ask in2;
                    cfg4 = cfg3\<lparr>AdminPass := pass\<rparr>
                in if AdminPass cfg4 = [] then (Exits ''admin password required'', errs)
                   else
                     let (cpass, in4) = ask in3;
                         cfg5 = cfg4\<lparr>ConfigPass := cpass\<rparr>;
                         cfg6 = (if ConfigPass cfg5 = [] then cfg5\<lparr>ConfigPass := AdminPass cfg5\<rparr> else cfg5)
                     in (Returns cfg6, errs)))"

section \<open>PostInstallApplier\<close>

text \<open>
  \<^verbatim>\<open>strings.ReplaceAll(s, old, new)\<close> for a non-empty \<open>old\<close>: the occurrences of
  \<open>old\<close> are found from the left, none overlapping another, and each is replaced. (For
  an empty \<open>old\<close> Go inserts \<open>new\<close> around every rune; the program passes its four
  placeholders only, and this function returns \<open>s\<close> there.)
\<close>

function ReplaceAll :: "string \<Rightarrow> string \<Rightarrow> string \<Rightarrow> string" where
  "ReplaceAll s old new =
     (if old = [] \<or> s = [] then s
      else if prefix old s then new @ ReplaceAll (drop (length old) s) old new
      else hd s # ReplaceAll (tl s) old new)"
  by pat_completeness auto
termination
  by (relation "measure (\<lambda>(s, old, new). length s)") auto

declare ReplaceAll.simps [simp del]

text \<open>
  \<^verbatim>\<open>applyMemberOfJob\<close>. The template \<^verbatim>\<open>assets/memberof-job.yaml.tmpl\<close> is
  embedded in the binary and is not among the sources: it is the parameter
  \<open>memberOfJobYAML\<close>.
\<close>

definition renderMemberOfJob :: "string \<Rightarrow> Config \<Rightarrow> string" where
  "renderMemberOfJob memberOfJobYAML cfg =
     (let yamlContent = ReplaceAll memberOfJobYAML ''{{.ReleaseName}}'' (ReleaseName cfg);
          yamlContent = ReplaceAll yamlContent ''{{.Namespace}}'' (Namespace cfg);
          yamlContent = ReplaceAll yamlContent ''{{.BaseDN}}'' (BaseDN cfg);
          yamlContent = ReplaceAll yamlContent ''{{.AdminPass}}'' (AdminPass cfg)
      in yamlContent)"

definition applyMemberOfJob ::
  "sys \<Rightarrow> int \<Rightarrow> string \<Rightarrow> world \<Rightarrow> Config \<Rightarrow> error option \<times> world" where
  "applyMemberOfJob env now memberOfJobYAML w cfg =
     applyYAML env now w (Kubeconfig cfg) (renderMemberOfJob memberOfJobYAML cfg)"

text \<open>
  The placeholders \<^verbatim>\<open>applyMemberOfJob\<close> substitutes. \<open>tokensFrom P s\<close> says that
  wherever \<open>{{\<close> stands in \<open>s\<close>, one of the placeholders of \<open>P\<close> begins.
\<close>

definition placeholders :: "string list" where
  "placeholders = [''{{.ReleaseName}}'', ''{{.Namespace}}'', ''{{.BaseDN}}'', ''{{.AdminPass}}'']"

fun tokensFrom :: "string list \<Rightarrow> string \<Rightarrow> bool" where
  "tokensFrom P [] = True"
| "tokensFrom P (c # s) =
     ((prefix ''{{'' (c # s) \<longrightarrow> list_ex (\<lambda>p. prefix p (c # s)) P) \<and> tokensFrom P s)"

text \<open>
  Modelled from the spec: the template \<^verbatim>\<open>assets/memberof-job.yaml.tmpl\<close>, which is
  embedded in the binary and is not among the sources. The specification describes it
  as a pre-defined manifest template into which the release name, the namespace, the
  base identifier and the admin credential are substituted for placeholders, and calls
  what a rendering leaves unsubstituted an unresolved placeholder token. So a template
  is a text in which each of the four placeholders occurs and which has no other
  placeholder token: wherever \<open>{{\<close> stands, one of the four begins.
\<close>

definition memberOfJobTemplate :: "string \<Rightarrow> bool" where
  "memberOfJobTemplate t =
     (list_all (\<lambda>p. sublist p t) placeholders \<and> tokensFrom placeholders t)"

text \<open>
  The end-to-end scenario of the specification: what the operator types, one line per
  prompt, the last one blank.
\<close>

definition scenarioInput :: "string list" where
  "scenarioInput =
     [''192.168.100.0/24'' @ [CHR 0x0A], ''armani.lab'' @ [CHR 0x0A], ''S3cret!'' @ [CHR 0x0A],
      [CHR 0x0A]]"

text \<open>
  For the proofs about \<open>ReplaceAll\<close>: \<open>apart x y\<close> says that no copy of \<open>y\<close> can
  begin inside a copy of \<open>x\<close>, neither ending in it nor running past its end.
\<close>

definition apart :: "string \<Rightarrow> string \<Rightarrow> bool" where
  "apart x y = list_all (\<lambda>t. t = [] \<or> (\<not> prefix y t \<and> \<not> prefix t y)) (suffixes x)"

section \<open>SecretRetriever\<close>

text \<open>
  \<^verbatim>\<open>base64.StdEncoding.DecodeString\<close>. The decoder skips every carriage return and
  line feed; what is left must be groups of four characters of the alphabet
  \<^verbatim>\<open>A-Z a-z 0-9 + /\<close>, the last group possibly ending in one or two \<^verbatim>\<open>=\<close>, and
  nothing after the padding. \<open>None\<close> is the \<^verbatim>\<open>CorruptInputError\<close>. Bytes are
  characters, a group of four sextets is the number \<open>quantum\<close>.
\<close>

definition decodeMap :: "char \<Rightarrow> nat option" where
  "decodeMap c =
     (let k = (of_char c :: nat) in
      if 65 \<le> k \<and> k \<le> 90 then Some (k - 65)
      else if 97 \<le> k \<and> k \<le> 122 then Some (k - 97 + 26)
      else if 48 \<le> k \<and> k \<le> 57 then Some (k - 48 + 52)
      else if k = 43 then Some 62
      else if k = 47 then Some 63
      else None)"

definition quantum :: "nat \<Rightarrow> nat \<Rightarrow> nat \<Rightarrow> nat \<Rightarrow> nat" where
  "quantum s0 s1 s2 s3 = s0 * 262144 + s1 * 4096 + s2 * 64 + s3"

definition byteChar :: "nat \<Rightarrow> char" where
  "byteChar n = char_of (n mod 256)"

fun decodeQuanta :: "string \<Rightarrow> string option" where
  "decodeQuanta [] = Some []"
| "decodeQuanta (a # b # c # d # rest) =
     (case (decodeMap a, decodeMap b, decodeMap c, decodeMap d) of
        (Some s0, Some s1, Some s2, Some s3) \<Rightarrow>
          (let v = quantum s0 s1 s2 s3 in
           map_option (\<lambda>out. byteChar (v div 65536) # byteChar (v div 256) # byteChar v # out)
             (decodeQuanta rest))
      | (Some s0, Some s1, Some s2, None) \<Rightarrow>
          (if d = CHR ''='' \<and> rest = [] then
             (let v = quantum s0 s1 s2 0 in Some [byteChar (v div 65536), byteChar (v div 256)])
           else None)
      | (Some s0, Some s1, None, _) \<Rightarrow>
          (if c = CHR ''='' \<and> d = CHR ''='' \<and> rest = [] then
             (let v = quantum s0 s1 0 0 in Some [byteChar (v div 65536)])
           else None)
      | _ \<Rightarrow> None)"
| "decodeQuanta _ = None"

definition DecodeString :: "string \<Rightarrow> string option" where
  "DecodeString s = decodeQuanta (filter (\<lambda>c. c \<noteq> CHR 0x0A \<and> c \<noteq> CHR 0x0D) s)"

text \<open>
  \<^verbatim>\<open>GetActualAdminPassword\<close> of the Helm manager, and \<^verbatim>\<open>getActualAdminPassword\<close> of
  the single-file program, which runs the same statements on the fields of the
  configuration.
\<close>

definition GetActualAdminPassword :: "sys \<Rightarrow> string \<Rightarrow> string \<Rightarrow> string \<Rightarrow> string" where
  "GetActualAdminPassword env releaseName namespace kubeconfigPath =
     (let args = kube env [''--kubeconfig'', kubeconfigPath, ''get'', ''secret'', releaseName,
                           ''-n'', namespace, ''-o'', ''jsonpath={.data.LDAP_ADMIN_PASSWORD}'']
      in case runOut env args of
           (out, err) \<Rightarrow>
             if err = None \<and> out \<noteq> [] then
               (case DecodeString out of Some decoded \<Rightarrow> decoded | None \<Rightarrow> [])
             else [])"

definition getActualAdminPassword :: "sys \<Rightarrow> Config \<Rightarrow> string" where
  "getActualAdminPassword env cfg =
     (let args = kube env [''--kubeconfig'', Kubeconfig cfg, ''get'', ''secret'', ReleaseName cfg,
                           ''-n'', Namespace cfg, ''-o'', ''jsonpath={.data.LDAP_ADMIN_PASSWORD}'']
      in case runOut env args of
           (out, err) \<Rightarrow>
             if err = None \<and> out \<noteq> [] then
               (case DecodeString out of Some decoded \<Rightarrow> decoded | None \<Rightarrow> [])
             else [])"

text \<open>
  \<^verbatim>\<open>base64.StdEncoding.EncodeToString\<close>, the encoding in which the cluster returns the
  field of a secret.
\<close>

definition encodeStd :: "nat \<Rightarrow> char" where
  "encodeStd k = ''ABCDEFGHIJKLMNOPQRSTUVWXYZabcdefghijklmnopqrstuvwxyz0123456789+/'' ! k"

fun EncodeToString :: "string \<Rightarrow> string" where
  "EncodeToString [] = []"
| "EncodeToString [a] =
     (let x = (of_char a :: nat) in
      [encodeStd (x div 4), encodeStd (x mod 4 * 16), CHR ''='', CHR ''=''])"
| "EncodeToString [a, b] =
     (let x = (of_char a :: nat); y = (of_char b :: nat) in
      [encodeStd (x div 4), encodeStd (x mod 4 * 16 + y div 16), encodeStd (y mod 16 * 4), CHR ''=''])"
| "EncodeToString (a # b # c # rest) =
     (let x = (of_char a :: nat); y = (of_char b :: nat); z = (of_char c :: nat) in
      [encodeStd (x div 4), encodeStd (x mod 4 * 16 + y div 16), encodeStd (y mod 16 * 4 + z div 64),
       encodeStd (z mod 64)] @ EncodeToString rest)"

section \<open>The Helm SDK\<close>

text \<open>
  What the program uses of the Helm SDK. A repository entry has a name and a URL (the
  program sets no other field). The registration file \<^verbatim>\<open>repositories.yaml\<close> is a
  \<^verbatim>\<open>repo.File\<close>; its \<^verbatim>\<open>Repositories\<close> are pointers to entries, and a YAML
  \<^verbatim>\<open>null\<close> in the list is read as the nil pointer, here \<open>None\<close>. The settings and the outcomes the program cannot decide are the
  fields of \<open>helm\<close>:
  \<^item> \<open>RepositoryConfig\<close> and \<open>RepositoryCache\<close> of \<^verbatim>\<open>cli.New()\<close>;
  \<^item> \<open>newChartRepositoryErr\<close>, \<open>downloadIndexFileErr\<close>: the errors of
    \<^verbatim>\<open>repo.NewChartRepository\<close> and \<^verbatim>\<open>DownloadIndexFile\<close> (the files Helm writes
    into its cache on a direct download are not tracked);
  \<^item> \<open>marshalFile\<close>, \<open>unmarshalFile\<close>: the YAML text of a registration file, and the
    file a text parses to (\<open>None\<close>: it does not parse);
  \<^item> \<open>actionConfigErr\<close>: the error of building the action configuration;
  \<^item> \<open>locateChart\<close>, \<open>loadChart\<close>: a chart reference to its archive, an archive to
    the chart; \<open>releaseNameErr\<close>, \<open>reachableErr\<close>, \<open>clusterOutcome\<close>: the checks and the
    cluster's answer inside \<^verbatim>\<open>Install.Run\<close>.
\<close>

record Entry =
  Name :: string
  URL :: string

record File =
  APIVersion :: string
  Repositories :: "Entry option list"

text \<open>
  A call either returns, or panics: the run-time error of reading a field through a nil
  pointer, which ends the program.
\<close>

datatype 'a exec = Panics | Normal 'a

text \<open>
  The \<^verbatim>\<open>action.Install\<close> fields the program sets, and \<^verbatim>\<open>Replace\<close>, which
  \<^verbatim>\<open>Install.Run\<close> reads; \<open>InstallReleaseName\<close> and \<open>InstallNamespace\<close> are the
  fields \<^verbatim>\<open>ReleaseName\<close> and \<^verbatim>\<open>Namespace\<close>. A duration is a number of
  nanoseconds.
\<close>

record Install =
  InstallReleaseName :: string
  InstallNamespace :: string
  CreateNamespace :: bool
  Wait :: bool
  Timeout :: int
  Replace :: bool


datatype status = StatusDeployed | StatusFailed | StatusUninstalled



datatype cluster_outcome = Installed | Rejected error | Broke error

record 'v helm =
  RepositoryConfig :: string
  RepositoryCache :: string
  newChartRepositoryErr :: "Entry \<Rightarrow> error option"
  downloadIndexFileErr :: "Entry \<Rightarrow> error option"
  marshalFile :: "File \<Rightarrow> string"
  unmarshalFile :: "string \<Rightarrow> File option"
  actionConfigErr :: "string \<Rightarrow> string \<Rightarrow> error option"
  locateChart :: "string \<Rightarrow> error + string"
  loadChart :: "string \<Rightarrow> error + string"
  releaseNameErr :: "string \<Rightarrow> error option"
  reachableErr :: "error option"
  clusterOutcome :: "Install \<Rightarrow> string \<Rightarrow> 'v \<Rightarrow> cluster_outcome"

subsection \<open>The registration file\<close>

text \<open>
  \<^verbatim>\<open>repo.LoadFile\<close>: the file is read and parsed. \<^verbatim>\<open>File.Update\<close>: the
  entries are visited in order and the name of each is read; the first entry of the
  same name is replaced and the visit ends, else the entry is appended. Reading the
  name of a nil entry panics. \<^verbatim>\<open>File.WriteFile\<close>: the directory of the path is
  created and the YAML text is written.
\<close>

definition LoadFile :: "'v helm \<Rightarrow> sys \<Rightarrow> world \<Rightarrow> string \<Rightarrow> error + File" where
  "LoadFile h env w path =
     (case files w path of
        None \<Rightarrow> Inl (''couldn't load repositories file ('' @ path @ '')'')
      | Some b \<Rightarrow>
          (case readFileErr env path of
             Some e \<Rightarrow> Inl (''couldn't load repositories file ('' @ path @ ''): '' @ e)
           | None \<Rightarrow>
               (case unmarshalFile h b of
                  None \<Rightarrow> Inl ''error unmarshaling YAML''
                | Some f \<Rightarrow> Inr f)))"

fun update :: "Entry option list \<Rightarrow> Entry \<Rightarrow> Entry option list exec" where
  "update [] e = Normal [Some e]"
| "update (None # rs) e = Panics"
| "update (Some r # rs) e =
     (if Name r = Name e then Normal (Some e # rs)
      else (case update rs e of Panics \<Rightarrow> Panics | Normal rs' \<Rightarrow> Normal (Some r # rs')))"

definition File_Update :: "File \<Rightarrow> Entry \<Rightarrow> File exec" where
  "File_Update f e =
     (case update (Repositories f) e of
        Panics \<Rightarrow> Panics
      | Normal rs \<Rightarrow> Normal (f\<lparr>Repositories := rs\<rparr>))"

definition File_WriteFile :: "'v helm \<Rightarrow> sys \<Rightarrow> world \<Rightarrow> File \<Rightarrow> string \<Rightarrow> error option \<times> world" where
  "File_WriteFile h env w f path =
     (case MkdirAll env w (dirOf env path) of
        (Some e, w1) \<Rightarrow> (Some e, w1)
      | (None, w1) \<Rightarrow> WriteFile env w1 path (marshalFile h f))"

section \<open>RepositoryResolver\<close>

text \<open>
  \<^verbatim>\<open>AddRepository\<close> in its two parts. \<open>fetchIndex\<close> is the download of the index:
  directly, or with \<^verbatim>\<open>curl\<close> into the cache directory when the direct download
  fails. \<open>updateRepositoryFile\<close> is the update of the registration file: a file that
  does not load is replaced by an empty \<^verbatim>\<open>repo.File\<close>, and a panic of
  \<^verbatim>\<open>File.Update\<close> ends the call before anything is written. \<^verbatim>\<open>addHelmRepo\<close> of the
  single-file program has the same statements.
\<close>

definition fetchIndex :: "'v helm \<Rightarrow> sys \<Rightarrow> world \<Rightarrow> Entry \<Rightarrow> error option \<times> world" where
  "fetchIndex h env w entry =
     (case downloadIndexFileErr h entry of
        None \<Rightarrow> (None, w)
      | Some _ \<Rightarrow>
          (let indexURL = URL entry @ ''/index.yaml'' in
           case cmdOutput env [''curl'', ''-s'', ''-L'', indexURL] of
             (output, Some err) \<Rightarrow> (Some (''failed to download index file locally: '' @ err), w)
           | (output, None) \<Rightarrow>
               (let cacheDir = RepositoryCache h;
                    indexFile = joinPath env cacheDir (Name entry @ ''-index.yaml'')
                in case MkdirAll env w cacheDir of
                     (Some err, w1) \<Rightarrow> (Some (''failed to create cache directory: '' @ err), w1)
                   | (None, w1) \<Rightarrow>
                       (case WriteFile env w1 indexFile output of
                          (Some err, w2) \<Rightarrow> (Some (''failed to write index file: '' @ err), w2)
                        | (None, w2) \<Rightarrow> (None, w2)))))"

definition updateRepositoryFile ::
  "'v helm \<Rightarrow> sys \<Rightarrow> world \<Rightarrow> Entry \<Rightarrow> (error option \<times> world) exec" where
  "updateRepositoryFile h env w entry =
     (let repoFile = RepositoryConfig h;
          repoFileObj = (case LoadFile h env w repoFile of
                           Inl err \<Rightarrow> \<lparr>APIVersion = [], Repositories = []\<rparr>
                         | Inr f \<Rightarrow> f)
      in case File_Update repoFileObj entry of
           Panics \<Rightarrow> Panics
         | Normal repoFileObj \<Rightarrow>
             (case File_WriteFile h env w repoFileObj repoFile of
                (Some err, w1) \<Rightarrow> Normal (Some (''failed to write repository file: '' @ err), w1)
              | (None, w1) \<Rightarrow> Normal (None, w1)))"

definition AddRepository ::
  "'v helm \<Rightarrow> sys \<Rightarrow> world \<Rightarrow> string \<Rightarrow> string \<Rightarrow> (error option \<times> world) exec" where
  "AddRepository h env w name url =
     (let entry = \<lparr>Name = name, URL = url\<rparr> in
      case newChartRepositoryErr h entry of
        Some err \<Rightarrow> Normal (Some (''failed to create chart repository: '' @ err), w)
      | None \<Rightarrow>
          (case fetchIndex h env w entry of
             (Some err, w1) \<Rightarrow> Normal (Some err, w1)
           | (None, w1) \<Rightarrow> updateRepositoryFile h env w1 entry))"

definition addHelmRepo ::
  "'v helm \<Rightarrow> sys \<Rightarrow> world \<Rightarrow> string \<Rightarrow> string \<Rightarrow> (error option \<times> world) exec" where
  "addHelmRepo h env w name url = AddRepository h env w name url"

section \<open>PackageInstaller\<close>

text \<open>
  A Helm manager holds the action configuration, which stores releases in the namespace
  it was initialised with. \<^verbatim>\<open>action.NewInstall\<close> returns an action with every field
  zero.
\<close>

record HelmManager =
  storageNamespace :: string

definition getHelmActionConfig :: "'v helm \<Rightarrow> string \<Rightarrow> string \<Rightarrow> error + HelmManager" where
  "getHelmActionConfig h kubeconfigPath namespace =
     (case actionConfigErr h kubeconfigPath namespace of
        Some err \<Rightarrow> Inl err
      | None \<Rightarrow> Inr \<lparr>storageNamespace = namespace\<rparr>)"

definition NewHelmManager :: "'v helm \<Rightarrow> string \<Rightarrow> string \<Rightarrow> error + HelmManager" where
  "NewHelmManager h kubeconfigPath namespace =
     (case getHelmActionConfig h kubeconfigPath namespace of
        Inl err \<Rightarrow> Inl (''failed to create helm manager: '' @ err)
      | Inr config \<Rightarrow> Inr config)"







text \<open>
  A Helm environment in which nothing fails: the repository is reached directly, every
  chart is found and the cluster installs it. A registration file is written as one
  line for each entry; no text is read back as a file.
\<close>

definition plainHelm :: "string helm" where
  "plainHelm =
     \<lparr>RepositoryConfig = ''/root/.config/helm/repositories.yaml'',
      RepositoryCache = ''/root/.cache/helm/repository'',
      newChartRepositoryErr = (\<lambda>e. None), downloadIndexFileErr = (\<lambda>e. None),
      marshalFile = (\<lambda>f. concat (map (\<lambda>e. case e of
                                              None \<Rightarrow> ''- null'' @ [CHR 0x0A]
                                            | Some e \<Rightarrow> ''- name: '' @ Name e @ '' url: '' @ URL e @ [CHR 0x0A])
                                     (Repositories f))),
      unmarshalFile = (\<lambda>b. None),
      actionConfigErr = (\<lambda>k n. None),
      locateChart = (\<lambda>r. Inr (r @ ''.tgz'')), loadChart = (\<lambda>p. Inr p),
      releaseNameErr = (\<lambda>n. None), reachableErr = None,
      clusterOutcome = (\<lambda>a c v. Installed)\<rparr>"

section \<open>Properties of the string functions\<close>

lemma Split_not_Nil: "Split s sep \<noteq> []"
  by (induction s) (auto split: list.splits)

lemma Split_no_sep: "p \<in> set (Split s sep) \<Longrightarrow> sep \<notin> set p"
proof (induction s arbitrary: p)
  case Nil
  then show ?case by simp
next
  case (Cons c cs)
  show ?case
  proof (cases "c = sep")
    case True
    with Cons show ?thesis by auto
  next
    case False
    obtain q qs where q: "Split cs sep = q # qs"
      using Split_not_Nil [of cs sep] by (cases "Split cs sep") auto
    with False Cons show ?thesis by auto
  qed
qed

lemma Join_Cons: "ps \<noteq> [] \<Longrightarrow> Join (p # ps) sep = p @ sep @ Join ps sep"
  by (cases ps) auto

lemma Join_Split: "Join (Split s sep) [sep] = s"
proof (induction s)
  case Nil
  then show ?case by simp
next
  case (Cons c cs)
  obtain q qs where q: "Split cs sep = q # qs"
    using Split_not_Nil [of cs sep] by (cases "Split cs sep") auto
  show ?case
  proof (cases "c = sep")
    case True
    with Cons q show ?thesis by (simp add: Join_Cons)
  next
    case False
    with Cons q show ?thesis by (cases qs) auto
  qed
qed

lemma baseDN_loop_eq:
  "baseDN_loop ps out = out @ map (\<lambda>seg. ''dc='' @ seg) (filter (\<lambda>seg. seg \<noteq> []) ps)"
  by (induction ps arbitrary: out) auto

section \<open>Properties of the network functions\<close>


lemma isDigit_dig: "k < 10 \<Longrightarrow> isDigit (char_of (48 + k :: nat))"
  by (simp add: isDigit_def)

lemma digitVal_dig: "k < 10 \<Longrightarrow> digitVal (char_of (48 + k :: nat)) = k"
  by (simp add: digitVal_def)

lemma isDigit_not_punct:
  "isDigit c \<Longrightarrow> c \<noteq> CHR ''.'' \<and> c \<noteq> CHR ''/'' \<and> c \<noteq> CHR '':'' \<and> c \<noteq> CHR ''%''"
  by (auto simp: isDigit_def)

lemma itoa1: "n < 10 \<Longrightarrow> itoa n = [char_of (48 + n)]"
  by (simp add: itoa.simps [of n])

lemma itoa2: "10 \<le> n \<Longrightarrow> n < 100 \<Longrightarrow> itoa n = [char_of (48 + n div 10), char_of (48 + n mod 10)]"
  by (simp add: itoa.simps [of n] itoa1)

lemma itoa3: "100 \<le> n \<Longrightarrow> n < 1000 \<Longrightarrow> itoa n = [char_of (48 + n div 100), char_of (48 + n div 10 mod 10), char_of (48 + n mod 10)]"
  by (simp add: itoa.simps [of n] itoa2 div_mult2_eq)

lemma itoa_digits: "list_all isDigit (itoa n)"
proof (induction n rule: itoa.induct)
  case (1 n)
  show ?case
  proof (cases "n < 10")
    case True
    then show ?thesis by (simp add: itoa1 isDigit_dig)
  next
    case False
    with 1 have "list_all isDigit (itoa (n div 10))" by simp
    moreover have "isDigit (char_of (48 + n mod 10))" by (simp add: isDigit_dig)
    ultimately show ?thesis using False by (simp add: itoa.simps [of n])
  qed
qed

lemma itoa_not_Nil: "itoa n \<noteq> []"
  by (simp add: itoa.simps [of n])

text \<open>One octet is read\<close>
lemma parse_octet:
  assumes "v < 256"
  shows "\<exists>p dl. isDigit p \<and> (\<forall>rest first prev flds. parseIPv4Fields_loop (itoa v @ rest) first prev 0 0 flds
           = parseIPv4Fields_loop rest False p v dl flds)"
proof -
  consider "v < 10" | "10 \<le> v" "v < 100" | "100 \<le> v" "v < 256" using assms by linarith
  then show ?thesis
  proof cases
    case 1
    then have "\<forall>rest first prev flds. parseIPv4Fields_loop (itoa v @ rest) first prev 0 0 flds
           = parseIPv4Fields_loop rest False (char_of (48 + v)) v (Suc 0) flds"
      by (simp add: itoa1 isDigit_dig digitVal_dig)
    with 1 show ?thesis using isDigit_dig by blast
  next
    case 2
    then have a: "v div 10 < 10" "v div 10 \<noteq> 0" "v mod 10 < 10" by auto
    have "\<forall>rest first prev flds. parseIPv4Fields_loop (itoa v @ rest) first prev 0 0 flds
           = parseIPv4Fields_loop rest False (char_of (48 + v mod 10)) v (Suc (Suc 0)) flds"
      using 2 a by (simp add: itoa2 isDigit_dig digitVal_dig Let_def)
    with a show ?thesis using isDigit_dig by blast
  next
    case 3
    then have a: "v div 100 < 10" "v div 100 \<noteq> 0" "v div 10 mod 10 < 10" "v mod 10 < 10" "\<not> 255 < v div 10" by auto
    have "v div 100 = v div 10 div 10" by (simp add: div_mult2_eq)
    then have b: "v div 100 * 10 + v div 10 mod 10 = v div 10" by simp
    have c: "v div 10 * 10 + v mod 10 = v" by simp
    have "\<forall>rest first prev flds. parseIPv4Fields_loop (itoa v @ rest) first prev 0 0 flds
           = parseIPv4Fields_loop rest False (char_of (48 + v mod 10)) v (Suc (Suc (Suc 0))) flds"
      using 3 a by (simp add: itoa3 isDigit_dig digitVal_dig Let_def b c)
    with a show ?thesis using isDigit_dig by blast
  qed
qed

lemma parse_dot:
  assumes "isDigit p" "rest \<noteq> []" "length flds < 3"
  shows "parseIPv4Fields_loop (CHR ''.'' # rest) False p v dl flds
           = parseIPv4Fields_loop rest False (CHR ''.'') 0 0 (flds @ [of_nat v])"
  using assms isDigit_not_punct [of p] by (simp add: isDigit_def)

lemma dotted4: "dotted [a, b, c, d] = itoa (unat a) @ CHR ''.'' # itoa (unat b) @ CHR ''.'' # itoa (unat c) @ CHR ''.'' # itoa (unat d)"
  by (simp add: dotted_def)

lemma unat_byte_lt: "unat (x :: byte) < 256"
  using unsigned_less [of x] by simp

lemma parseIPv4_dotted: "parseIPv4 (dotted [a, b, c, d]) = Inr [a, b, c, d]"
proof -
  obtain p1 d1 where 1: "isDigit p1" "\<And>rest first prev flds. parseIPv4Fields_loop (itoa (unat a) @ rest) first prev 0 0 flds = parseIPv4Fields_loop rest False p1 (unat a) d1 flds"
    using parse_octet [OF unat_byte_lt [of a]] by blast
  obtain p2 d2 where 2: "isDigit p2" "\<And>rest first prev flds. parseIPv4Fields_loop (itoa (unat b) @ rest) first prev 0 0 flds = parseIPv4Fields_loop rest False p2 (unat b) d2 flds"
    using parse_octet [OF unat_byte_lt [of b]] by blast
  obtain p3 d3 where 3: "isDigit p3" "\<And>rest first prev flds. parseIPv4Fields_loop (itoa (unat c) @ rest) first prev 0 0 flds = parseIPv4Fields_loop rest False p3 (unat c) d3 flds"
    using parse_octet [OF unat_byte_lt [of c]] by blast
  obtain p4 d4 where 4: "isDigit p4" "\<And>rest first prev flds. parseIPv4Fields_loop (itoa (unat d) @ rest) first prev 0 0 flds = parseIPv4Fields_loop rest False p4 (unat d) d4 flds"
    using parse_octet [OF unat_byte_lt [of d]] by blast
  have ne: "\<And>n r. itoa n @ r \<noteq> []" using itoa_not_Nil by simp
  have "parseIPv4 (dotted [a, b, c, d])
      = parseIPv4Fields_loop (CHR ''.'' # itoa (unat b) @ CHR ''.'' # itoa (unat c) @ CHR ''.'' # itoa (unat d)) False p1 (unat a) d1 []"
    unfolding parseIPv4_def dotted4 using 1(2) by simp
  also have "\<dots> = parseIPv4Fields_loop (itoa (unat b) @ CHR ''.'' # itoa (unat c) @ CHR ''.'' # itoa (unat d)) False (CHR ''.'') 0 0 [a]"
    using parse_dot [OF 1(1) ne, of "[]"] by simp
  also have "\<dots> = parseIPv4Fields_loop (CHR ''.'' # itoa (unat c) @ CHR ''.'' # itoa (unat d)) False p2 (unat b) d2 [a]"
    using 2(2) by simp
  also have "\<dots> = parseIPv4Fields_loop (itoa (unat c) @ CHR ''.'' # itoa (unat d)) False (CHR ''.'') 0 0 [a, b]"
    using parse_dot [OF 2(1) ne, of "[a]"] by simp
  also have "\<dots> = parseIPv4Fields_loop (CHR ''.'' # itoa (unat d)) False p3 (unat c) d3 [a, b]"
    using 3(2) by simp
  also have "\<dots> = parseIPv4Fields_loop (itoa (unat d) @ []) False (CHR ''.'') 0 0 [a, b, c]"
    using parse_dot [OF 3(1) itoa_not_Nil, of "[a, b]"] by simp
  also have "\<dots> = parseIPv4Fields_loop [] False p4 (unat d) d4 [a, b, c]"
    using 4(2) by blast
  also have "\<dots> = Inr [a, b, c, d]" by simp
  finally show ?thesis .
qed

lemma dotted_inj: "dotted [a, b, c, d] = dotted [a', b', c', d'] \<Longrightarrow> [a, b, c, d] = [a', b', c', d']"
  by (metis parseIPv4_dotted sum.inject(2))


subsection \<open>dtoi\<close>

lemma dtoi_loop_value:
  "list_all isDigit ds \<Longrightarrow> dtoi_loop ds acc i = (v, j, True)
     \<Longrightarrow> v = foldl (\<lambda>a c. a * 10 + digitVal c) acc ds \<and> j = i + length ds"
proof (induction ds arbitrary: acc i)
  case Nil
  then show ?case by (auto split: if_splits)
next
  case (Cons c cs)
  from Cons.prems have nb: "\<not> acc * 10 + digitVal c \<ge> big"
    and r: "dtoi_loop cs (acc * 10 + digitVal c) (i + 1) = (v, j, True)" and ds: "list_all isDigit cs"
    by (auto simp: Let_def split: if_splits)
  from Cons.IH [OF ds r] show ?case by simp
qed

lemma decval_itoa: "foldl (\<lambda>a c. a * 10 + digitVal c) 0 (itoa n) = n"
proof (induction n rule: itoa.induct)
  case (1 n)
  show ?case
  proof (cases "n < 10")
    case True
    then show ?thesis by (simp add: itoa1 digitVal_dig)
  next
    case False
    with 1 have "foldl (\<lambda>a c. a * 10 + digitVal c) 0 (itoa (n div 10)) = n div 10" by simp
    then show ?thesis using False by (simp add: itoa.simps [of n] digitVal_dig)
  qed
qed

lemma dtoi_itoa_ok: "dtoi (itoa n) = (v, j, True) \<Longrightarrow> v = n \<and> j = length (itoa n)"
  using dtoi_loop_value [OF itoa_digits, of n 0 0 v j] by (simp add: dtoi_def decval_itoa)

lemma dtoi_itoa_small: "n \<le> 32 \<Longrightarrow> dtoi (itoa n) = (n, length (itoa n), True)"
proof -
  assume n: "n \<le> 32"
  show ?thesis
  proof (cases "n < 10")
    case True
    then show ?thesis by (simp add: dtoi_def itoa1 isDigit_dig digitVal_dig big_def)
  next
    case False
    then have a: "10 \<le> n" "n < 100" "n div 10 < 10" "n mod 10 < 10" using n by auto
    have b: "n div 10 * 10 + n mod 10 = n" by simp
    have c: "n < 16777215" using n by simp
    show ?thesis using a by (simp add: dtoi_def itoa2 isDigit_dig digitVal_dig big_def Let_def b c)
  qed
qed

subsection \<open>ParseCIDR on dotted quads\<close>

lemma dotted_chars: "c \<in> set (dotted [a, b, c', d]) \<Longrightarrow> isDigit c \<or> c = CHR ''.''"
  using itoa_digits by (auto simp: dotted4 list_all_iff)

lemma ParseAddr_scan_digits:
  "list_all isDigit ds \<Longrightarrow> ParseAddr_scan (ds @ CHR ''.'' # r) s
     = (case parseIPv4 s of Inl e \<Rightarrow> Inl e | Inr v4 \<Rightarrow> Inr (32, v4InV6Prefix @ v4, []))"
proof (induction ds)
  case Nil
  then show ?case by simp
next
  case (Cons c cs)
  then show ?case using isDigit_not_punct [of c] by simp
qed

lemma ParseAddr_dotted: "ParseAddr (dotted [a, b, c, d]) = Inr (32, v4InV6Prefix @ [a, b, c, d], [])"
proof -
  have "ParseAddr_scan (itoa (unat a) @ CHR ''.'' # itoa (unat b) @ CHR ''.'' # itoa (unat c) @ CHR ''.'' # itoa (unat d)) (dotted [a, b, c, d])
      = (case parseIPv4 (dotted [a, b, c, d]) of Inl e \<Rightarrow> Inl e | Inr v4 \<Rightarrow> Inr (32, v4InV6Prefix @ v4, []))"
    by (rule ParseAddr_scan_digits [OF itoa_digits])
  then show ?thesis by (simp add: ParseAddr_def parseIPv4_dotted flip: dotted4)
qed

lemma split_slash:
  assumes "CHR ''/'' \<notin> set x"
  shows "takeWhile (\<lambda>c. c \<noteq> CHR ''/'') (x @ CHR ''/'' # y) = x"
    and "dropWhile (\<lambda>c. c \<noteq> CHR ''/'') (x @ CHR ''/'' # y) = CHR ''/'' # y"
  using assms by (induction x) auto

lemma dotted_no_slash: "CHR ''/'' \<notin> set (dotted [a, b, c, d])"
  using dotted_chars [of "CHR ''/''" a b c d] by (auto simp: isDigit_def)

lemma CIDRMask_32: "n \<le> 32 \<Longrightarrow> CIDRMask n 32 = CIDRMask_loop 4 n"
  by (simp add: CIDRMask_def)

lemma length_CIDRMask_loop: "length (CIDRMask_loop l n) = l"
  by (induction l arbitrary: n) auto

lemma IP_Mask_v4:
  assumes "length m = 4"
  shows "IP_Mask (v4InV6Prefix @ [a, b, c, d]) m = map (\<lambda>(x, m). x AND m) (zip [a, b, c, d] m)"
  using assms by (simp add: IP_Mask_def v4InV6Prefix_def Let_def)

lemma ParseCIDR_dotted:
  "ParseCIDR (dotted [a, b, c, d] @ ''/'' @ itoa n) =
     (if n \<le> 32 then
        Inr (v4InV6Prefix @ [a, b, c, d],
             \<lparr>IP = map (\<lambda>(x, m). x AND m) (zip [a, b, c, d] (CIDRMask_loop 4 n)), Mask = CIDRMask_loop 4 n\<rparr>)
      else Inl (''invalid CIDR address: '' @ dotted [a, b, c, d] @ ''/'' @ itoa n))"
proof (cases "n \<le> 32")
  case True
  then show ?thesis
    by (simp add: ParseCIDR_def split_slash [OF dotted_no_slash] ParseAddr_dotted dtoi_itoa_small
        CIDRMask_32 IP_Mask_v4 length_CIDRMask_loop Let_def)
next
  case False
  obtain v j ok where d: "dtoi (itoa n) = (v, j, ok)" by (cases "dtoi (itoa n)") auto
  have "\<not> ok \<or> j \<noteq> length (itoa n) \<or> v > 32"
    using dtoi_itoa_ok [of n v j] d False by (cases ok) auto
  then show ?thesis using False d
    by (auto simp: ParseCIDR_def split_slash [OF dotted_no_slash] ParseAddr_dotted)
qed


subsection \<open>The host check\<close>

lemma To4_4: "To4 [a, b, c, d] = Some [a, b, c, d]"
  by (simp add: To4_def)

lemma To4_mapped: "To4 (v4InV6Prefix @ [a, b, c, d]) = Some [a, b, c, d]"
  by (simp add: To4_def v4InV6Prefix_def isZeros_def)

lemma IP_String_4: "IP_String [a, b, c, d] = dotted [a, b, c, d]"
  by (simp add: IP_String_def To4_4)

lemma IP_String_mapped: "IP_String (v4InV6Prefix @ [a, b, c, d]) = dotted [a, b, c, d]"
proof -
  have "length (v4InV6Prefix @ [a, b, c, d]) = 16" by (simp add: v4InV6Prefix_def)
  then show ?thesis by (simp add: IP_String_def To4_mapped)
qed

subsection \<open>Masks\<close>

lemma not_drop_ff: "n \<le> 8 \<Longrightarrow> NOT (drop_bit n (0xff :: byte)) = NOT (mask (8 - n))"
proof -
  assume n: "n \<le> 8"
  have "(0xff :: byte) = mask 8" by (simp add: mask_eq_exp_minus_1)
  moreover have "drop_bit n (mask 8 :: byte) = mask (8 - n)"
    by (rule bit_word_eqI) (use n in \<open>auto simp: bit_simps\<close>)
  ultimately show ?thesis by simp
qed

lemma and_not_eq_iff: "((x :: byte) AND NOT m = x) \<longleftrightarrow> x AND m = 0"
  by (auto simp: bit_eq_iff bit_simps)

lemma byte_mask: "n \<le> 8 \<Longrightarrow> ((x :: byte) AND NOT (drop_bit n 0xff) = x) \<longleftrightarrow> 2 ^ (8 - n) dvd unat x"
  by (simp only: not_drop_ff and_not_eq_iff and_mask_dvd_nat)

lemma and_ff: "(x :: byte) AND 0xff = x"
proof -
  have "(0xff :: byte) = mask 8" by (simp add: mask_eq_exp_minus_1)
  moreover have "x AND mask 8 = x" by (rule bit_word_eqI) (auto simp: bit_simps)
  ultimately show ?thesis by simp
qed

lemma CIDRMask_loop_0: "CIDRMask_loop l 0 = replicate l 0"
  by (induction l) auto

lemma beValue_lt: "beValue xs < 256 ^ length xs"
proof (induction xs)
  case Nil
  then show ?case by simp
next
  case (Cons x xs)
  have "unat x * 256 ^ length xs + beValue xs < unat x * 256 ^ length xs + 256 ^ length xs"
    using Cons by simp
  also have "\<dots> = (unat x + 1) * 256 ^ length xs" by simp
  also have "\<dots> \<le> 256 * 256 ^ length xs"
    using unat_byte_lt [of x] by (intro mult_right_mono) auto
  finally show ?case by simp
qed

lemma and_zeros_iff: "(map (\<lambda>(x, m). x AND m) (zip xs (replicate (length xs) 0)) = xs) \<longleftrightarrow> beValue xs = 0"
  by (induction xs) (auto simp: unat_eq_zero)

lemma pow_split: "(256 :: nat) ^ l = 2 ^ (8 * l)"
  by (simp add: power_mult)

lemma masked_eq_iff:
  "length xs = l \<Longrightarrow> n \<le> 8 * l \<Longrightarrow>
     (map (\<lambda>(x, m). x AND m) (zip xs (CIDRMask_loop l n)) = xs) \<longleftrightarrow> 2 ^ (8 * l - n) dvd beValue xs"
proof (induction l arbitrary: xs n)
  case 0
  then show ?case by simp
next
  case (Suc l)
  then obtain x ys where xs: "xs = x # ys" and ly: "length ys = l" by (cases xs) auto
  show ?case
  proof (cases "n \<ge> 8")
    case True
    then have n8: "n - 8 \<le> 8 * l" using Suc.prems by simp
    have e: "8 * Suc l - n = 8 * l - (n - 8)" using True by simp
    have "(2 :: nat) ^ (8 * l - (n - 8)) dvd 2 ^ (8 * l)" by (rule le_imp_power_dvd) simp
    then have "(2 :: nat) ^ (8 * l - (n - 8)) dvd unat x * 256 ^ length ys"
      by (simp add: ly pow_split)
    then have d: "2 ^ (8 * l - (n - 8)) dvd beValue xs \<longleftrightarrow> 2 ^ (8 * l - (n - 8)) dvd beValue ys"
      by (simp add: xs dvd_add_right_iff)
    have "(map (\<lambda>(x, m). x AND m) (zip xs (CIDRMask_loop (Suc l) n)) = xs)
        \<longleftrightarrow> (map (\<lambda>(x, m). x AND m) (zip ys (CIDRMask_loop l (n - 8))) = ys)"
      using True by (simp add: xs and_ff)
    also have "\<dots> \<longleftrightarrow> 2 ^ (8 * l - (n - 8)) dvd beValue ys" by (rule Suc.IH [OF ly n8])
    also have "\<dots> \<longleftrightarrow> 2 ^ (8 * l - (n - 8)) dvd beValue xs" by (rule d [symmetric])
    finally show ?thesis unfolding e .
  next
    case False
    then have n: "n < 8" by simp
    define j where "j = 8 - n"
    have e: "8 * Suc l - n = 8 * l + j" using n by (simp add: j_def)
    have lhs: "(map (\<lambda>(x, m). x AND m) (zip xs (CIDRMask_loop (Suc l) n)) = xs)
        \<longleftrightarrow> (2 ^ j dvd unat x \<and> beValue ys = 0)"
      using n byte_mask [of n x] and_zeros_iff [of ys] by (simp add: xs CIDRMask_loop_0 ly j_def)
    have rhs: "2 ^ (8 * l + j) dvd beValue xs \<longleftrightarrow> (2 ^ j dvd unat x \<and> beValue ys = 0)"
    proof
      assume d: "2 ^ (8 * l + j) dvd beValue xs"
      have "(2 :: nat) ^ (8 * l) dvd 2 ^ (8 * l + j)" by (rule le_imp_power_dvd) simp
      from this d have "2 ^ (8 * l) dvd beValue xs" by (rule dvd_trans)
      moreover have "(2 :: nat) ^ (8 * l) dvd unat x * 256 ^ length ys" by (simp add: ly pow_split)
      ultimately have "2 ^ (8 * l) dvd beValue ys" by (simp add: xs dvd_add_right_iff)
      moreover have "beValue ys < 2 ^ (8 * l)" using beValue_lt [of ys] by (simp add: ly pow_split)
      ultimately have z: "beValue ys = 0" using nat_dvd_not_less by fastforce
      with d have "2 ^ j * 2 ^ (8 * l) dvd unat x * 2 ^ (8 * l)"
        by (simp add: xs ly pow_split power_add mult.commute)
      then have "2 ^ j dvd unat x" by simp
      with z show "2 ^ j dvd unat x \<and> beValue ys = 0" by simp
    next
      assume a: "2 ^ j dvd unat x \<and> beValue ys = 0"
      then have "2 ^ j * 2 ^ (8 * l) dvd unat x * 2 ^ (8 * l)" by (simp add: mult_dvd_mono)
      with a show "2 ^ (8 * l + j) dvd beValue xs"
        by (simp add: xs ly pow_split power_add mult.commute)
    qed
    from lhs rhs e show ?thesis by simp
  qed
qed


subsection \<open>Size\<close>

lemma leadingOnes_mask:
  "n < 8 \<Longrightarrow> NOT (drop_bit n (0xff :: byte)) \<noteq> 0xff \<and> leadingOnes 8 (NOT (drop_bit n (0xff :: byte))) = (n, 0)"
proof -
  assume n: "n < 8"
  have "list_all (\<lambda>n. NOT (drop_bit n (0xff :: byte)) \<noteq> 0xff
          \<and> leadingOnes 8 (NOT (drop_bit n (0xff :: byte))) = (n, 0)) [0..<8]"
    by code_simp
  then show ?thesis using n by (simp add: list_all_iff)
qed

lemma simpleMaskLength_CIDRMask_loop:
  "n \<le> 8 * l \<Longrightarrow> simpleMaskLength (CIDRMask_loop l n) = Some n"
proof (induction l arbitrary: n)
  case 0
  then show ?case by simp
next
  case (Suc l)
  show ?case
  proof (cases "n \<ge> 8")
    case True
    then have "n - 8 \<le> 8 * l" using Suc.prems by simp
    from Suc.IH [OF this] True show ?thesis by simp
  next
    case False
    then have "n < 8" by simp
    from leadingOnes_mask [OF this] False show ?thesis
      by (simp add: CIDRMask_loop_0 list_all_iff)
  qed
qed

lemma Size_CIDRMask_loop: "n \<le> 32 \<Longrightarrow> Size (CIDRMask_loop 4 n) = (n, 32)"
  using simpleMaskLength_CIDRMask_loop [of n 4] by (simp add: Size_def length_CIDRMask_loop)


subsection \<open>The private ranges\<close>

lemma CIDRMask_loop_unfold:
  "0 < l \<Longrightarrow> CIDRMask_loop l n =
     (if n \<ge> 8 then 0xff # CIDRMask_loop (l - 1) (n - 8)
      else (NOT (drop_bit n (0xff :: byte))) # CIDRMask_loop (l - 1) 0)"
  by (cases l) auto

lemmas eval_parse = ParseCIDR_def ParseAddr_def parseIPv4_def dtoi_def isDigit_def digitVal_def
  big_def CIDRMask_def CIDRMask_loop_unfold IP_Mask_def v4InV6Prefix_def Let_def

lemma private_ranges_parse:
  "privateNet ''10.0.0.0/8'' = \<lparr>IP = [10, 0, 0, 0], Mask = [0xff, 0, 0, 0]\<rparr>"
  "privateNet ''172.16.0.0/12'' = \<lparr>IP = [172, 16, 0, 0], Mask = [0xff, 0xf0, 0, 0]\<rparr>"
  "privateNet ''192.168.0.0/16'' = \<lparr>IP = [192, 168, 0, 0], Mask = [0xff, 0xff, 0, 0]\<rparr>"
  by (simp_all add: privateNet_def eval_parse)

lemma isPrivateNetwork_4:
  "isPrivateNetwork \<lparr>IP = [a, b, c, d], Mask = m\<rparr>
     \<longleftrightarrow> (a = 10 \<or> (a = 172 \<and> b AND 0xF0 = 0x10) \<or> (a = 192 \<and> b = 168))"
  by (auto simp: isPrivateNetwork_def private_ranges_parse Contains_def networkNumberAndMask_def
      To4_def and_ff)

lemma second_octet_172: "((b :: byte) AND 0xF0 = 0x10) \<longleftrightarrow> (16 \<le> unat b \<and> unat b \<le> 31)"
proof -
  have f0: "(0xF0 :: byte) = NOT (mask 4)" by (simp add: mask_eq_exp_minus_1)
  have a: "b AND NOT (mask 4) = push_bit 4 (drop_bit 4 b)"
    by (rule bit_word_eqI) (auto simp: bit_simps)
  have "unat (push_bit 4 (drop_bit 4 b)) = take_bit LENGTH(8) (push_bit 4 (drop_bit 4 (unat b)))"
    by (simp only: unsigned_push_bit_eq unat_drop_bit_eq)
  also have "\<dots> = (unat b div 16 * 16) mod 256"
    by (simp add: push_bit_eq_mult drop_bit_eq_div take_bit_eq_mod)
  also have "\<dots> = unat b div 16 * 16" using unat_byte_lt [of b] by simp
  finally have u: "unat (b AND 0xF0) = unat b div 16 * 16" by (simp add: f0 a)
  have "(b AND 0xF0 = 0x10) \<longleftrightarrow> unat (b AND 0xF0) = unat (0x10 :: byte)"
    by (simp only: word_unat_eq_iff)
  also have "\<dots> \<longleftrightarrow> unat b div 16 * 16 = 16" by (simp add: u)
  also have "\<dots> \<longleftrightarrow> (16 \<le> unat b \<and> unat b \<le> 31)" by auto
  finally show ?thesis .
qed

lemma beValue_4:
  "beValue [a, b, c, d] = unat a * 16777216 + unat b * 65536 + unat c * 256 + unat d"
  by simp

lemma byte_eq_numeral: "((a :: byte) = 10) = (unat a = 10)" "((a :: byte) = 172) = (unat a = 172)"
  "((a :: byte) = 192) = (unat a = 192)" "((a :: byte) = 168) = (unat a = 168)"
  by (simp_all add: word_unat_eq_iff)

lemma private_bytes_iff:
  "(a = 10 \<or> (a = 172 \<and> b AND 0xF0 = 0x10) \<or> (a = 192 \<and> b = 168))
     \<longleftrightarrow> inPrivateRanges (beValue [a, b, c, d])"
proof -
  have bd: "unat a < 256" "unat b < 256" "unat c < 256" "unat d < 256"
    by (rule unat_byte_lt)+
  have r10: "unat a = 10 \<longleftrightarrow>
      (167772160 \<le> beValue [a, b, c, d] \<and> beValue [a, b, c, d] \<le> 184549375)"
    unfolding beValue_4 using bd by linarith
  have r172: "(unat a = 172 \<and> 16 \<le> unat b \<and> unat b \<le> 31) \<longleftrightarrow>
      (2886729728 \<le> beValue [a, b, c, d] \<and> beValue [a, b, c, d] \<le> 2887778303)"
  proof -
    consider "unat a \<le> 171" | "173 \<le> unat a" | "unat a = 172" "unat b \<le> 15"
      | "unat a = 172" "32 \<le> unat b" | "unat a = 172" "16 \<le> unat b" "unat b \<le> 31"
      by linarith
    then show ?thesis unfolding beValue_4 using bd by cases linarith+
  qed
  have r192: "(unat a = 192 \<and> unat b = 168) \<longleftrightarrow>
      (3232235520 \<le> beValue [a, b, c, d] \<and> beValue [a, b, c, d] \<le> 3232301055)"
  proof -
    consider "unat a \<le> 191" | "193 \<le> unat a" | "unat a = 192" "unat b \<le> 167"
      | "unat a = 192" "169 \<le> unat b" | "unat a = 192" "unat b = 168"
      by linarith
    then show ?thesis unfolding beValue_4 using bd by cases linarith+
  qed
  have c: "beValue [10, 0, 0, 0] = 167772160" "beValue [10, 255, 255, 255] = 184549375"
    "beValue [172, 16, 0, 0] = 2886729728" "beValue [172, 31, 255, 255] = 2887778303"
    "beValue [192, 168, 0, 0] = 3232235520" "beValue [192, 168, 255, 255] = 3232301055"
    by simp_all
  show ?thesis
    unfolding inPrivateRanges_def c byte_eq_numeral second_octet_172
    using r10 r172 r192 by blast
qed

lemma leadingOnes_unfold:
  "0 < k \<Longrightarrow> leadingOnes k v =
     (if v AND 0x80 \<noteq> 0 then (case leadingOnes (k - 1) (push_bit 1 v) of (n, w) \<Rightarrow> (Suc n, w))
      else (0, v))"
  by (cases k) auto

lemma replicate_unfold: "0 < n \<Longrightarrow> replicate n x = x # replicate (n - 1) x"
  by (cases n) auto

lemma v6_parse: "parseIPv6 ''::ffff:192.168.1.1'' = Inr (v4InV6Prefix @ [192, 168, 1, 1], [])"
  by (simp add: parseIPv6_def isHex_def hexVal_def isDigit_def digitVal_def v4InV6Prefix_def Let_def replicate_unfold)

lemma v6_cidr: "ParseCIDR ''::ffff:192.168.1.1/128'' =
  Inr (v4InV6Prefix @ [192, 168, 1, 1], \<lparr>IP = v4InV6Prefix @ [192, 168, 1, 1], Mask = replicate 16 0xff\<rparr>)"
  by (simp add: ParseCIDR_def ParseAddr_def v6_parse dtoi_def isDigit_def digitVal_def
      big_def CIDRMask_def CIDRMask_loop_unfold IP_Mask_def v4InV6Prefix_def Let_def and_ff replicate_unfold)

lemma validateCIDR_dotted:
  "validateCIDR (dotted [a, b, c, d] @ ''/'' @ itoa n) = None
     \<longleftrightarrow> n \<le> 24 \<and> 2 ^ (32 - n) dvd beValue [a, b, c, d] \<and> inPrivateRanges (beValue [a, b, c, d])"
proof (cases "n \<le> 32")
  case False
  then show ?thesis using ParseCIDR_dotted [of a b c d n] by (simp add: validateCIDR_def)
next
  case True
  define M where "M = CIDRMask_loop 4 n"
  define masked where "masked = map (\<lambda>(x, m). x AND m) (zip [a, b, c, d] M)"
  have lenM: "length M = 4" by (simp add: M_def length_CIDRMask_loop)
  then obtain a' b' c' d' where m4: "masked = [a', b', c', d']"
    by (auto simp: masked_def length_Suc_conv numeral_eq_Suc)
  have host: "masked = [a, b, c, d] \<longleftrightarrow> 2 ^ (32 - n) dvd beValue [a, b, c, d]"
    using masked_eq_iff [of "[a, b, c, d]" 4 n] True by (simp add: masked_def M_def)
  have str: "IP_String (v4InV6Prefix @ [a, b, c, d]) = IP_String masked \<longleftrightarrow> masked = [a, b, c, d]"
    using dotted_inj [of a b c d a' b' c' d'] by (auto simp: IP_String_mapped IP_String_4 m4)
  have parse: "ParseCIDR (dotted [a, b, c, d] @ ''/'' @ itoa n)
      = Inr (v4InV6Prefix @ [a, b, c, d], \<lparr>IP = masked, Mask = M\<rparr>)"
    using True ParseCIDR_dotted [of a b c d n] by (simp add: masked_def M_def)
  have size: "Size M = (n, 32)" using True by (simp add: M_def Size_CIDRMask_loop)
  show ?thesis
  proof (cases "masked = [a, b, c, d]")
    case False
    with host str parse show ?thesis by (simp add: validateCIDR_def)
  next
    case eq: True
    have priv: "isPrivateNetwork \<lparr>IP = masked, Mask = M\<rparr> \<longleftrightarrow> inPrivateRanges (beValue [a, b, c, d])"
      unfolding eq isPrivateNetwork_4 by (rule private_bytes_iff)
    from eq host str parse size priv show ?thesis
      by (auto simp: validateCIDR_def)
  qed
qed

subsection \<open>Every IPv4 parse\<close>

lemma parseIPv4Fields_loop_length:
  "length flds \<le> 3 \<Longrightarrow> parseIPv4Fields_loop s first prev val digLen flds = Inr r \<Longrightarrow> length r = 4"
proof (induction s first prev val digLen flds rule: parseIPv4Fields_loop.induct)
  case (1 first prev val digLen flds)
  then show ?case by (auto split: if_splits)
next
  case (2 c cs first prev val digLen flds)
  show ?case
  proof (cases "isDigit c")
    case True
    with 2 show ?thesis by (auto simp: Let_def split: if_splits)
  next
    case False
    with 2 show ?thesis by (auto simp: Let_def split: if_splits)
  qed
qed

lemma parseIPv4_length: "parseIPv4 s = Inr r \<Longrightarrow> \<exists>a b c d. r = [a, b, c, d]"
proof -
  assume "parseIPv4 s = Inr r"
  then have "length r = 4"
    using parseIPv4Fields_loop_length [of "[]" s True "CHR 0x00" 0 0 r] by (simp add: parseIPv4_def)
  then show ?thesis by (auto simp: length_Suc_conv numeral_eq_Suc)
qed

lemma ParseAddr_scan_shape:
  "ParseAddr_scan cs s = Inr (bl, a16, z)
     \<Longrightarrow> (bl = 32 \<and> z = [] \<and> (\<exists>a b c d. a16 = v4InV6Prefix @ [a, b, c, d])) \<or> bl = 128"
proof (induction cs)
  case Nil
  then show ?case by simp
next
  case (Cons c cs)
  then show ?case using parseIPv4_length [of s]
    by (auto split: if_splits sum.splits prod.splits)
qed

lemma ParseCIDR_Nil: "ParseCIDR [] = Inl ''invalid CIDR address: ''"
  by (simp add: ParseCIDR_def)

lemma ParseCIDR_ipv4_shape:
  assumes "ParseCIDR s = Inr (ip, ipNet)" and "length (Mask ipNet) = 4"
  shows "\<exists>a b c d n. n \<le> 32 \<and> ip = v4InV6Prefix @ [a, b, c, d]
           \<and> ipNet = \<lparr>IP = map (\<lambda>(x, m). x AND m) (zip [a, b, c, d] (CIDRMask_loop 4 n)),
                       Mask = CIDRMask_loop 4 n\<rparr>"
proof -
  from assms(1) have "\<exists>bl z n. ParseAddr (takeWhile (\<lambda>c. c \<noteq> CHR ''/'') s) = Inr (bl, ip, z)
      \<and> n \<le> bl \<and> ipNet = \<lparr>IP = IP_Mask ip (CIDRMask n bl), Mask = CIDRMask n bl\<rparr>"
    by (fastforce simp: ParseCIDR_def Let_def not_less
        split: list.splits sum.splits prod.splits if_splits)
  then obtain bl z n where
    pa: "ParseAddr (takeWhile (\<lambda>c. c \<noteq> CHR ''/'') s) = Inr (bl, ip, z)"
    and n: "n \<le> bl" and net: "ipNet = \<lparr>IP = IP_Mask ip (CIDRMask n bl), Mask = CIDRMask n bl\<rparr>"
    by blast
  from pa have "(bl = 32 \<and> z = [] \<and> (\<exists>a b c d. ip = v4InV6Prefix @ [a, b, c, d])) \<or> bl = 128"
    unfolding ParseAddr_def by (rule ParseAddr_scan_shape)
  moreover have "bl \<noteq> 128"
  proof
    assume "bl = 128"
    then have "length (Mask ipNet) = 16" using n by (simp add: net CIDRMask_def length_CIDRMask_loop)
    with assms(2) show False by simp
  qed
  ultimately obtain a b c d where bl: "bl = 32" and ip: "ip = v4InV6Prefix @ [a, b, c, d]" by blast
  have m: "CIDRMask n bl = CIDRMask_loop 4 n" using n bl by (simp add: CIDRMask_32)
  have "ipNet = \<lparr>IP = map (\<lambda>(x, m). x AND m) (zip [a, b, c, d] (CIDRMask_loop 4 n)),
                       Mask = CIDRMask_loop 4 n\<rparr>"
    unfolding net m ip by (simp add: IP_Mask_v4 length_CIDRMask_loop)
  with n bl ip show ?thesis by blast
qed

lemma validateCIDR_parsed:
  assumes parse: "ParseCIDR s = Inr (v4InV6Prefix @ [a, b, c, d],
              \<lparr>IP = map (\<lambda>(x, m). x AND m) (zip [a, b, c, d] (CIDRMask_loop 4 n)),
               Mask = CIDRMask_loop 4 n\<rparr>)"
    and n: "n \<le> 32"
  shows "validateCIDR s = None
     \<longleftrightarrow> n \<le> 24 \<and> 2 ^ (32 - n) dvd beValue [a, b, c, d] \<and> inPrivateRanges (beValue [a, b, c, d])"
proof -
  define M where "M = CIDRMask_loop 4 n"
  define masked where "masked = map (\<lambda>(x, m). x AND m) (zip [a, b, c, d] M)"
  have ne: "s \<noteq> []" using parse ParseCIDR_Nil by auto
  have lenM: "length M = 4" by (simp add: M_def length_CIDRMask_loop)
  then obtain a' b' c' d' where m4: "masked = [a', b', c', d']"
    by (auto simp: masked_def length_Suc_conv numeral_eq_Suc)
  have host: "masked = [a, b, c, d] \<longleftrightarrow> 2 ^ (32 - n) dvd beValue [a, b, c, d]"
    using masked_eq_iff [of "[a, b, c, d]" 4 n] n by (simp add: masked_def M_def)
  have str: "IP_String (v4InV6Prefix @ [a, b, c, d]) = IP_String masked \<longleftrightarrow> masked = [a, b, c, d]"
    using dotted_inj [of a b c d a' b' c' d'] by (auto simp: IP_String_mapped IP_String_4 m4)
  have p: "ParseCIDR s = Inr (v4InV6Prefix @ [a, b, c, d], \<lparr>IP = masked, Mask = M\<rparr>)"
    using parse by (simp add: masked_def M_def)
  have size: "Size M = (n, 32)" using n by (simp add: M_def Size_CIDRMask_loop)
  show ?thesis
  proof (cases "masked = [a, b, c, d]")
    case False
    with host str p ne show ?thesis by (simp add: validateCIDR_def)
  next
    case eq: True
    have priv: "isPrivateNetwork \<lparr>IP = masked, Mask = M\<rparr> \<longleftrightarrow> inPrivateRanges (beValue [a, b, c, d])"
      unfolding eq isPrivateNetwork_4 by (rule private_bytes_iff)
    from eq host str p size priv ne show ?thesis
      by (auto simp: validateCIDR_def)
  qed
qed

lemma networkInPrivateRanges_address: "networkInPrivateRanges v n \<Longrightarrow> inPrivateRanges v"
proof -
  have "(1 :: nat) \<le> 2 ^ (32 - n)" by simp
  then have "v \<le> v + 2 ^ (32 - n) - 1" by linarith
  then show "networkInPrivateRanges v n \<Longrightarrow> inPrivateRanges v"
    unfolding networkInPrivateRanges_def inPrivateRanges_def by linarith
qed

lemma dtoi_loop_zeros:
  "ds \<noteq> [] \<Longrightarrow> dtoi_loop (replicate k (CHR ''0'') @ ds) 0 i = dtoi_loop ds 0 (i + k)"
proof (induction k arbitrary: i)
  case 0
  then show ?case by simp
next
  case (Suc k)
  have "isDigit (CHR ''0'')" "digitVal (CHR ''0'') = 0" by (simp_all add: isDigit_def digitVal_def)
  then show ?case using Suc by (simp add: big_def)
qed

lemma dtoi_loop_itoa_small:
  "n \<le> 32 \<Longrightarrow> dtoi_loop (itoa n) 0 i = (n, i + length (itoa n), True)"
proof -
  assume n: "n \<le> 32"
  show ?thesis
  proof (cases "n < 10")
    case True
    then show ?thesis by (simp add: itoa1 isDigit_dig digitVal_dig big_def)
  next
    case False
    then have a: "10 \<le> n" "n < 100" "n div 10 < 10" "n mod 10 < 10" using n by auto
    have b: "n div 10 * 10 + n mod 10 = n" by simp
    have c: "n < 16777215" using n by simp
    show ?thesis using a by (simp add: itoa2 isDigit_dig digitVal_dig big_def Let_def b c)
  qed
qed

lemma dtoi_zeros_itoa:
  "n \<le> 32 \<Longrightarrow> dtoi (replicate k (CHR ''0'') @ itoa n) = (n, length (replicate k (CHR ''0'') @ itoa n), True)"
  by (simp add: dtoi_def dtoi_loop_zeros itoa_not_Nil dtoi_loop_itoa_small)

lemma ParseCIDR_dotted_zeros:
  "n \<le> 32 \<Longrightarrow> ParseCIDR (dotted [a, b, c, d] @ ''/'' @ replicate k (CHR ''0'') @ itoa n) =
        Inr (v4InV6Prefix @ [a, b, c, d],
             \<lparr>IP = map (\<lambda>(x, m). x AND m) (zip [a, b, c, d] (CIDRMask_loop 4 n)), Mask = CIDRMask_loop 4 n\<rparr>)"
  by (simp add: ParseCIDR_def split_slash [OF dotted_no_slash] ParseAddr_dotted dtoi_zeros_itoa
      CIDRMask_32 IP_Mask_v4 length_CIDRMask_loop Let_def del: replicate.simps)

section \<open>Properties of the prompts\<close>

lemma validateCIDR_end_of_input: "validateCIDR (fst (ask [])) \<noteq> None"
  by (simp add: ask_def validateCIDR_def)

lemma TrimSpace_plain:
  "spaceWidth s = 0 \<Longrightarrow> spaceWidthEnd (rev s) = 0 \<Longrightarrow> TrimSpace s = s"
  by (simp add: TrimSpace_def TrimRight_def)

lemmas eval_TrimSpace = TrimSpace_def TrimRight_def asciiSpace_def space2_def space3_def

lemma validateCIDR_scenario: "validateCIDR ''192.168.100.0/24'' = None"
proof -
  have s: "dotted [192, 168, 100, 0] @ ''/'' @ itoa 24 = ''192.168.100.0/24''" by code_simp
  show ?thesis using validateCIDR_dotted [of 192 168 100 0 24] unfolding s
    by (simp add: inPrivateRanges_def)
qed

lemma validateCIDR_host:
  "validateCIDR ''192.168.100.1/24'' = Some ''CIDR must represent a network, not a host address''"
proof -
  have s: "dotted [192, 168, 100, 1] @ ''/'' @ itoa 24 = ''192.168.100.1/24''" by code_simp
  have p: "ParseCIDR ''192.168.100.1/24''
      = Inr (v4InV6Prefix @ [192, 168, 100, 1], \<lparr>IP = [192, 168, 100, 0], Mask = [0xff, 0xff, 0xff, 0]\<rparr>)"
    using ParseCIDR_dotted [of 192 168 100 1 24] unfolding s by (simp add: CIDRMask_loop_unfold)
  have "dotted [192, 168, 100, 1] \<noteq> dotted [192, 168, 100, 0]"
    using dotted_inj [of 192 168 100 1 192 168 100 0] by auto
  then show ?thesis by (simp add: validateCIDR_def p IP_String_mapped IP_String_4)
qed

lemma trim_replies:
  "TrimSpace (''192.168.100.0/24'' @ [CHR 0x0A]) = ''192.168.100.0/24''"
  "TrimSpace (''192.168.100.1/24'' @ [CHR 0x0A]) = ''192.168.100.1/24''"
  "TrimSpace (''armani.lab'' @ [CHR 0x0A]) = ''armani.lab''"
  "TrimSpace (''S3cret!'' @ [CHR 0x0A]) = ''S3cret!''"
  "TrimSpace [CHR 0x0A] = []"
  "TrimSpace ''armani.lab'' = ''armani.lab''"
  by (simp_all add: eval_TrimSpace)

lemma baseDN_scenario: "baseDNFromDomain ''armani.lab'' = ''dc=armani,dc=lab''"
  by (simp add: baseDNFromDomain_def trim_replies)

lemma main_prompts_scenario:
  "main_prompts [''192.168.100.0/24'' @ [CHR 0x0A], ''armani.lab'' @ [CHR 0x0A],
                 ''S3cret!'' @ [CHR 0x0A], [CHR 0x0A]]
     = (Returns (initialConfig\<lparr>NetworkCIDR := ''192.168.100.0/24'', Domain' := ''armani.lab'',
                   BaseDN := ''dc=armani,dc=lab'', AdminPass := ''S3cret!'',
                   ConfigPass := ''S3cret!''\<rparr>), [])"
  by (simp add: main_prompts_def ask_def trim_replies validateCIDR_scenario baseDN_scenario
      del: append.simps)

section \<open>Properties of \<open>ReplaceAll\<close>\<close>

lemma ReplaceAll_Nil: "ReplaceAll [] old new = []"
  by (simp add: ReplaceAll.simps)

lemma ReplaceAll_match:
  "old \<noteq> [] \<Longrightarrow> ReplaceAll (old @ s) old new = new @ ReplaceAll s old new"
  by (subst ReplaceAll.simps) simp

lemma ReplaceAll_step:
  "old \<noteq> [] \<Longrightarrow> \<not> prefix old (c # cs) \<Longrightarrow> ReplaceAll (c # cs) old new = c # ReplaceAll cs old new"
  by (subst ReplaceAll.simps) simp

lemma apartD: "apart x y \<Longrightarrow> suffix t x \<Longrightarrow> t \<noteq> [] \<Longrightarrow> \<not> prefix y t \<and> \<not> prefix t y"
  by (auto simp: apart_def list_all_iff)

lemma prefix_append_cases: "prefix u (t @ w) \<Longrightarrow> prefix u t \<or> prefix t u"
  using prefix_same_cases [of u "t @ w" t] by auto

lemma sublist_skip:
  assumes "apart x u" "sublist u (x @ w)"
  shows "sublist u w"
  using assms
proof (induction x)
  case Nil
  then show ?case by simp
next
  case (Cons a x)
  have ap: "apart x u" using Cons.prems(1) by (auto simp: apart_def)
  from Cons.prems(2) have "prefix u (a # x @ w) \<or> sublist u (x @ w)"
    by (simp add: sublist_Cons_right)
  then show ?case
  proof
    assume "prefix u (a # x @ w)"
    then have "prefix u ((a # x) @ w)" by simp
    then have "prefix u (a # x) \<or> prefix (a # x) u" by (rule prefix_append_cases)
    with apartD [OF Cons.prems(1), of "a # x"] have False by auto
    then show ?thesis by simp
  next
    assume "sublist u (x @ w)"
    with Cons.IH ap show ?thesis by simp
  qed
qed


text \<open>a prefix w of the output that no copy of new can meet is a prefix of the input\<close>
lemma prefix_ReplaceAll_back:
  assumes old: "old \<noteq> []" and ap: "apart u new" and nn: "new \<noteq> []"
  shows "suffix w u \<Longrightarrow> prefix w (ReplaceAll s old new) \<Longrightarrow> prefix w s"
proof (induction s arbitrary: w rule: length_induct)
  case (1 s)
  show ?case
  proof (cases "w = []")
    case True
    then show ?thesis by simp
  next
    case wne: False
    show ?thesis
    proof (cases s)
      case Nil
      with 1 show ?thesis by (simp add: ReplaceAll_Nil)
    next
      case (Cons c cs)
      show ?thesis
      proof (cases "prefix old s")
        case True
        then obtain r where r: "s = old @ r" by (auto simp: prefix_def)
        with 1(3) old have "prefix w (new @ ReplaceAll r old new)" by (simp add: ReplaceAll_match)
        then have "prefix w new \<or> prefix new w" by (rule prefix_append_cases)
        with apartD [OF ap 1(2) wne] have False by auto
        then show ?thesis by simp
      next
        case False
        with 1(3) old Cons have p: "prefix w (c # ReplaceAll cs old new)" by (simp add: ReplaceAll_step)
        with wne obtain w' where w: "w = c # w'" and p': "prefix w' (ReplaceAll cs old new)"
          by (cases w) auto
        have "suffix w' u" using 1(2) w by (metis suffix_ConsD)
        with 1(1) p' Cons have "prefix w' cs" by simp
        with w Cons show ?thesis by simp
      qed
    qed
  qed
qed

lemma ReplaceAll_no_new_occurrence:
  assumes old: "old \<noteq> []" and u: "u \<noteq> []" and ap1: "apart u new" and ap2: "apart new u" and nn: "new \<noteq> []"
  shows "sublist u (ReplaceAll s old new) \<Longrightarrow> sublist u s"
proof (induction s rule: length_induct)
  case (1 s)
  show ?case
  proof (cases s)
    case Nil
    with 1 show ?thesis by (simp add: ReplaceAll_Nil)
  next
    case (Cons c cs)
    show ?thesis
    proof (cases "prefix old s")
      case True
      then obtain r where r: "s = old @ r" by (auto simp: prefix_def)
      with 1(2) old have "sublist u (new @ ReplaceAll r old new)" by (simp add: ReplaceAll_match)
      with ap2 have "sublist u (ReplaceAll r old new)" by (rule sublist_skip)
      moreover have "length r < length s" using r old by simp
      ultimately have "sublist u r" using 1(1) by blast
      then show ?thesis by (simp add: r sublist_append)
    next
      case False
      with 1(2) old Cons have "sublist u (c # ReplaceAll cs old new)" by (simp add: ReplaceAll_step)
      then have "prefix u (c # ReplaceAll cs old new) \<or> sublist u (ReplaceAll cs old new)"
        by (simp add: sublist_Cons_right)
      then show ?thesis
      proof
        assume p: "prefix u (c # ReplaceAll cs old new)"
        have "ReplaceAll s old new = c # ReplaceAll cs old new"
          using False old Cons by (simp add: ReplaceAll_step)
        with p have "prefix u (ReplaceAll s old new)" by simp
        with prefix_ReplaceAll_back [OF old ap1 nn, of u s] have "prefix u s" by simp
        then show ?thesis by (rule prefix_imp_sublist)
      next
        assume "sublist u (ReplaceAll cs old new)"
        with 1(1) Cons have "sublist u cs" by simp
        then show ?thesis by (simp add: Cons sublist_Cons_right)
      qed
    qed
  qed
qed


lemma ReplaceAll_removes_old:
  assumes old: "old \<noteq> []" and ap1: "apart old new" and ap2: "apart new old" and nn: "new \<noteq> []"
  shows "\<not> sublist old (ReplaceAll s old new)"
proof (induction s rule: length_induct)
  case (1 s)
  show ?case
  proof (cases s)
    case Nil
    with old show ?thesis by (simp add: ReplaceAll_Nil)
  next
    case (Cons c cs)
    show ?thesis
    proof (cases "prefix old s")
      case True
      then obtain r where r: "s = old @ r" by (auto simp: prefix_def)
      have lt: "length r < length s" using r old by simp
      show ?thesis
      proof
        assume "sublist old (ReplaceAll s old new)"
        with r old have "sublist old (new @ ReplaceAll r old new)" by (simp add: ReplaceAll_match)
        with ap2 have "sublist old (ReplaceAll r old new)" by (rule sublist_skip)
        with 1 lt show False by blast
      qed
    next
      case False
      have e: "ReplaceAll s old new = c # ReplaceAll cs old new"
        using False old Cons by (simp add: ReplaceAll_step)
      show ?thesis
      proof
        assume a: "sublist old (ReplaceAll s old new)"
        then have "prefix old (c # ReplaceAll cs old new) \<or> sublist old (ReplaceAll cs old new)"
          by (simp add: e sublist_Cons_right)
        then show False
        proof
          assume "prefix old (c # ReplaceAll cs old new)"
          then have "prefix old (ReplaceAll s old new)" by (simp add: e)
          with prefix_ReplaceAll_back [OF old ap1 nn, of old s] have "prefix old s" by simp
          with False show False by simp
        next
          assume "sublist old (ReplaceAll cs old new)"
          with 1 Cons show False by simp
        qed
      qed
    qed
  qed
qed

lemma prefix_ReplaceAll_forward:
  assumes old: "old \<noteq> []" and ap: "apart u old"
  shows "suffix w u \<Longrightarrow> prefix w s \<Longrightarrow> prefix w (ReplaceAll s old new)"
proof (induction s arbitrary: w)
  case Nil
  then show ?case by (simp add: ReplaceAll_Nil)
next
  case (Cons c cs)
  show ?case
  proof (cases w)
    case Nil
    then show ?thesis by simp
  next
    case w: (Cons d w')
    with Cons.prems(2) have d: "d = c" and p': "prefix w' cs" by auto
    have wne: "w \<noteq> []" using w by simp
    have nomatch: "\<not> prefix old (c # cs)"
    proof
      assume "prefix old (c # cs)"
      from this Cons.prems(2) have "prefix old w \<or> prefix w old" by (rule prefix_same_cases)
      with apartD [OF ap Cons.prems(1) wne] show False by auto
    qed
    have "suffix w' u" using Cons.prems(1) w by (metis suffix_ConsD)
    with Cons.IH p' have "prefix w' (ReplaceAll cs old new)" by simp
    with nomatch old w d show ?thesis by (simp add: ReplaceAll_step)
  qed
qed

lemma ReplaceAll_keeps_occurrence:
  assumes old: "old \<noteq> []" and ap1: "apart old u" and ap2: "apart u old"
  shows "sublist u s \<Longrightarrow> sublist u (ReplaceAll s old new)"
proof (induction s rule: length_induct)
  case (1 s)
  show ?case
  proof (cases s)
    case Nil
    with 1 show ?thesis by (simp add: ReplaceAll_Nil)
  next
    case (Cons c cs)
    show ?thesis
    proof (cases "prefix old s")
      case True
      then obtain r where r: "s = old @ r" by (auto simp: prefix_def)
      have lt: "length r < length s" using r old by simp
      from 1(2) r have "sublist u (old @ r)" by simp
      with ap1 have "sublist u r" by (rule sublist_skip)
      with 1(1) lt have "sublist u (ReplaceAll r old new)" by blast
      then show ?thesis using old by (simp add: r ReplaceAll_match sublist_append)
    next
      case False
      have e: "ReplaceAll s old new = c # ReplaceAll cs old new"
        using False old Cons by (simp add: ReplaceAll_step)
      from 1(2) Cons have "prefix u (c # cs) \<or> sublist u cs" by (simp add: sublist_Cons_right)
      then show ?thesis
      proof
        assume "prefix u (c # cs)"
        with prefix_ReplaceAll_forward [OF old ap2, of u s new] Cons
        have "prefix u (ReplaceAll s old new)" by simp
        then show ?thesis by (rule prefix_imp_sublist)
      next
        assume "sublist u cs"
        with 1(1) Cons have "sublist u (ReplaceAll cs old new)" by simp
        then show ?thesis by (simp add: e sublist_Cons_right)
      qed
    qed
  qed
qed

lemma ReplaceAll_puts_new:
  assumes old: "old \<noteq> []"
  shows "sublist old s \<Longrightarrow> sublist new (ReplaceAll s old new)"
proof (induction s rule: length_induct)
  case (1 s)
  show ?case
  proof (cases s)
    case Nil
    with 1 old show ?thesis by simp
  next
    case (Cons c cs)
    show ?thesis
    proof (cases "prefix old s")
      case True
      then obtain r where r: "s = old @ r" by (auto simp: prefix_def)
      then show ?thesis using old by (simp add: ReplaceAll_match sublist_append)
    next
      case False
      have e: "ReplaceAll s old new = c # ReplaceAll cs old new"
        using False old Cons by (simp add: ReplaceAll_step)
      from 1(2) Cons False have "sublist old cs" by (simp add: sublist_Cons_right)
      with 1(1) Cons have "sublist new (ReplaceAll cs old new)" by simp
      then show ?thesis by (simp add: e sublist_Cons_right)
    qed
  qed
qed

text \<open>The placeholders and the values of the scenario keep apart.\<close>

lemma apart_placeholders:
  "apart ''{{.ReleaseName}}'' ''ldap''" "apart ''ldap'' ''{{.ReleaseName}}''"
  "apart ''{{.ReleaseName}}'' ''infra''" "apart ''infra'' ''{{.ReleaseName}}''"
  "apart ''{{.ReleaseName}}'' ''dc=armani,dc=lab''" "apart ''dc=armani,dc=lab'' ''{{.ReleaseName}}''"
  "apart ''{{.ReleaseName}}'' ''S3cret!''" "apart ''S3cret!'' ''{{.ReleaseName}}''"
  "apart ''{{.Namespace}}'' ''infra''" "apart ''infra'' ''{{.Namespace}}''"
  "apart ''{{.Namespace}}'' ''dc=armani,dc=lab''" "apart ''dc=armani,dc=lab'' ''{{.Namespace}}''"
  "apart ''{{.Namespace}}'' ''S3cret!''" "apart ''S3cret!'' ''{{.Namespace}}''"
  "apart ''{{.BaseDN}}'' ''dc=armani,dc=lab''" "apart ''dc=armani,dc=lab'' ''{{.BaseDN}}''"
  "apart ''{{.BaseDN}}'' ''S3cret!''" "apart ''S3cret!'' ''{{.BaseDN}}''"
  "apart ''{{.AdminPass}}'' ''S3cret!''" "apart ''S3cret!'' ''{{.AdminPass}}''"
  "apart ''{{.ReleaseName}}'' ''{{.BaseDN}}''" "apart ''{{.BaseDN}}'' ''{{.ReleaseName}}''"
  "apart ''{{.Namespace}}'' ''{{.BaseDN}}''" "apart ''{{.BaseDN}}'' ''{{.Namespace}}''"
  "apart ''{{.AdminPass}}'' ''dc=armani,dc=lab''" "apart ''dc=armani,dc=lab'' ''{{.AdminPass}}''"
  by (simp_all add: apart_def)

lemma render_scenario_no_placeholder:
  assumes "ReleaseName cfg = ''ldap''" "Namespace cfg = ''infra''"
    "BaseDN cfg = ''dc=armani,dc=lab''" "AdminPass cfg = ''S3cret!''"
  shows "\<not> sublist ''{{.ReleaseName}}'' (renderMemberOfJob t cfg)"
    and "\<not> sublist ''{{.Namespace}}'' (renderMemberOfJob t cfg)"
    and "\<not> sublist ''{{.BaseDN}}'' (renderMemberOfJob t cfg)"
    and "\<not> sublist ''{{.AdminPass}}'' (renderMemberOfJob t cfg)"
proof -
  define y1 where "y1 = ReplaceAll t ''{{.ReleaseName}}'' ''ldap''"
  define y2 where "y2 = ReplaceAll y1 ''{{.Namespace}}'' ''infra''"
  define y3 where "y3 = ReplaceAll y2 ''{{.BaseDN}}'' ''dc=armani,dc=lab''"
  define y4 where "y4 = ReplaceAll y3 ''{{.AdminPass}}'' ''S3cret!''"
  have r: "renderMemberOfJob t cfg = y4"
    by (simp add: renderMemberOfJob_def assms y1_def y2_def y3_def y4_def)
  have "\<not> sublist ''{{.ReleaseName}}'' y1"
    unfolding y1_def by (rule ReplaceAll_removes_old) (simp_all add: apart_placeholders)
  then have "\<not> sublist ''{{.ReleaseName}}'' y2"
    unfolding y2_def using ReplaceAll_no_new_occurrence [of "''{{.Namespace}}''" "''{{.ReleaseName}}''" "''infra''" y1]
    by (auto simp: apart_placeholders)
  then have "\<not> sublist ''{{.ReleaseName}}'' y3"
    unfolding y3_def using ReplaceAll_no_new_occurrence [of "''{{.BaseDN}}''" "''{{.ReleaseName}}''" "''dc=armani,dc=lab''" y2]
    by (auto simp: apart_placeholders)
  then have "\<not> sublist ''{{.ReleaseName}}'' y4"
    unfolding y4_def using ReplaceAll_no_new_occurrence [of "''{{.AdminPass}}''" "''{{.ReleaseName}}''" "''S3cret!''" y3]
    by (auto simp: apart_placeholders)
  then show "\<not> sublist ''{{.ReleaseName}}'' (renderMemberOfJob t cfg)" by (simp add: r)
  have "\<not> sublist ''{{.Namespace}}'' y2"
    unfolding y2_def by (rule ReplaceAll_removes_old) (simp_all add: apart_placeholders)
  then have "\<not> sublist ''{{.Namespace}}'' y3"
    unfolding y3_def using ReplaceAll_no_new_occurrence [of "''{{.BaseDN}}''" "''{{.Namespace}}''" "''dc=armani,dc=lab''" y2]
    by (auto simp: apart_placeholders)
  then have "\<not> sublist ''{{.Namespace}}'' y4"
    unfolding y4_def using ReplaceAll_no_new_occurrence [of "''{{.AdminPass}}''" "''{{.Namespace}}''" "''S3cret!''" y3]
    by (auto simp: apart_placeholders)
  then show "\<not> sublist ''{{.Namespace}}'' (renderMemberOfJob t cfg)" by (simp add: r)
  have "\<not> sublist ''{{.BaseDN}}'' y3"
    unfolding y3_def by (rule ReplaceAll_removes_old) (simp_all add: apart_placeholders)
  then have "\<not> sublist ''{{.BaseDN}}'' y4"
    unfolding y4_def using ReplaceAll_no_new_occurrence [of "''{{.AdminPass}}''" "''{{.BaseDN}}''" "''S3cret!''" y3]
    by (auto simp: apart_placeholders)
  then show "\<not> sublist ''{{.BaseDN}}'' (renderMemberOfJob t cfg)" by (simp add: r)
  have "\<not> sublist ''{{.AdminPass}}'' y4"
    unfolding y4_def by (rule ReplaceAll_removes_old) (simp_all add: apart_placeholders)
  then show "\<not> sublist ''{{.AdminPass}}'' (renderMemberOfJob t cfg)" by (simp add: r)
qed

lemma render_scenario_baseDN:
  assumes "ReleaseName cfg = ''ldap''" "Namespace cfg = ''infra''"
    "BaseDN cfg = ''dc=armani,dc=lab''" "AdminPass cfg = ''S3cret!''"
    and t: "sublist ''{{.BaseDN}}'' t"
  shows "sublist ''dc=armani,dc=lab'' (renderMemberOfJob t cfg)"
proof -
  define y1 where "y1 = ReplaceAll t ''{{.ReleaseName}}'' ''ldap''"
  define y2 where "y2 = ReplaceAll y1 ''{{.Namespace}}'' ''infra''"
  define y3 where "y3 = ReplaceAll y2 ''{{.BaseDN}}'' ''dc=armani,dc=lab''"
  define y4 where "y4 = ReplaceAll y3 ''{{.AdminPass}}'' ''S3cret!''"
  have r: "renderMemberOfJob t cfg = y4"
    by (simp add: renderMemberOfJob_def assms(1-4) y1_def y2_def y3_def y4_def)
  from t have "sublist ''{{.BaseDN}}'' y1"
    unfolding y1_def by (intro ReplaceAll_keeps_occurrence) (simp_all add: apart_placeholders)
  then have "sublist ''{{.BaseDN}}'' y2"
    unfolding y2_def by (intro ReplaceAll_keeps_occurrence) (simp_all add: apart_placeholders)
  then have "sublist ''dc=armani,dc=lab'' y3"
    unfolding y3_def by (intro ReplaceAll_puts_new) simp_all
  then have "sublist ''dc=armani,dc=lab'' y4"
    unfolding y4_def by (intro ReplaceAll_keeps_occurrence) (simp_all add: apart_placeholders)
  then show ?thesis by (simp add: r)
qed

subsection \<open>Placeholder tokens\<close>

lemma tokensFrom_drop: "tokensFrom P s \<Longrightarrow> tokensFrom P (drop k s)"
proof (induction s arbitrary: k)
  case Nil
  then show ?case by simp
next
  case (Cons c s)
  then show ?case by (cases k) auto
qed

lemma tokensFrom_plain_append:
  "CHR ''{'' \<notin> set x \<Longrightarrow> tokensFrom P y \<Longrightarrow> tokensFrom P (x @ y)"
  by (induction x) auto

lemma tokensFrom_none: "tokensFrom [] s \<longleftrightarrow> \<not> sublist ''{{'' s"
  by (induction s) (auto simp: sublist_Cons_right)

lemma ReplaceAll_plain:
  assumes "old \<noteq> []" "hd old = CHR ''{''"
  shows "CHR ''{'' \<notin> set x \<Longrightarrow> ReplaceAll (x @ r) old new = x @ ReplaceAll r old new"
proof (induction x)
  case Nil
  show ?case by simp
next
  case (Cons c x)
  have "\<not> prefix old (c # x @ r)"
  proof
    assume "prefix old (c # x @ r)"
    then have "hd old = c" using assms(1) by (cases old) auto
    with Cons.prems assms(2) show False by simp
  qed
  then show ?case using Cons assms(1) by (simp add: ReplaceAll_step)
qed

lemma ReplaceAll_keeps_token:
  assumes old: "old = ''{{'' @ obody"
    and body: "body \<noteq> []" "CHR ''{'' \<notin> set body"
    and np: "\<not> prefix old (''{{'' @ body @ r)"
  shows "ReplaceAll (''{{'' @ body @ r) old new = ''{{'' @ body @ ReplaceAll r old new"
proof -
  have o: "old \<noteq> []" "hd old = CHR ''{''" by (simp_all add: old)
  have "hd body \<noteq> CHR ''{''" using body by (cases body) auto
  then have n2: "\<not> prefix old (CHR ''{'' # body @ r)"
    using body(1) by (cases body) (auto simp: old)
  have "ReplaceAll (''{{'' @ body @ r) old new = CHR ''{'' # ReplaceAll (CHR ''{'' # body @ r) old new"
    using np o(1) by (simp add: ReplaceAll_step)
  also have "\<dots> = CHR ''{'' # CHR ''{'' # ReplaceAll (body @ r) old new"
    using n2 o(1) by (simp add: ReplaceAll_step)
  also have "\<dots> = ''{{'' @ body @ ReplaceAll r old new"
    using ReplaceAll_plain [OF o body(2)] by simp
  finally show ?thesis .
qed

lemma ReplaceAll_tokensFrom:
  assumes tok: "\<forall>p \<in> set P. \<exists>body. p = ''{{'' @ body \<and> body \<noteq> [] \<and> CHR ''{'' \<notin> set body"
    and old: "old \<in> set P" and nn: "new \<noteq> []" and nb: "CHR ''{'' \<notin> set new"
  shows "tokensFrom P s \<Longrightarrow> tokensFrom (removeAll old P) (ReplaceAll s old new)"
proof (induction s rule: length_induct)
  case (1 s)
  from tok old obtain obody where ob: "old = ''{{'' @ obody" by blast
  then have o: "old \<noteq> []" by simp
  show ?case
  proof (cases s)
    case Nil
    then show ?thesis by (simp add: ReplaceAll_Nil)
  next
    case (Cons c s')
    show ?thesis
    proof (cases "prefix old s")
      case True
      then obtain r where r: "s = old @ r" by (auto simp: prefix_def)
      then have "tokensFrom P r" using tokensFrom_drop [OF "1.prems", of "length old"] by simp
      moreover have "length r < length s" using r o by simp
      ultimately have "tokensFrom (removeAll old P) (ReplaceAll r old new)"
        using "1.IH" by blast
      then show ?thesis
        unfolding r ReplaceAll_match [OF o] using nb by (rule tokensFrom_plain_append [rotated])
    next
      case False
      then have step: "ReplaceAll s old new = c # ReplaceAll s' old new"
        unfolding Cons using o by (simp add: ReplaceAll_step)
      have t': "tokensFrom P s'" using "1.prems" unfolding Cons by simp
      then have ih: "tokensFrom (removeAll old P) (ReplaceAll s' old new)"
        using "1.IH" Cons by simp
      have "list_ex (\<lambda>p. prefix p (c # ReplaceAll s' old new)) (removeAll old P)"
        if b: "prefix ''{{'' (c # ReplaceAll s' old new)"
      proof -
        from b have c: "c = CHR ''{''" and h: "prefix ''{'' (ReplaceAll s' old new)" by auto
        have "prefix ''{'' s'"
        proof (cases "s' = [] \<or> prefix old s'")
          case True
          then show ?thesis
          proof
            assume "s' = []"
            with h show ?thesis by (simp add: ReplaceAll_Nil)
          next
            assume "prefix old s'"
            then show ?thesis unfolding ob by (auto simp: prefix_def)
          qed
        next
          case False
          then obtain d s'' where d: "s' = d # s''" by (cases s') auto
          with False have "ReplaceAll s' old new = d # ReplaceAll s'' old new"
            using o by (simp add: ReplaceAll_step)
          with h d show ?thesis by simp
        qed
        with c have "prefix ''{{'' s" unfolding Cons by (auto simp: prefix_def)
        with "1.prems" have "list_ex (\<lambda>p. prefix p s) P" unfolding Cons by auto
        then obtain p where p: "p \<in> set P" "prefix p s" by (auto simp: list_ex_iff)
        with False have ne: "p \<noteq> old" by auto
        from tok p(1) obtain body where body: "p = ''{{'' @ body" "body \<noteq> []" "CHR ''{'' \<notin> set body"
          by blast
        from p(2) obtain r where r: "s = ''{{'' @ body @ r" unfolding body(1) by (auto simp: prefix_def)
        have "ReplaceAll s old new = ''{{'' @ body @ ReplaceAll r old new"
          unfolding r using False by (intro ReplaceAll_keeps_token [OF ob body(2,3)]) (simp add: r)
        then have "prefix p (c # ReplaceAll s' old new)"
          unfolding step [symmetric] body(1) by simp
        with p(1) ne show ?thesis by (auto simp: list_ex_iff)
      qed
      with ih show ?thesis unfolding step by auto
    qed
  qed
qed


lemma render_scenario_no_token:
  assumes "ReleaseName cfg = ''ldap''" "Namespace cfg = ''infra''"
    "BaseDN cfg = ''dc=armani,dc=lab''" "AdminPass cfg = ''S3cret!''"
    and t: "tokensFrom placeholders t"
  shows "\<not> sublist ''{{'' (renderMemberOfJob t cfg)"
proof -
  let ?t1 = "ReplaceAll t ''{{.ReleaseName}}'' ''ldap''"
  let ?t2 = "ReplaceAll ?t1 ''{{.Namespace}}'' ''infra''"
  let ?t3 = "ReplaceAll ?t2 ''{{.BaseDN}}'' ''dc=armani,dc=lab''"
  let ?t4 = "ReplaceAll ?t3 ''{{.AdminPass}}'' ''S3cret!''"
  have "tokensFrom (removeAll ''{{.ReleaseName}}'' placeholders) ?t1"
    by (rule ReplaceAll_tokensFrom [OF _ _ _ _ t]) (simp_all add: placeholders_def)
  then have 1: "tokensFrom [''{{.Namespace}}'', ''{{.BaseDN}}'', ''{{.AdminPass}}''] ?t1"
    by (simp add: placeholders_def)
  have "tokensFrom (removeAll ''{{.Namespace}}'' [''{{.Namespace}}'', ''{{.BaseDN}}'', ''{{.AdminPass}}'']) ?t2"
    by (rule ReplaceAll_tokensFrom [OF _ _ _ _ 1]) simp_all
  then have 2: "tokensFrom [''{{.BaseDN}}'', ''{{.AdminPass}}''] ?t2" by simp
  have "tokensFrom (removeAll ''{{.BaseDN}}'' [''{{.BaseDN}}'', ''{{.AdminPass}}'']) ?t3"
    by (rule ReplaceAll_tokensFrom [OF _ _ _ _ 2]) simp_all
  then have 3: "tokensFrom [''{{.AdminPass}}''] ?t3" by simp
  have "tokensFrom (removeAll ''{{.AdminPass}}'' [''{{.AdminPass}}'']) ?t4"
    by (rule ReplaceAll_tokensFrom [OF _ _ _ _ 3]) simp_all
  then have "\<not> sublist ''{{'' ?t4" by (simp add: tokensFrom_none)
  then show ?thesis by (simp add: renderMemberOfJob_def assms(1-4) Let_def)
qed

section \<open>Properties of the temporary file name\<close>

lemma itoa_inj: "itoa m = itoa n \<Longrightarrow> m = n"
  by (metis decval_itoa)

lemma itoa_no_minus: "hd (itoa n) \<noteq> CHR ''-''"
proof -
  have "isDigit (hd (itoa n))"
    using itoa_digits [of n] itoa_not_Nil [of n] by (cases "itoa n") auto
  then show ?thesis by (auto simp: isDigit_def)
qed

lemma Sprintf_d_inj: "Sprintf_d i = Sprintf_d j \<Longrightarrow> i = j"
proof -
  assume e: "Sprintf_d i = Sprintf_d j"
  consider "i < 0" "j < 0" | "i < 0" "\<not> j < 0" | "\<not> i < 0" "j < 0" | "\<not> i < 0" "\<not> j < 0"
    by blast
  then show ?thesis
  proof cases
    case 1
    with e have "itoa (nat (- i)) = itoa (nat (- j))" by (simp add: Sprintf_d_def)
    then have "nat (- i) = nat (- j)" by (rule itoa_inj)
    with 1 show ?thesis by simp
  next
    case 2
    with e have "CHR ''-'' # itoa (nat (- i)) = itoa (nat j)" by (simp add: Sprintf_d_def)
    then have "hd (itoa (nat j)) = CHR ''-''" by (metis list.sel(1))
    with itoa_no_minus show ?thesis by blast
  next
    case 3
    with e have "itoa (nat i) = CHR ''-'' # itoa (nat (- j))" by (simp add: Sprintf_d_def)
    then have "hd (itoa (nat i)) = CHR ''-''" by (metis list.sel(1))
    with itoa_no_minus show ?thesis by blast
  next
    case 4
    with e have "itoa (nat i) = itoa (nat j)" by (simp add: Sprintf_d_def)
    then have "nat i = nat j" by (rule itoa_inj)
    with 4 show ?thesis by simp
  qed
qed

text \<open>
  \<^verbatim>\<open>applyYAML\<close> once the manifest is written: the client runs on the file while it
  holds the manifest, its outcome is returned, and the file is gone afterwards, whatever
  the outcome. When the write fails, its error is returned at once.
\<close>

lemma applyYAML_after_write:
  "tempManifest env now = joinPath env (tempDir env) (''infractl-'' @ Sprintf_d now @ ''.yaml'')
   \<and> (now \<noteq> now' \<longrightarrow> ''infractl-'' @ Sprintf_d now @ ''.yaml'' \<noteq> ''infractl-'' @ Sprintf_d now' @ ''.yaml'')
   \<and> (writeFileErr env (tempManifest env now) yaml = None \<longrightarrow>
        applyYAML env now w kubeconfig yaml
          = (runErr env (kube env [''--kubeconfig'', kubeconfig, ''apply'', ''-f'', tempManifest env now])
               ((files w)(tempManifest env now \<mapsto> yaml)),
             w\<lparr>files := (files w)(tempManifest env now := None)\<rparr>)
        \<and> files (snd (applyYAML env now w kubeconfig yaml)) (tempManifest env now) = None
        \<and> (p \<noteq> tempManifest env now \<longrightarrow> files (snd (applyYAML env now w kubeconfig yaml)) p = files w p)
        \<and> dirs (snd (applyYAML env now w kubeconfig yaml)) = dirs w)
   \<and> (writeFileErr env (tempManifest env now) yaml = Some (e, left) \<longrightarrow>
        fst (applyYAML env now w kubeconfig yaml) = Some e)"
proof (intro conjI impI)
  show "tempManifest env now = joinPath env (tempDir env) (''infractl-'' @ Sprintf_d now @ ''.yaml'')"
    by (simp add: tempManifest_def)
next
  assume "now \<noteq> now'"
  then show "''infractl-'' @ Sprintf_d now @ ''.yaml'' \<noteq> ''infractl-'' @ Sprintf_d now' @ ''.yaml''"
    using Sprintf_d_inj [of now now'] by auto
next
  assume ok: "writeFileErr env (tempManifest env now) yaml = None"
  then show eq: "applyYAML env now w kubeconfig yaml
          = (runErr env (kube env [''--kubeconfig'', kubeconfig, ''apply'', ''-f'', tempManifest env now])
               ((files w)(tempManifest env now \<mapsto> yaml)),
             w\<lparr>files := (files w)(tempManifest env now := None)\<rparr>)"
    by (simp add: applyYAML_def WriteFile_def Remove_def Let_def)
  show "files (snd (applyYAML env now w kubeconfig yaml)) (tempManifest env now) = None"
    by (simp add: eq)
  show "dirs (snd (applyYAML env now w kubeconfig yaml)) = dirs w"
    by (simp add: eq)
  assume "p \<noteq> tempManifest env now"
  then show "files (snd (applyYAML env now w kubeconfig yaml)) p = files w p"
    by (simp add: eq)
next
  assume "writeFileErr env (tempManifest env now) yaml = Some (e, left)"
  then show "fst (applyYAML env now w kubeconfig yaml) = Some e"
    by (cases left) (simp_all add: applyYAML_def WriteFile_def Let_def)
qed

lemma applyYAML_write_failure:
  "writeFileErr env (tempManifest env now) yaml = Some (e, Some part)
     \<Longrightarrow> applyYAML env now w kubeconfig yaml
         = (Some e, w\<lparr>files := (files w)(tempManifest env now \<mapsto> part)\<rparr>)"
  by (simp add: applyYAML_def WriteFile_def Let_def)

lemma Sprintf_d_example: "Sprintf_d 1700000000000000000 = ''1700000000000000000''"
  by (simp add: Sprintf_d_def itoa.simps, code_simp)

section \<open>Properties of the base64 functions\<close>

lemma decodeMap_encodeStd: "k < 64 \<Longrightarrow> decodeMap (encodeStd k) = Some k"
proof -
  assume k: "k < 64"
  have "list_all (\<lambda>k. decodeMap (encodeStd k) = Some k) [0..<64]"
    by (simp add: decodeMap_def encodeStd_def upt_conv_Cons)
  with k show ?thesis by (simp add: list_all_iff)
qed

lemma decodeMap_special:
  "decodeMap (CHR ''='') = None" "decodeMap (CHR 0x0A) = None" "decodeMap (CHR 0x0D) = None"
  by (simp_all add: decodeMap_def)

lemma decodeMap_plain: "decodeMap c = Some k \<Longrightarrow> (of_char c :: nat) < 128 \<and> \<not> asciiSpace c"
  by (auto simp: decodeMap_def asciiSpace_def Let_def split: if_splits)

lemma of_char_lt: "(of_char (a :: char) :: nat) < 256"
proof -
  have "(of_char a :: nat) mod 256 < 256" by simp
  then show ?thesis by (simp only: of_char_mod_256)
qed

lemma byteChar_of_char: "byteChar (of_char a) = a"
  by (simp add: byteChar_def)

lemma quantum_poly:
  fixes a r b s c t :: nat
  shows "a * 262144 + (r * 16 + b) * 4096 + (s * 4 + c) * 64 + t
       = (a * 4 + r) * 65536 + (b * 16 + s) * 256 + (c * 64 + t)"
  by (simp add: algebra_simps)

lemma quantum_bytes:
  "quantum (x div 4) (x mod 4 * 16 + y div 16) (y mod 16 * 4 + z div 64) (z mod 64)
     = x * 65536 + y * 256 + z"
  unfolding quantum_def
  using quantum_poly [of "x div 4" "x mod 4" "y div 16" "y mod 16" "z div 64" "z mod 64"]
  by (simp only: div_mult_mod_eq)

lemma bytes_div_65536:
  fixes x y z :: nat
  assumes "y < 256" "z < 256"
  shows "(x * 65536 + y * 256 + z) div 65536 = x"
  by (rule div_nat_eqI) (use assms in \<open>simp_all add: algebra_simps\<close>)

lemma bytes_div_256:
  fixes x y z :: nat
  assumes "z < 256"
  shows "(x * 65536 + y * 256 + z) div 256 = x * 256 + y"
  by (rule div_nat_eqI) (use assms in \<open>simp_all add: algebra_simps\<close>)

lemma bytes_mod_256:
  fixes x y z :: nat
  assumes "z < 256"
  shows "(x * 65536 + y * 256 + z) mod 256 = z"
proof -
  let ?m = "x * 65536 + y * 256 + z"
  have "?m = ?m div 256 * 256 + ?m mod 256" by simp
  then have "?m = (x * 256 + y) * 256 + ?m mod 256" by (simp only: bytes_div_256 [OF assms])
  then show ?thesis by (simp add: algebra_simps)
qed

lemma sextets:
  fixes x y z :: nat
  assumes "x < 256" "y < 256" "z < 256"
  shows "x div 4 < 64" "x mod 4 * 16 + y div 16 < 64" "y mod 16 * 4 + z div 64 < 64" "z mod 64 < 64"
    "x mod 4 * 16 < 64" "y mod 16 * 4 < 64"
proof -
  have "x mod 4 < 4" "y mod 16 < 16" "y div 16 < 16" "z div 64 < 4" using assms by auto
  then show "x mod 4 * 16 + y div 16 < 64" "y mod 16 * 4 + z div 64 < 64" "x mod 4 * 16 < 64" "y mod 16 * 4 < 64"
    by linarith+
  show "x div 4 < 64" "z mod 64 < 64" using assms by auto
qed

lemma decoded_bytes:
  fixes a b c :: char
  shows "byteChar ((of_char a * 65536 + of_char b * 256 + of_char c) div 65536) = a"
    and "byteChar ((of_char a * 65536 + of_char b * 256 + of_char c) div 256) = b"
    and "byteChar (of_char a * 65536 + of_char b * 256 + of_char c) = c"
proof -
  let ?x = "of_char a :: nat" and ?y = "of_char b :: nat" and ?z = "of_char c :: nat"
  have b: "?x < 256" "?y < 256" "?z < 256" by (rule of_char_lt)+
  show "byteChar ((?x * 65536 + ?y * 256 + ?z) div 65536) = a"
    by (simp only: bytes_div_65536 [OF b(2,3)] byteChar_of_char)
  have "byteChar ((?x * 65536 + ?y * 256 + ?z) div 256) = char_of ((?x * 256 + ?y) mod 256)"
    by (simp only: bytes_div_256 [OF b(3)] byteChar_def)
  also have "(?x * 256 + ?y) mod 256 = ?y" using b(2) by simp
  finally show "byteChar ((?x * 65536 + ?y * 256 + ?z) div 256) = b" by simp
  have "byteChar (?x * 65536 + ?y * 256 + ?z) = char_of ?z"
    by (simp only: byteChar_def bytes_mod_256 [OF b(3)])
  then show "byteChar (?x * 65536 + ?y * 256 + ?z) = c" by simp
qed

lemma quantum_decoded:
  fixes a b c :: char
  defines "v \<equiv> quantum (of_char a div 4) (of_char a mod 4 * 16 + of_char b div 16)
                 (of_char b mod 16 * 4 + of_char c div 64) (of_char c mod 64)"
  shows "byteChar (v div 65536) = a" "byteChar (v div 256) = b" "byteChar v = c"
  unfolding v_def quantum_bytes by (rule decoded_bytes)+

lemma quantum_decoded_two:
  fixes a b :: char
  defines "v \<equiv> quantum (of_char a div 4) (of_char a mod 4 * 16 + of_char b div 16)
                 (of_char b mod 16 * 4) 0"
  shows "byteChar (v div 65536) = a" "byteChar (v div 256) = b"
  unfolding v_def using quantum_decoded(1,2) [of a b "CHR 0x00"] by simp_all

lemma quantum_decoded_one:
  fixes a :: char
  defines "v \<equiv> quantum (of_char a div 4) (of_char a mod 4 * 16) 0 0"
  shows "byteChar (v div 65536) = a"
  unfolding v_def using quantum_decoded(1) [of a "CHR 0x00" "CHR 0x00"] by simp

lemma decode_full_quantum:
  "decodeQuanta (encodeStd (of_char a div 4) # encodeStd (of_char a mod 4 * 16 + of_char b div 16)
        # encodeStd (of_char b mod 16 * 4 + of_char c div 64) # encodeStd (of_char c mod 64) # rest)
     = map_option (\<lambda>out. a # b # c # out) (decodeQuanta rest)"
proof -
  let ?x = "of_char a :: nat" and ?y = "of_char b :: nat" and ?z = "of_char c :: nat"
  have b: "?x < 256" "?y < 256" "?z < 256" by (rule of_char_lt)+
  note s = sextets [OF b]
  show ?thesis
    by (simp add: decodeMap_encodeStd s quantum_decoded Let_def)
qed

lemma decode_two_bytes:
  "decodeQuanta [encodeStd (of_char a div 4), encodeStd (of_char a mod 4 * 16 + of_char b div 16),
        encodeStd (of_char b mod 16 * 4), CHR ''='']
     = Some [a, b]"
proof -
  let ?x = "of_char a :: nat" and ?y = "of_char b :: nat"
  have b: "?x < 256" "?y < 256" "(0 :: nat) < 256" by (simp_all add: of_char_lt)
  note s = sextets [OF b]
  show ?thesis
    by (simp add: decodeMap_encodeStd s decodeMap_special quantum_decoded_two Let_def)
qed

lemma decode_one_byte:
  "decodeQuanta [encodeStd (of_char a div 4), encodeStd (of_char a mod 4 * 16), CHR ''='', CHR ''='']
     = Some [a]"
proof -
  let ?x = "of_char a :: nat"
  have b: "?x < 256" "(0 :: nat) < 256" "(0 :: nat) < 256" by (simp_all add: of_char_lt)
  note s = sextets [OF b]
  show ?thesis
    by (simp add: decodeMap_encodeStd s decodeMap_special quantum_decoded_one Let_def)
qed

lemma decodeQuanta_EncodeToString: "decodeQuanta (EncodeToString p) = Some p"
proof (induction p rule: EncodeToString.induct)
  case 1
  show ?case by simp
next
  case (2 a)
  show ?case using decode_one_byte [of a] by (simp add: Let_def)
next
  case (3 a b)
  show ?case using decode_two_bytes [of a b] by (simp add: Let_def)
next
  case (4 a b c rest)
  then show ?case using decode_full_quantum [of a b c "EncodeToString rest"] by (simp add: Let_def)
qed

lemma encodeStd_plain: "k < 64 \<Longrightarrow> (of_char (encodeStd k) :: nat) < 128 \<and> \<not> asciiSpace (encodeStd k)"
  using decodeMap_plain [OF decodeMap_encodeStd] .

lemma spaceWidth_plain:
  assumes "(of_char a :: nat) < 128" "\<not> asciiSpace a"
  shows "spaceWidth (a # s) = 0" "spaceWidthEnd (a # s) = 0"
proof -
  have n: "a \<noteq> CHR 0xC2" "a \<noteq> CHR 0xE1" "a \<noteq> CHR 0xE2" "a \<noteq> CHR 0xE3"
    "a \<noteq> CHR 0x85" "a \<noteq> CHR 0xA0" "a \<noteq> CHR 0x80" "a \<noteq> CHR 0xA8" "a \<noteq> CHR 0xA9" "a \<noteq> CHR 0xAF"
    "a \<noteq> CHR 0x9F" "\<not> 0x80 \<le> (of_char a :: nat)"
    using assms(1) by auto
  show "spaceWidth (a # s) = 0"
    using assms(2) n by (cases s rule: spaceWidth.cases) (simp_all add: space2_def space3_def)
  show "spaceWidthEnd (a # s) = 0"
    using assms(2) n by (cases s rule: spaceWidth.cases) (simp_all add: space2_def space3_def)
qed

lemma TrimSpace_all_plain:
  assumes "\<forall>c \<in> set s. (of_char c :: nat) < 128 \<and> \<not> asciiSpace c"
  shows "TrimSpace s = s"
proof (cases s rule: rev_cases)
  case Nil
  then show ?thesis by (simp add: TrimSpace_def TrimRight_def)
next
  case (snoc ys y)
  have "s \<noteq> []" using snoc by simp
  then obtain x xs where c: "s = x # xs" by (cases s) auto
  have "spaceWidth s = 0" unfolding c using assms c by (intro spaceWidth_plain) auto
  moreover have "spaceWidthEnd (rev s) = 0"
    unfolding snoc using assms snoc by (simp add: spaceWidth_plain)
  ultimately show ?thesis by (rule TrimSpace_plain)
qed

lemma pad_plain: "(of_char (CHR ''='') :: nat) < 128 \<and> \<not> asciiSpace (CHR ''='')"
  by (simp add: asciiSpace_def)

lemma EncodeToString_plain:
  "c \<in> set (EncodeToString p) \<Longrightarrow> (of_char c :: nat) < 128 \<and> \<not> asciiSpace c"
proof (induction p rule: EncodeToString.induct)
  case 1
  then show ?case by simp
next
  case (2 a)
  have b: "(of_char a :: nat) < 256" "(0 :: nat) < 256" "(0 :: nat) < 256" by (simp_all add: of_char_lt)
  note s = sextets [OF b]
  from 2 show ?case using encodeStd_plain [OF s(1)] encodeStd_plain [OF s(5)] pad_plain
    by (auto simp: Let_def)
next
  case (3 a b)
  have b: "(of_char a :: nat) < 256" "(of_char b :: nat) < 256" "(0 :: nat) < 256" by (simp_all add: of_char_lt)
  note s = sextets [OF b]
  from 3 show ?case
    using encodeStd_plain [OF s(1)] encodeStd_plain [OF s(2)] encodeStd_plain [OF s(6)] pad_plain
    by (auto simp: Let_def)
next
  case (4 a b c' rest)
  have b: "(of_char a :: nat) < 256" "(of_char b :: nat) < 256" "(of_char c' :: nat) < 256" by (simp_all add: of_char_lt)
  note s = sextets [OF b]
  from 4 show ?case
    using encodeStd_plain [OF s(1)] encodeStd_plain [OF s(2)] encodeStd_plain [OF s(3)] encodeStd_plain [OF s(4)]
    by (auto simp: Let_def)
qed

lemma TrimSpace_EncodeToString: "TrimSpace (EncodeToString p) = EncodeToString p"
  by (rule TrimSpace_all_plain) (simp add: EncodeToString_plain)

lemma DecodeString_EncodeToString: "DecodeString (EncodeToString p) = Some p"
proof -
  have "filter (\<lambda>c. c \<noteq> CHR 0x0A \<and> c \<noteq> CHR 0x0D) (EncodeToString p) = EncodeToString p"
    using EncodeToString_plain [of _ p] by (intro filter_True) (auto simp: asciiSpace_def)
  then show ?thesis by (simp add: DecodeString_def decodeQuanta_EncodeToString)
qed

lemma EncodeToString_empty: "EncodeToString p = [] \<longleftrightarrow> p = []"
  by (cases p rule: EncodeToString.cases) (simp_all add: Let_def)

section \<open>Properties of the registration file\<close>

lemma update_mem: "update rs e = Normal rs' \<Longrightarrow> Some e \<in> set rs'"
proof (induction rs e arbitrary: rs' rule: update.induct)
  case (3 r rs e)
  then show ?case by (auto split: if_splits exec.splits)
qed auto

lemma update_last_wins:
  "Name e1 = Name e2 \<Longrightarrow> update rs e1 = Normal rs1 \<Longrightarrow> update rs1 e2 = update rs e2"
proof (induction rs e1 arbitrary: rs1 rule: update.induct)
  case (3 r rs e)
  then show ?case by (auto split: if_splits exec.splits)
qed auto

lemma update_idem: "update rs e = Normal rs' \<Longrightarrow> update rs' e = Normal rs'"
  using update_last_wins [of e e rs rs'] by simp

lemma update_same:
  "update rs e = Normal rs'
     \<Longrightarrow> filter (\<lambda>r. map_option Name r = Some (Name e)) rs'
         = Some e # tl (filter (\<lambda>r. map_option Name r = Some (Name e)) rs)"
proof (induction rs e arbitrary: rs' rule: update.induct)
  case (3 r rs e)
  then show ?case by (auto split: if_splits exec.splits)
qed auto

lemma update_others:
  "update rs e = Normal rs'
     \<Longrightarrow> filter (\<lambda>r. map_option Name r \<noteq> Some (Name e)) rs'
         = filter (\<lambda>r. map_option Name r \<noteq> Some (Name e)) rs"
proof (induction rs e arbitrary: rs' rule: update.induct)
  case (3 r rs e)
  then show ?case by (auto split: if_splits exec.splits)
qed auto

lemma update_length: "update rs e = Normal rs' \<Longrightarrow> length rs \<le> length rs'"
proof (induction rs e arbitrary: rs' rule: update.induct)
  case (3 r rs e)
  then show ?case by (auto split: if_splits exec.splits)
qed auto

lemma File_Update_Normal:
  "File_Update f e = Normal f' \<longleftrightarrow> (\<exists>rs. update (Repositories f) e = Normal rs \<and> f' = f\<lparr>Repositories := rs\<rparr>)"
  by (auto simp: File_Update_def split: exec.splits)

lemma LoadFile_cong: "files w' p = files w p \<Longrightarrow> LoadFile h env w' p = LoadFile h env w p"
  by (simp add: LoadFile_def)

lemma LoadFile_error:
  "(\<exists>e. LoadFile h env w p = Inl e)
     \<longleftrightarrow> files w p = None \<or> readFileErr env p \<noteq> None
         \<or> (\<exists>b. files w p = Some b \<and> unmarshalFile h b = None)"
  by (auto simp: LoadFile_def split: option.splits)

lemma LoadFile_written:
  "files w p = Some (marshalFile h f) \<Longrightarrow> readFileErr env p = None
     \<Longrightarrow> unmarshalFile h (marshalFile h f) = Some f \<Longrightarrow> LoadFile h env w p = Inr f"
  by (simp add: LoadFile_def)

lemma File_WriteFile_success:
  "File_WriteFile h env w f p = (None, w1)
     \<Longrightarrow> w1 = w\<lparr>dirs := insert (dirOf env p) (dirs w), files := (files w)(p \<mapsto> marshalFile h f)\<rparr>"
  by (auto simp: File_WriteFile_def MkdirAll_def WriteFile_def split: option.splits prod.splits)

lemma updateRepositoryFile_success:
  assumes "updateRepositoryFile h env w e = Normal (None, w1)"
  shows "\<exists>f. File_Update (case LoadFile h env w (RepositoryConfig h) of
                  Inl err \<Rightarrow> \<lparr>APIVersion = [], Repositories = []\<rparr> | Inr f \<Rightarrow> f) e = Normal f
           \<and> w1 = w\<lparr>dirs := insert (dirOf env (RepositoryConfig h)) (dirs w),
                     files := (files w)(RepositoryConfig h \<mapsto> marshalFile h f)\<rparr>"
proof -
  let ?l = "case LoadFile h env w (RepositoryConfig h) of
                  Inl err \<Rightarrow> \<lparr>APIVersion = [], Repositories = []\<rparr> | Inr f \<Rightarrow> f"
  from assms obtain f where f: "File_Update ?l e = Normal f"
    by (cases "File_Update ?l e") (simp_all add: updateRepositoryFile_def Let_def)
  with assms have "File_WriteFile h env w f (RepositoryConfig h) = (None, w1)"
    by (simp add: updateRepositoryFile_def Let_def split: prod.splits option.splits)
  then have "w1 = w\<lparr>dirs := insert (dirOf env (RepositoryConfig h)) (dirs w),
                     files := (files w)(RepositoryConfig h \<mapsto> marshalFile h f)\<rparr>"
    by (rule File_WriteFile_success)
  with f show ?thesis by blast
qed

lemma fetchIndex_files:
  "p \<noteq> joinPath env (RepositoryCache h) (Name e @ ''-index.yaml'')
     \<Longrightarrow> files (snd (fetchIndex h env w e)) p = files w p"
  by (auto simp: fetchIndex_def MkdirAll_def WriteFile_def Let_def split: option.splits prod.splits)

lemma AddRepository_success:
  assumes "AddRepository h env w n u = Normal (None, w1)"
  shows "newChartRepositoryErr h \<lparr>Name = n, URL = u\<rparr> = None"
    and "fst (fetchIndex h env w \<lparr>Name = n, URL = u\<rparr>) = None"
    and "updateRepositoryFile h env (snd (fetchIndex h env w \<lparr>Name = n, URL = u\<rparr>)) \<lparr>Name = n, URL = u\<rparr>
           = Normal (None, w1)"
  using assms by (auto simp: AddRepository_def Let_def split: option.splits prod.splits)

lemma AddRepository_registers:
  "newChartRepositoryErr h \<lparr>Name = n, URL = u\<rparr> = None
     \<Longrightarrow> fetchIndex h env w \<lparr>Name = n, URL = u\<rparr> = (None, wi)
     \<Longrightarrow> AddRepository h env w n u = updateRepositoryFile h env wi \<lparr>Name = n, URL = u\<rparr>"
  by (simp add: AddRepository_def)

lemma updateRepositoryFile_unloadable:
  assumes ld: "files w (RepositoryConfig h) = None \<or> readFileErr env (RepositoryConfig h) \<noteq> None
          \<or> (\<exists>b. files w (RepositoryConfig h) = Some b \<and> unmarshalFile h b = None)"
    and mk: "mkdirAllErr env (dirOf env (RepositoryConfig h)) = None"
    and wr: "writeFileErr env (RepositoryConfig h)
               (marshalFile h \<lparr>APIVersion = [], Repositories = [Some e]\<rparr>) = None"
  shows "updateRepositoryFile h env w e
       = Normal (None, w\<lparr>dirs := insert (dirOf env (RepositoryConfig h)) (dirs w),
                  files := (files w)(RepositoryConfig h \<mapsto>
                             marshalFile h \<lparr>APIVersion = [], Repositories = [Some e]\<rparr>)\<rparr>)"
proof -
  from ld obtain err where "LoadFile h env w (RepositoryConfig h) = Inl err"
    using LoadFile_error [of h env w "RepositoryConfig h"] by blast
  then show ?thesis using mk wr
    by (simp add: updateRepositoryFile_def File_Update_def File_WriteFile_def MkdirAll_def
        WriteFile_def Let_def)
qed

lemma dirOf_plain: "dirOf plainSys ''/root/.config/helm/repositories.yaml'' = ''/root/.config/helm''"
  by (simp add: plainSys_def)

lemma AddRepository_writes:
  assumes a: "AddRepository h env w n u = Normal (None, w1)"
    and ne: "RepositoryConfig h \<noteq> joinPath env (RepositoryCache h) (n @ ''-index.yaml'')"
  shows "\<exists>f. File_Update (case LoadFile h env w (RepositoryConfig h) of
                 Inl err \<Rightarrow> \<lparr>APIVersion = [], Repositories = []\<rparr> | Inr f \<Rightarrow> f) \<lparr>Name = n, URL = u\<rparr>
               = Normal f
           \<and> files w1 (RepositoryConfig h) = Some (marshalFile h f)"
proof -
  let ?e = "\<lparr>Name = n, URL = u\<rparr>"
  let ?wi = "snd (fetchIndex h env w ?e)"
  have "files ?wi (RepositoryConfig h) = files w (RepositoryConfig h)"
    using ne by (intro fetchIndex_files) simp
  then have l: "LoadFile h env ?wi (RepositoryConfig h) = LoadFile h env w (RepositoryConfig h)"
    by (rule LoadFile_cong)
  show ?thesis
    using updateRepositoryFile_success [OF AddRepository_success(3) [OF a]] unfolding l by auto
qed

lemma fetchIndex_fallback_fails:
  "downloadIndexFileErr h e = Some e0 \<Longrightarrow> cmdOutput env [''curl'', ''-s'', ''-L'', URL e @ ''/index.yaml''] = (output, Some e1)
     \<Longrightarrow> fetchIndex h env w e = (Some (''failed to download index file locally: '' @ e1), w)"
  by (simp add: fetchIndex_def)

lemma fetchIndex_fallback_success:
  assumes "downloadIndexFileErr h e = Some e0"
    and "cmdOutput env [''curl'', ''-s'', ''-L'', URL e @ ''/index.yaml''] = (output, None)"
    and "fetchIndex h env w e = (None, wi)"
  shows "wi = w\<lparr>dirs := insert (RepositoryCache h) (dirs w),
                 files := (files w)(joinPath env (RepositoryCache h) (Name e @ ''-index.yaml'') \<mapsto> output)\<rparr>"
  using assms
  by (auto simp: fetchIndex_def MkdirAll_def WriteFile_def Let_def split: option.splits prod.splits)

section \<open>Properties of the install action\<close>









section \<open>Claims\<close>

text \<open>
  C3. For every domain string, \<^verbatim>\<open>baseDNFromDomain\<close> is the specification's
  derivation: the trimmed domain split on the dot, the empty segments discarded, each
  remaining segment prefixed with \<open>dc=\<close>, the results joined with commas. It maps
  \<open>example.lab\<close> to \<open>dc=example,dc=lab\<close> and \<open>a..b\<close> to \<open>dc=a,dc=b\<close>.
\<close>

theorem baseDNFromDomain_refines_spec:
  "baseDNFromDomain d = deriveBaseIdentifier_spec d
   \<and> baseDNFromDomain ''example.lab'' = ''dc=example,dc=lab''
   \<and> baseDNFromDomain ''a..b'' = ''dc=a,dc=b''"
proof -
  have gen: "baseDNFromDomain d = deriveBaseIdentifier_spec d"
    by (simp add: baseDNFromDomain_def deriveBaseIdentifier_spec_def baseDN_loop_eq)
  have t1: "TrimSpace ''example.lab'' = ''example.lab''"
    by (simp add: TrimSpace_def TrimRight_def asciiSpace_def space2_def space3_def)
  have t2: "TrimSpace ''a..b'' = ''a..b''"
    by (simp add: TrimSpace_def TrimRight_def asciiSpace_def space2_def space3_def)
  have e1: "baseDNFromDomain ''example.lab'' = ''dc=example,dc=lab''"
    by (simp add: baseDNFromDomain_def t1)
  have e2: "baseDNFromDomain ''a..b'' = ''dc=a,dc=b''"
    by (simp add: baseDNFromDomain_def t2)
  from gen e1 e2 show ?thesis by simp
qed

text \<open>
  C1 (as amended). For every string \<open>s\<close> that \<^verbatim>\<open>net.ParseCIDR\<close> parses as an IPv4
  block (its mask has four bytes), with \<open>v\<close> the address as a number and \<open>n\<close> the
  prefix length: \<^verbatim>\<open>validateCIDR\<close> succeeds when the address is its own network
  address (its low \<open>32 - n\<close> bits are zero), \<open>n \<le> 24\<close> and the network lies inside
  10.0.0.0/8, 172.16.0.0/12 or 192.168.0.0/16; it fails when the address is not the
  network address, when \<open>n > 24\<close>, and when the address is outside the three ranges.
  Every string that does not parse fails. The text \<open>a.b.c.d/m\<close> with \<open>m \<le> 32\<close>, the
  prefix length written with any number of leading zeros, parses as the IPv4 block of
  address \<open>a.b.c.d\<close> and prefix length \<open>m\<close>; with \<open>m > 32\<close> it does not parse.
\<close>

theorem validateCIDR_ipv4:
  "(ParseCIDR s = Inr (ip, ipNet) \<and> length (Mask ipNet) = 4
      \<and> v = beValue (drop 12 ip) \<and> n = fst (Size (Mask ipNet)) \<longrightarrow>
      (2 ^ (32 - n) dvd v \<and> n \<le> 24 \<and> networkInPrivateRanges v n \<longrightarrow> validateCIDR s = None)
      \<and> (\<not> 2 ^ (32 - n) dvd v \<or> 24 < n \<or> \<not> inPrivateRanges v \<longrightarrow> validateCIDR s \<noteq> None))
   \<and> (isl (ParseCIDR s) \<longrightarrow> validateCIDR s \<noteq> None)
   \<and> (m \<le> 32 \<longrightarrow>
        (\<exists>ip' ipNet'. ParseCIDR (dotted [a, b, c, d] @ ''/'' @ replicate k (CHR ''0'') @ itoa m)
                         = Inr (ip', ipNet')
           \<and> length (Mask ipNet') = 4 \<and> beValue (drop 12 ip') = beValue [a, b, c, d]
           \<and> fst (Size (Mask ipNet')) = m))
   \<and> (32 < m \<longrightarrow> isl (ParseCIDR (dotted [a, b, c, d] @ ''/'' @ itoa m)))"
proof (intro conjI impI)
  assume h: "ParseCIDR s = Inr (ip, ipNet) \<and> length (Mask ipNet) = 4
      \<and> v = beValue (drop 12 ip) \<and> n = fst (Size (Mask ipNet))"
  then obtain a' b' c' d' n' where n': "n' \<le> 32" and ip: "ip = v4InV6Prefix @ [a', b', c', d']"
    and net: "ipNet = \<lparr>IP = map (\<lambda>(x, m). x AND m) (zip [a', b', c', d'] (CIDRMask_loop 4 n')),
                       Mask = CIDRMask_loop 4 n'\<rparr>"
    using ParseCIDR_ipv4_shape [of s ip ipNet] by blast
  have v: "v = beValue [a', b', c', d']" using h by (simp add: ip v4InV6Prefix_def)
  have n: "n = n'" using h n' by (simp add: net Size_CIDRMask_loop)
  have iff: "validateCIDR s = None \<longleftrightarrow> n \<le> 24 \<and> 2 ^ (32 - n) dvd v \<and> inPrivateRanges v"
    unfolding v n using h n' by (intro validateCIDR_parsed) (simp_all add: ip net)
  {
    assume "2 ^ (32 - n) dvd v \<and> n \<le> 24 \<and> networkInPrivateRanges v n"
    then show "validateCIDR s = None"
      using iff networkInPrivateRanges_address [of v n] by blast
  }
  assume "\<not> 2 ^ (32 - n) dvd v \<or> 24 < n \<or> \<not> inPrivateRanges v"
  then show "validateCIDR s \<noteq> None" using iff by auto
next
  assume "isl (ParseCIDR s)"
  then show "validateCIDR s \<noteq> None"
    by (cases "ParseCIDR s") (auto simp: validateCIDR_def)
next
  assume m: "m \<le> 32"
  show "\<exists>ip' ipNet'. ParseCIDR (dotted [a, b, c, d] @ ''/'' @ replicate k (CHR ''0'') @ itoa m)
                         = Inr (ip', ipNet')
           \<and> length (Mask ipNet') = 4 \<and> beValue (drop 12 ip') = beValue [a, b, c, d]
           \<and> fst (Size (Mask ipNet')) = m"
    unfolding ParseCIDR_dotted_zeros [OF m]
    using m by (simp add: length_CIDRMask_loop Size_CIDRMask_loop v4InV6Prefix_def)
next
  assume "32 < m"
  then show "isl (ParseCIDR (dotted [a, b, c, d] @ ''/'' @ itoa m))"
    using ParseCIDR_dotted [of a b c d m] by simp
qed


theorem validateCIDR_ipv4_witness:
  "validateCIDR ''192.168.100.0/24'' = None
   \<and> validateCIDR ''10.0.0.0/08'' = None
   \<and> validateCIDR ''192.168.100.0/25'' \<noteq> None
   \<and> validateCIDR ''192.168.100.1/24'' \<noteq> None
   \<and> validateCIDR ''8.8.8.0/24'' \<noteq> None
   \<and> isl (ParseCIDR ''192.168.100.0/33'')
   \<and> isl (ParseCIDR ''192.168.100.0'') \<and> validateCIDR ''192.168.100.0'' \<noteq> None"
proof -
  have inst: "(2 ^ (32 - m) dvd beValue [a, b, c, d] \<and> m \<le> 24
        \<and> networkInPrivateRanges (beValue [a, b, c, d]) m \<longrightarrow>
        validateCIDR (dotted [a, b, c, d] @ ''/'' @ replicate k (CHR ''0'') @ itoa m) = None)
      \<and> (\<not> 2 ^ (32 - m) dvd beValue [a, b, c, d] \<or> 24 < m \<or> \<not> inPrivateRanges (beValue [a, b, c, d]) \<longrightarrow>
        validateCIDR (dotted [a, b, c, d] @ ''/'' @ replicate k (CHR ''0'') @ itoa m) \<noteq> None)"
    if m: "m \<le> 32" for a b c d :: byte and m k :: nat
  proof -
    let ?s = "dotted [a, b, c, d] @ ''/'' @ replicate k (CHR ''0'') @ itoa m"
    let ?ip = "v4InV6Prefix @ [a, b, c, d]"
    let ?net = "\<lparr>IP = map (\<lambda>(x, m). x AND m) (zip [a, b, c, d] (CIDRMask_loop 4 m)), Mask = CIDRMask_loop 4 m\<rparr>"
    have p1: "ParseCIDR ?s = Inr (?ip, ?net)" by (rule ParseCIDR_dotted_zeros [OF m])
    have p2: "length (Mask ?net) = 4" by (simp add: length_CIDRMask_loop)
    have p3: "beValue [a, b, c, d] = beValue (drop 12 ?ip)" by (simp add: v4InV6Prefix_def)
    have p4: "m = fst (Size (Mask ?net))" using m by (simp add: Size_CIDRMask_loop)
    from p1 p2 p3 p4 validateCIDR_ipv4 [of ?s ?ip ?net "beValue [a, b, c, d]" m 0 0 0 0 0 0]
    show ?thesis by blast
  qed
  have s1: "dotted [192, 168, 100, 0] @ ''/'' @ replicate 0 (CHR ''0'') @ itoa 24 = ''192.168.100.0/24''"
    and s2: "dotted [10, 0, 0, 0] @ ''/'' @ replicate 1 (CHR ''0'') @ itoa 8 = ''10.0.0.0/08''"
    and s3: "dotted [192, 168, 100, 0] @ ''/'' @ replicate 0 (CHR ''0'') @ itoa 25 = ''192.168.100.0/25''"
    and s4: "dotted [192, 168, 100, 1] @ ''/'' @ replicate 0 (CHR ''0'') @ itoa 24 = ''192.168.100.1/24''"
    and s5: "dotted [8, 8, 8, 0] @ ''/'' @ replicate 0 (CHR ''0'') @ itoa 24 = ''8.8.8.0/24''"
    and s6: "dotted [192, 168, 100, 0] @ ''/'' @ itoa 33 = ''192.168.100.0/33''"
    by code_simp+
  have r1: "validateCIDR ''192.168.100.0/24'' = None"
    using inst [of 24 192 168 100 0 0] unfolding s1
    by (simp add: networkInPrivateRanges_def)
  have r2: "validateCIDR ''10.0.0.0/08'' = None"
    using inst [of 8 10 0 0 0 1] unfolding s2
    by (simp add: networkInPrivateRanges_def)
  have r3: "validateCIDR ''192.168.100.0/25'' \<noteq> None"
    using inst [of 25 192 168 100 0 0] unfolding s3 by simp
  have r4: "validateCIDR ''192.168.100.1/24'' \<noteq> None"
    using inst [of 24 192 168 100 1 0] unfolding s4 by simp
  have r5: "validateCIDR ''8.8.8.0/24'' \<noteq> None"
    using inst [of 24 8 8 8 0 0] unfolding s5 by (simp add: inPrivateRanges_def)
  have r6: "isl (ParseCIDR ''192.168.100.0/33'')"
    using validateCIDR_ipv4 [of "[]" "[]" "\<lparr>IP = [], Mask = []\<rparr>" 0 0 33 192 168 100 0 0]
    unfolding s6 by simp
  have p: "isl (ParseCIDR ''192.168.100.0'')"
    by (simp add: ParseCIDR_def)
  have r7: "validateCIDR ''192.168.100.0'' \<noteq> None"
    using validateCIDR_ipv4 [of "''192.168.100.0''" "[]" "\<lparr>IP = [], Mask = []\<rparr>" 0 0 0 0 0 0 0 0] p
    by blast
  from r1 r2 r3 r4 r5 r6 p r7 show ?thesis by blast
qed

text \<open>
  C1 as stated fails: \<^verbatim>\<open>net.ParseCIDR\<close> also parses IPv6 blocks, the
  \<^verbatim>\<open>/24\<close> limit is applied to 32-bit masks only, and an IPv4-mapped IPv6 address
  is inside the private ranges. The host address \<open>::ffff:192.168.1.1/128\<close>, whose
  mask has 128 one bits of 128, is accepted.
\<close>

theorem validateCIDR_mapped_ipv6_counterexample:
  "validateCIDR ''::ffff:192.168.1.1/128'' = None
   \<and> map_sum id (\<lambda>(ip, ipNet). Size (Mask ipNet)) (ParseCIDR ''::ffff:192.168.1.1/128'') = Inr (128, 128)"
proof -
  have "validateCIDR ''::ffff:192.168.1.1/128'' = None"
    by (simp add: validateCIDR_def v6_cidr IP_String_mapped isPrivateNetwork_def private_ranges_parse
        Contains_def networkNumberAndMask_def To4_mapped To4_4 Size_def replicate_unfold and_ff)
  moreover have "Size (replicate 16 (0xff :: byte)) = (128, 128)"
    by (simp add: Size_def replicate_unfold)
  ultimately show ?thesis by (simp add: v6_cidr)
qed

text \<open>
  C2 (as amended). An empty domain and an empty admin credential are fatal: the run ends
  in \<^verbatim>\<open>must\<close> with that error, and nothing is asked again. A malformed or
  out-of-policy network block is not fatal: its error is printed, the block is asked for
  again, and the run goes on as it would on the rest of the input.
\<close>

theorem main_prompts_input_errors:
  "(validateCIDR (TrimSpace l) = Some err \<longrightarrow>
      main_prompts (l # ls) = (fst (main_prompts ls), err # snd (main_prompts ls)))
   \<and> (askCIDR stdin = (errs, Some (cidr, in1)) \<and> fst (ask in1) = [] \<longrightarrow>
      main_prompts stdin = (Exits ''domain is required'', errs))
   \<and> (askCIDR stdin = (errs, Some (cidr, in1)) \<and> fst (ask in1) \<noteq> []
        \<and> fst (ask (snd (ask in1))) = [] \<longrightarrow>
      main_prompts stdin = (Exits ''admin password required'', errs))"
proof (intro conjI impI)
  assume "validateCIDR (TrimSpace l) = Some err"
  then show "main_prompts (l # ls) = (fst (main_prompts ls), err # snd (main_prompts ls))"
    by (cases "askCIDR ls")
       (auto simp: main_prompts_def Let_def split: option.splits prod.splits)
next
  assume "askCIDR stdin = (errs, Some (cidr, in1)) \<and> fst (ask in1) = []"
  then show "main_prompts stdin = (Exits ''domain is required'', errs)"
    by (auto simp: main_prompts_def Let_def split: prod.splits)
next
  assume "askCIDR stdin = (errs, Some (cidr, in1)) \<and> fst (ask in1) \<noteq> []
        \<and> fst (ask (snd (ask in1))) = []"
  then show "main_prompts stdin = (Exits ''admin password required'', errs)"
    by (auto simp: main_prompts_def Let_def split: prod.splits)
qed

theorem main_prompts_input_errors_witness:
  "validateCIDR (TrimSpace (''192.168.100.1/24'' @ [CHR 0x0A]))
      = Some ''CIDR must represent a network, not a host address''
   \<and> main_prompts [''192.168.100.1/24'' @ [CHR 0x0A], ''192.168.100.0/24'' @ [CHR 0x0A], [CHR 0x0A]]
      = (Exits ''domain is required'', [''CIDR must represent a network, not a host address''])
   \<and> askCIDR [''192.168.100.0/24'' @ [CHR 0x0A], [CHR 0x0A]]
      = ([], Some (''192.168.100.0/24'', [[CHR 0x0A]]))
   \<and> fst (ask [[CHR 0x0A]]) = []
   \<and> main_prompts [''192.168.100.0/24'' @ [CHR 0x0A], [CHR 0x0A]] = (Exits ''domain is required'', [])
   \<and> askCIDR [''192.168.100.0/24'' @ [CHR 0x0A], ''armani.lab'' @ [CHR 0x0A], [CHR 0x0A]]
      = ([], Some (''192.168.100.0/24'', [''armani.lab'' @ [CHR 0x0A], [CHR 0x0A]]))
   \<and> fst (ask [''armani.lab'' @ [CHR 0x0A], [CHR 0x0A]]) \<noteq> []
   \<and> fst (ask (snd (ask [''armani.lab'' @ [CHR 0x0A], [CHR 0x0A]]))) = []
   \<and> main_prompts [''192.168.100.0/24'' @ [CHR 0x0A], ''armani.lab'' @ [CHR 0x0A], [CHR 0x0A]]
      = (Exits ''admin password required'', [])"
proof -
  let ?bad = "''192.168.100.1/24'' @ [CHR 0x0A]"
  let ?good = "''192.168.100.0/24'' @ [CHR 0x0A]"
  let ?dom = "''armani.lab'' @ [CHR 0x0A]"
  let ?nl = "[CHR 0x0A]"
  let ?e = "''CIDR must represent a network, not a host address''"
  have v: "validateCIDR (TrimSpace ?bad) = Some ?e"
    by (simp only: trim_replies validateCIDR_host)
  have a1: "askCIDR [?good, ?nl] = ([], Some (''192.168.100.0/24'', [?nl]))"
    by (simp add: trim_replies validateCIDR_scenario del: append.simps)
  have a2: "askCIDR [?good, ?dom, ?nl] = ([], Some (''192.168.100.0/24'', [?dom, ?nl]))"
    by (simp add: trim_replies validateCIDR_scenario del: append.simps)
  have k1: "fst (ask [?nl]) = []"
    by (simp add: ask_def trim_replies)
  have k2: "fst (ask [?dom, ?nl]) \<noteq> []" "fst (ask (snd (ask [?dom, ?nl]))) = []"
    by (simp_all add: ask_def trim_replies del: append.simps)
  have d: "main_prompts [?good, ?nl] = (Exits ''domain is required'', [])"
    using main_prompts_input_errors [of ?bad "[]" "[]" "[?good, ?nl]" "[]" "''192.168.100.0/24''" "[?nl]"]
      a1 k1 by blast
  have p: "main_prompts [?good, ?dom, ?nl] = (Exits ''admin password required'', [])"
    using main_prompts_input_errors [of ?bad "[]" "[]" "[?good, ?dom, ?nl]" "[]" "''192.168.100.0/24''" "[?dom, ?nl]"]
      a2 k2 by blast
  have "main_prompts (?bad # [?good, ?nl])
      = (fst (main_prompts [?good, ?nl]), ?e # snd (main_prompts [?good, ?nl]))"
    using main_prompts_input_errors [of ?bad ?e "[?good, ?nl]" "[]" "[]" "[]" "[]"] v by blast
  then have r: "main_prompts [?bad, ?good, ?nl] = (Exits ''domain is required'', [?e])"
    by (simp only: d fst_conv snd_conv)
  from v r a1 k1 d a2 k2 p show ?thesis by blast
qed

text \<open>
  C2 as stated fails for the network block: \<^verbatim>\<open>main\<close> asks for it in a loop. After the
  refused host address \<open>192.168.100.1/24\<close> the operator is asked again, and with valid
  answers the run goes on to the cluster stages.
\<close>

theorem main_prompts_reprompt_counterexample:
  "main_prompts [''192.168.100.1/24'' @ [CHR 0x0A], ''192.168.100.0/24'' @ [CHR 0x0A],
                 ''armani.lab'' @ [CHR 0x0A], ''S3cret!'' @ [CHR 0x0A], [CHR 0x0A]]
     = (Returns (initialConfig\<lparr>NetworkCIDR := ''192.168.100.0/24'', Domain' := ''armani.lab'',
                   BaseDN := ''dc=armani,dc=lab'', AdminPass := ''S3cret!'',
                   ConfigPass := ''S3cret!''\<rparr>),
        [''CIDR must represent a network, not a host address''])"
  by (simp add: main_prompts_def ask_def trim_replies validateCIDR_scenario validateCIDR_host
      baseDN_scenario del: append.simps)

text \<open>
  C8. In the scenario (network block \<open>192.168.100.0/24\<close>, domain \<open>armani.lab\<close>, admin
  credential \<open>S3cret!\<close>, the secondary credential left blank) the prompts return a
  configuration with the base DN \<open>dc=armani,dc=lab\<close> and the secondary credential
  \<open>S3cret!\<close>. For every template \<open>t\<close> of the remediation job as the specification
  describes it, the document rendered from it with that configuration holds
  \<open>dc=armani,dc=lab\<close> and no placeholder token: \<open>{{\<close> stands nowhere in it.
\<close>

theorem scenario_renders_template:
  "main_prompts scenarioInput
     = (Returns (initialConfig\<lparr>NetworkCIDR := ''192.168.100.0/24'', Domain' := ''armani.lab'',
                   BaseDN := ''dc=armani,dc=lab'', AdminPass := ''S3cret!'',
                   ConfigPass := ''S3cret!''\<rparr>), [])
   \<and> (fst (main_prompts scenarioInput) = Returns cfg \<longrightarrow>
        BaseDN cfg = ''dc=armani,dc=lab'' \<and> ConfigPass cfg = ''S3cret!''
        \<and> (memberOfJobTemplate t \<longrightarrow>
             sublist ''dc=armani,dc=lab'' (renderMemberOfJob t cfg)
             \<and> \<not> sublist ''{{'' (renderMemberOfJob t cfg)))"
proof (intro conjI impI)
  show m: "main_prompts scenarioInput
     = (Returns (initialConfig\<lparr>NetworkCIDR := ''192.168.100.0/24'', Domain' := ''armani.lab'',
                   BaseDN := ''dc=armani,dc=lab'', AdminPass := ''S3cret!'',
                   ConfigPass := ''S3cret!''\<rparr>), [])"
    unfolding scenarioInput_def by (rule main_prompts_scenario)
  assume "fst (main_prompts scenarioInput) = Returns cfg"
  with m have c: "cfg = initialConfig\<lparr>NetworkCIDR := ''192.168.100.0/24'', Domain' := ''armani.lab'',
                   BaseDN := ''dc=armani,dc=lab'', AdminPass := ''S3cret!'',
                   ConfigPass := ''S3cret!''\<rparr>"
    by simp
  then have f: "ReleaseName cfg = ''ldap''" "Namespace cfg = ''infra''"
    "BaseDN cfg = ''dc=armani,dc=lab''" "AdminPass cfg = ''S3cret!''"
    by (simp_all add: initialConfig_def)
  show "BaseDN cfg = ''dc=armani,dc=lab''" by (rule f(3))
  show "ConfigPass cfg = ''S3cret!''" using c by simp
  assume t: "memberOfJobTemplate t"
  then have "sublist ''{{.BaseDN}}'' t" by (simp add: memberOfJobTemplate_def placeholders_def)
  then show "sublist ''dc=armani,dc=lab'' (renderMemberOfJob t cfg)"
    by (rule render_scenario_baseDN [OF f])
  from t have "tokensFrom placeholders t" by (simp add: memberOfJobTemplate_def)
  then show "\<not> sublist ''{{'' (renderMemberOfJob t cfg)"
    by (rule render_scenario_no_token [OF f])
qed

theorem scenario_renders_template_witness:
  "fst (main_prompts scenarioInput)
     = Returns (initialConfig\<lparr>NetworkCIDR := ''192.168.100.0/24'', Domain' := ''armani.lab'',
                  BaseDN := ''dc=armani,dc=lab'', AdminPass := ''S3cret!'',
                  ConfigPass := ''S3cret!''\<rparr>)
   \<and> memberOfJobTemplate ''{{.ReleaseName}}.{{.Namespace}}: -b {{.BaseDN}} -w {{.AdminPass}}''
   \<and> sublist ''dc=armani,dc=lab''
        (renderMemberOfJob ''{{.ReleaseName}}.{{.Namespace}}: -b {{.BaseDN}} -w {{.AdminPass}}''
           (initialConfig\<lparr>NetworkCIDR := ''192.168.100.0/24'', Domain' := ''armani.lab'',
              BaseDN := ''dc=armani,dc=lab'', AdminPass := ''S3cret!'', ConfigPass := ''S3cret!''\<rparr>))
   \<and> \<not> sublist ''{{''
        (renderMemberOfJob ''{{.ReleaseName}}.{{.Namespace}}: -b {{.BaseDN}} -w {{.AdminPass}}''
           (initialConfig\<lparr>NetworkCIDR := ''192.168.100.0/24'', Domain' := ''armani.lab'',
              BaseDN := ''dc=armani,dc=lab'', AdminPass := ''S3cret!'', ConfigPass := ''S3cret!''\<rparr>))
   \<and> renderMemberOfJob ''{{.ReleaseName}}.{{.Namespace}}: -b {{.BaseDN}} -w {{.AdminPass}}''
           (initialConfig\<lparr>NetworkCIDR := ''192.168.100.0/24'', Domain' := ''armani.lab'',
              BaseDN := ''dc=armani,dc=lab'', AdminPass := ''S3cret!'', ConfigPass := ''S3cret!''\<rparr>)
       = ''ldap.infra: -b dc=armani,dc=lab -w S3cret!''"
proof -
  let ?t = "''{{.ReleaseName}}.{{.Namespace}}: -b {{.BaseDN}} -w {{.AdminPass}}''"
  let ?cfg = "initialConfig\<lparr>NetworkCIDR := ''192.168.100.0/24'', Domain' := ''armani.lab'',
              BaseDN := ''dc=armani,dc=lab'', AdminPass := ''S3cret!'', ConfigPass := ''S3cret!''\<rparr>"
  have "?t = [] @ ''{{.ReleaseName}}'' @ ''.{{.Namespace}}: -b {{.BaseDN}} -w {{.AdminPass}}''"
    by simp
  then have s1: "sublist ''{{.ReleaseName}}'' ?t" unfolding sublist_def by blast
  have "?t = ''{{.ReleaseName}}.'' @ ''{{.Namespace}}'' @ '': -b {{.BaseDN}} -w {{.AdminPass}}''"
    by simp
  then have s2: "sublist ''{{.Namespace}}'' ?t" unfolding sublist_def by blast
  have "?t = ''{{.ReleaseName}}.{{.Namespace}}: -b '' @ ''{{.BaseDN}}'' @ '' -w {{.AdminPass}}''"
    by simp
  then have s3: "sublist ''{{.BaseDN}}'' ?t" unfolding sublist_def by blast
  have "?t = ''{{.ReleaseName}}.{{.Namespace}}: -b {{.BaseDN}} -w '' @ ''{{.AdminPass}}'' @ []"
    by simp
  then have s4: "sublist ''{{.AdminPass}}'' ?t" unfolding sublist_def by blast
  have tk: "tokensFrom placeholders ?t" by (simp add: placeholders_def)
  from s1 s2 s3 s4 tk have tm: "memberOfJobTemplate ?t"
    by (simp add: memberOfJobTemplate_def placeholders_def)
  note th = scenario_renders_template [of ?cfg ?t]
  from th have m: "fst (main_prompts scenarioInput) = Returns ?cfg"
    by (simp only: fst_conv)
  from th m tm have r: "sublist ''dc=armani,dc=lab'' (renderMemberOfJob ?t ?cfg)"
    and n: "\<not> sublist ''{{'' (renderMemberOfJob ?t ?cfg)" by blast+
  have y1: "ReplaceAll ?t ''{{.ReleaseName}}'' ''ldap'' = ''ldap.{{.Namespace}}: -b {{.BaseDN}} -w {{.AdminPass}}''"
    by (simp add: ReplaceAll.simps)
  have y2: "ReplaceAll ''ldap.{{.Namespace}}: -b {{.BaseDN}} -w {{.AdminPass}}'' ''{{.Namespace}}'' ''infra''
      = ''ldap.infra: -b {{.BaseDN}} -w {{.AdminPass}}''"
    by (simp add: ReplaceAll.simps)
  have y3: "ReplaceAll ''ldap.infra: -b {{.BaseDN}} -w {{.AdminPass}}'' ''{{.BaseDN}}'' ''dc=armani,dc=lab''
      = ''ldap.infra: -b dc=armani,dc=lab -w {{.AdminPass}}''"
    by (simp add: ReplaceAll.simps)
  have y4: "ReplaceAll ''ldap.infra: -b dc=armani,dc=lab -w {{.AdminPass}}'' ''{{.AdminPass}}'' ''S3cret!''
      = ''ldap.infra: -b dc=armani,dc=lab -w S3cret!''"
    by (simp add: ReplaceAll.simps)
  have f: "ReleaseName ?cfg = ''ldap''" "Namespace ?cfg = ''infra''"
    "BaseDN ?cfg = ''dc=armani,dc=lab''" "AdminPass ?cfg = ''S3cret!''"
    by (simp_all add: initialConfig_def)
  have e: "renderMemberOfJob ?t ?cfg = ''ldap.infra: -b dc=armani,dc=lab -w S3cret!''"
    unfolding renderMemberOfJob_def Let_def f y1 y2 y3 y4 ..
  from m tm r n e show ?thesis by blast
qed

text \<open>
  C9. The temporary file is not removed on every exit path of \<^verbatim>\<open>applyYAML\<close>. When
  \<^verbatim>\<open>os.WriteFile\<close> has created the file and then fails (here the device is full
  after four bytes), \<^verbatim>\<open>applyYAML\<close> returns the error before the removal is
  deferred, and the partly written file \<open>/tmp/infractl-1700000000000000000.yaml\<close>
  is still there afterwards. On the exit after a failed apply the file is removed.
\<close>

theorem applyYAML_failed_write_leaves_file:
  "applyYAML (plainSys\<lparr>writeFileErr := (\<lambda>p d. Some (''no space left on device'', Some (take 4 d)))\<rparr>)
       1700000000000000000 \<lparr>files = Map.empty, dirs = {''/tmp''}\<rparr>
       ''/etc/rancher/k3s/k3s.yaml'' ''kind: Job''
     = (Some ''no space left on device'',
        \<lparr>files = [''/tmp/infractl-1700000000000000000.yaml'' \<mapsto> ''kind''], dirs = {''/tmp''}\<rparr>)
   \<and> applyYAML (plainSys\<lparr>runErr := (\<lambda>a fs. Some ''exit status 1'')\<rparr>)
       1700000000000000000 \<lparr>files = Map.empty, dirs = {''/tmp''}\<rparr>
       ''/etc/rancher/k3s/k3s.yaml'' ''kind: Job''
     = (Some ''exit status 1'', \<lparr>files = Map.empty, dirs = {''/tmp''}\<rparr>)"
proof -
  let ?full = "plainSys\<lparr>writeFileErr := (\<lambda>p d. Some (''no space left on device'', Some (take 4 d)))\<rparr>"
  let ?refused = "plainSys\<lparr>runErr := (\<lambda>a fs. Some ''exit status 1'')\<rparr>"
  let ?w = "\<lparr>files = Map.empty, dirs = {''/tmp''}\<rparr>"
  have n: "tempManifest ?full 1700000000000000000 = ''/tmp/infractl-1700000000000000000.yaml''"
    "tempManifest ?refused 1700000000000000000 = ''/tmp/infractl-1700000000000000000.yaml''"
    by (simp_all add: tempManifest_def plainSys_def Sprintf_d_example)
  have "writeFileErr ?full (tempManifest ?full 1700000000000000000) ''kind: Job''
      = Some (''no space left on device'', Some ''kind'')"
    by simp
  from applyYAML_write_failure [OF this, of ?w "''/etc/rancher/k3s/k3s.yaml''"]
  have 1: "applyYAML ?full 1700000000000000000 ?w ''/etc/rancher/k3s/k3s.yaml'' ''kind: Job''
      = (Some ''no space left on device'',
         \<lparr>files = [''/tmp/infractl-1700000000000000000.yaml'' \<mapsto> ''kind''], dirs = {''/tmp''}\<rparr>)"
    unfolding n by simp
  have "writeFileErr ?refused (tempManifest ?refused 1700000000000000000) ''kind: Job'' = None"
    by (simp add: plainSys_def)
  then have 2: "applyYAML ?refused 1700000000000000000 ?w ''/etc/rancher/k3s/k3s.yaml'' ''kind: Job''
      = (Some ''exit status 1'', ?w)"
    unfolding n by (simp add: applyYAML_def WriteFile_def Remove_def Let_def n)
  from 1 2 show ?thesis by (rule conjI)
qed

text \<open>
  C7. \<^verbatim>\<open>GetActualAdminPassword\<close> asks the cluster client for the field
  \<^verbatim>\<open>LDAP_ADMIN_PASSWORD\<close> of the secret named after the release. With \<open>raw\<close> the
  captured output and \<open>err\<close> the outcome of the command: when the command succeeded and
  the trimmed output is the base64 encoding of \<open>plain\<close> (more generally, decodes to
  \<open>plain\<close>), the result is \<open>plain\<close>; when the command failed, when the trimmed output
  is empty, and when the trimmed output is not base64, the result is the empty string.
  The function is total: a string is returned in every case. \<^verbatim>\<open>getActualAdminPassword\<close>
  of the single-file program is the same function on the fields of the configuration.
\<close>

theorem GetActualAdminPassword_best_effort:
  assumes "cmdOutput env (kube env [''--kubeconfig'', kubeconfigPath, ''get'', ''secret'', releaseName,
             ''-n'', namespace, ''-o'', ''jsonpath={.data.LDAP_ADMIN_PASSWORD}'']) = (raw, err)"
  shows "(err = None \<and> TrimSpace raw = EncodeToString plain \<longrightarrow>
            GetActualAdminPassword env releaseName namespace kubeconfigPath = plain)
       \<and> (err = None \<and> DecodeString (TrimSpace raw) = Some decoded \<longrightarrow>
            GetActualAdminPassword env releaseName namespace kubeconfigPath = decoded)
       \<and> (err \<noteq> None \<longrightarrow> GetActualAdminPassword env releaseName namespace kubeconfigPath = [])
       \<and> (TrimSpace raw = [] \<longrightarrow> GetActualAdminPassword env releaseName namespace kubeconfigPath = [])
       \<and> (DecodeString (TrimSpace raw) = None \<longrightarrow>
            GetActualAdminPassword env releaseName namespace kubeconfigPath = [])
       \<and> getActualAdminPassword env cfg
            = GetActualAdminPassword env (ReleaseName cfg) (Namespace cfg) (Kubeconfig cfg)"
proof -
  let ?r = "GetActualAdminPassword env releaseName namespace kubeconfigPath"
  have r: "?r = (if err = None \<and> TrimSpace raw \<noteq> [] then
                   (case DecodeString (TrimSpace raw) of Some d \<Rightarrow> d | None \<Rightarrow> []) else [])"
    using assms by (simp add: GetActualAdminPassword_def runOut_def Let_def)
  have e: "DecodeString [] = Some []" by (simp add: DecodeString_def)
  have c1: "err = None \<and> DecodeString (TrimSpace raw) = Some decoded \<longrightarrow> ?r = decoded"
    using e by (auto simp: r)
  have c0: "err = None \<and> TrimSpace raw = EncodeToString plain \<longrightarrow> ?r = plain"
    using e by (auto simp: r DecodeString_EncodeToString EncodeToString_empty)
  have c2: "err \<noteq> None \<longrightarrow> ?r = []" by (simp add: r)
  have c3: "TrimSpace raw = [] \<longrightarrow> ?r = []" by (simp add: r)
  have c4: "DecodeString (TrimSpace raw) = None \<longrightarrow> ?r = []" by (simp add: r)
  have c5: "getActualAdminPassword env cfg
      = GetActualAdminPassword env (ReleaseName cfg) (Namespace cfg) (Kubeconfig cfg)"
    by (simp add: getActualAdminPassword_def GetActualAdminPassword_def)
  from c0 c1 c2 c3 c4 c5 show ?thesis by blast
qed

theorem GetActualAdminPassword_best_effort_witness:
  "GetActualAdminPassword (plainSys\<lparr>cmdOutput := (\<lambda>a. (''UzNjcmV0IQ=='' @ [CHR 0x0A], None))\<rparr>)
       ''openldap'' ''infra'' ''/etc/rancher/k3s/k3s.yaml'' = ''S3cret!''
   \<and> DecodeString ''UzNjcmV0IQ=='' = Some ''S3cret!''
   \<and> GetActualAdminPassword (plainSys\<lparr>cmdOutput := (\<lambda>a. (''UzNjcmV0IQ=='', Some ''exit status 1''))\<rparr>)
       ''openldap'' ''infra'' ''/etc/rancher/k3s/k3s.yaml'' = []
   \<and> GetActualAdminPassword (plainSys\<lparr>cmdOutput := (\<lambda>a. ([CHR 0x0A], None))\<rparr>)
       ''openldap'' ''infra'' ''/etc/rancher/k3s/k3s.yaml'' = []
   \<and> DecodeString ''not base64!'' = None
   \<and> GetActualAdminPassword (plainSys\<lparr>cmdOutput := (\<lambda>a. (''not base64!'', None))\<rparr>)
       ''openldap'' ''infra'' ''/etc/rancher/k3s/k3s.yaml'' = []"
proof -
  let ?ok = "plainSys\<lparr>cmdOutput := (\<lambda>a. (''UzNjcmV0IQ=='' @ [CHR 0x0A], None))\<rparr>"
  let ?failed = "plainSys\<lparr>cmdOutput := (\<lambda>a. (''UzNjcmV0IQ=='', Some ''exit status 1''))\<rparr>"
  let ?empty = "plainSys\<lparr>cmdOutput := (\<lambda>a. ([CHR 0x0A], None))\<rparr>"
  let ?corrupt = "plainSys\<lparr>cmdOutput := (\<lambda>a. (''not base64!'', None))\<rparr>"
  let ?args = "\<lambda>env. kube env [''--kubeconfig'', ''/etc/rancher/k3s/k3s.yaml'', ''get'', ''secret'',
      ''openldap'', ''-n'', ''infra'', ''-o'', ''jsonpath={.data.LDAP_ADMIN_PASSWORD}'']"
  have enc: "EncodeToString ''S3cret!'' = ''UzNjcmV0IQ==''"
    by (simp add: encodeStd_def)
  have t1: "TrimSpace (''UzNjcmV0IQ=='' @ [CHR 0x0A]) = EncodeToString ''S3cret!''"
    unfolding enc by (simp add: eval_TrimSpace)
  have d1: "DecodeString ''UzNjcmV0IQ=='' = Some ''S3cret!''"
    using DecodeString_EncodeToString [of "''S3cret!''"] by (simp only: enc)
  have t3: "TrimSpace [CHR 0x0A] = []" by (simp add: eval_TrimSpace)
  have t4: "TrimSpace ''not base64!'' = ''not base64!''" by (simp add: eval_TrimSpace)
  have d4: "DecodeString ''not base64!'' = None" by (simp add: DecodeString_def decodeMap_def)
  have o1: "cmdOutput ?ok (?args ?ok) = (''UzNjcmV0IQ=='' @ [CHR 0x0A], None)" by simp
  have o2: "cmdOutput ?failed (?args ?failed) = (''UzNjcmV0IQ=='', Some ''exit status 1'')" by simp
  have o3: "cmdOutput ?empty (?args ?empty) = ([CHR 0x0A], None)" by simp
  have o4: "cmdOutput ?corrupt (?args ?corrupt) = (''not base64!'', None)" by simp
  from GetActualAdminPassword_best_effort [OF o1, of "''S3cret!''"] t1
  have r1: "GetActualAdminPassword ?ok ''openldap'' ''infra'' ''/etc/rancher/k3s/k3s.yaml'' = ''S3cret!''"
    by blast
  from GetActualAdminPassword_best_effort [OF o2]
  have r2: "GetActualAdminPassword ?failed ''openldap'' ''infra'' ''/etc/rancher/k3s/k3s.yaml'' = []"
    by blast
  from GetActualAdminPassword_best_effort [OF o3] t3
  have r3: "GetActualAdminPassword ?empty ''openldap'' ''infra'' ''/etc/rancher/k3s/k3s.yaml'' = []"
    by blast
  from GetActualAdminPassword_best_effort [OF o4] d4 t4
  have r4: "GetActualAdminPassword ?corrupt ''openldap'' ''infra'' ''/etc/rancher/k3s/k3s.yaml'' = []"
    by simp
  from r1 d1 r2 r3 d4 r4 show ?thesis by blast
qed

text \<open>
  C10. \<^verbatim>\<open>AddRepository\<close> (and \<^verbatim>\<open>addHelmRepo\<close>, the same statements) replaces a
  registration file that does not load by an empty one. \<open>wi\<close> is the state after the
  index was fetched (the state before, when the direct download succeeded). When, in
  that state, the registration file is absent, or cannot be read, or its text does not
  parse, and the directory and the file can be written, the operation succeeds and the
  registration file holds the new entry and no other: whatever the file held before is
  gone, and no error is returned for it.
\<close>

theorem AddRepository_unloadable_file_overwritten:
  assumes "newChartRepositoryErr h \<lparr>Name = n, URL = u\<rparr> = None"
    and "fetchIndex h env w \<lparr>Name = n, URL = u\<rparr> = (None, wi)"
    and "files wi (RepositoryConfig h) = None \<or> readFileErr env (RepositoryConfig h) \<noteq> None
          \<or> (\<exists>b. files wi (RepositoryConfig h) = Some b \<and> unmarshalFile h b = None)"
    and "mkdirAllErr env (dirOf env (RepositoryConfig h)) = None"
    and "writeFileErr env (RepositoryConfig h)
           (marshalFile h \<lparr>APIVersion = [], Repositories = [Some \<lparr>Name = n, URL = u\<rparr>]\<rparr>) = None"
  shows "AddRepository h env w n u
       = Normal (None, wi\<lparr>dirs := insert (dirOf env (RepositoryConfig h)) (dirs wi),
                   files := (files wi)(RepositoryConfig h \<mapsto>
                     marshalFile h \<lparr>APIVersion = [], Repositories = [Some \<lparr>Name = n, URL = u\<rparr>]\<rparr>)\<rparr>)
       \<and> addHelmRepo h env w n u = AddRepository h env w n u
       \<and> (downloadIndexFileErr h \<lparr>Name = n, URL = u\<rparr> = None \<longrightarrow> wi = w)"
proof (intro conjI impI)
  show "AddRepository h env w n u
       = Normal (None, wi\<lparr>dirs := insert (dirOf env (RepositoryConfig h)) (dirs wi),
                   files := (files wi)(RepositoryConfig h \<mapsto>
                     marshalFile h \<lparr>APIVersion = [], Repositories = [Some \<lparr>Name = n, URL = u\<rparr>]\<rparr>)\<rparr>)"
    unfolding AddRepository_registers [OF assms(1,2)]
    by (rule updateRepositoryFile_unloadable [OF assms(3,4,5)])
  show "addHelmRepo h env w n u = AddRepository h env w n u" by (simp add: addHelmRepo_def)
  assume "downloadIndexFileErr h \<lparr>Name = n, URL = u\<rparr> = None"
  then show "wi = w" using assms(2) by (simp add: fetchIndex_def)
qed

theorem AddRepository_unloadable_file_overwritten_witness:
  "AddRepository plainHelm plainSys
       \<lparr>files = [''/root/.config/helm/repositories.yaml'' \<mapsto> ''- name: stable url: https://charts.helm.sh/stable''],
        dirs = {}\<rparr>
       ''helm-openldap'' ''https://jp-gouin.github.io/helm-openldap''
     = Normal (None, \<lparr>files = [''/root/.config/helm/repositories.yaml'' \<mapsto>
                          ''- name: helm-openldap url: https://jp-gouin.github.io/helm-openldap'' @ [CHR 0x0A]],
               dirs = {''/root/.config/helm''}\<rparr>)"
proof -
  let ?w = "\<lparr>files = [''/root/.config/helm/repositories.yaml'' \<mapsto> ''- name: stable url: https://charts.helm.sh/stable''],
        dirs = {}\<rparr>"
  let ?e = "\<lparr>Name = ''helm-openldap'', URL = ''https://jp-gouin.github.io/helm-openldap''\<rparr>"
  have c: "RepositoryConfig plainHelm = ''/root/.config/helm/repositories.yaml''"
    by (simp add: plainHelm_def)
  have m: "marshalFile plainHelm \<lparr>APIVersion = [], Repositories = [Some ?e]\<rparr>
      = ''- name: helm-openldap url: https://jp-gouin.github.io/helm-openldap'' @ [CHR 0x0A]"
    by (simp add: plainHelm_def)
  have 1: "newChartRepositoryErr plainHelm ?e = None" by (simp add: plainHelm_def)
  have 2: "fetchIndex plainHelm plainSys ?w ?e = (None, ?w)" by (simp add: fetchIndex_def plainHelm_def)
  have 3: "files ?w (RepositoryConfig plainHelm) = None
      \<or> readFileErr plainSys (RepositoryConfig plainHelm) \<noteq> None
      \<or> (\<exists>b. files ?w (RepositoryConfig plainHelm) = Some b \<and> unmarshalFile plainHelm b = None)"
    by (simp add: plainHelm_def)
  have 4: "mkdirAllErr plainSys (dirOf plainSys (RepositoryConfig plainHelm)) = None"
    by (simp add: plainSys_def)
  have 5: "writeFileErr plainSys (RepositoryConfig plainHelm)
      (marshalFile plainHelm \<lparr>APIVersion = [], Repositories = [Some ?e]\<rparr>) = None"
    by (simp add: plainSys_def)
  show ?thesis
    using AddRepository_unloadable_file_overwritten [OF 1 2 3 4 5]
    unfolding c m dirOf_plain by simp
qed

text \<open>
  C6 (as amended). Registering a name twice with \<^verbatim>\<open>AddRepository\<close>, first with the
  URL \<open>u1\<close>, then with \<open>u2\<close>, both calls returning no error, the second reading back
  what the first wrote. \<open>f0\<close> is the registration file as the first call loads it. After
  the second call the registration file is \<open>f0\<close> with the entry \<open>(n, u2)\<close> upserted: the
  first entry named \<open>n\<close> carries \<open>u2\<close>, and it is the only entry named \<open>n\<close> when \<open>f0\<close>
  has at most one; every entry of another name is kept in its place, the file has not
  become shorter, and registering \<open>(n, u2)\<close> once more changes nothing. When the file does
  not load, \<open>f0\<close> is the empty file: nothing of what the file held is kept.
\<close>

theorem AddRepository_upsert_loaded:
  assumes "AddRepository h env w n u1 = Normal (None, w1)"
    and "AddRepository h env w1 n u2 = Normal (None, w2)"
    and "f0 = (case LoadFile h env w (RepositoryConfig h) of
                 Inl err \<Rightarrow> \<lparr>APIVersion = [], Repositories = []\<rparr> | Inr f \<Rightarrow> f)"
    and "RepositoryConfig h \<noteq> joinPath env (RepositoryCache h) (n @ ''-index.yaml'')"
    and "readFileErr env (RepositoryConfig h) = None"
    and "File_Update f0 \<lparr>Name = n, URL = u1\<rparr> = Normal f1"
    and "unmarshalFile h (marshalFile h f1) = Some f1"
  shows "files w1 (RepositoryConfig h) = Some (marshalFile h f1)
       \<and> (\<exists>f2. File_Update f0 \<lparr>Name = n, URL = u2\<rparr> = Normal f2
              \<and> files w2 (RepositoryConfig h) = Some (marshalFile h f2)
              \<and> filter (\<lambda>r. map_option Name r = Some n) (Repositories f2)
                  = Some \<lparr>Name = n, URL = u2\<rparr>
                      # tl (filter (\<lambda>r. map_option Name r = Some n) (Repositories f0))
              \<and> (length (filter (\<lambda>r. map_option Name r = Some n) (Repositories f0)) \<le> 1 \<longrightarrow>
                   filter (\<lambda>r. map_option Name r = Some n) (Repositories f2)
                     = [Some \<lparr>Name = n, URL = u2\<rparr>])
              \<and> filter (\<lambda>r. map_option Name r \<noteq> Some n) (Repositories f2)
                  = filter (\<lambda>r. map_option Name r \<noteq> Some n) (Repositories f0)
              \<and> length (Repositories f0) \<le> length (Repositories f2)
              \<and> File_Update f2 \<lparr>Name = n, URL = u2\<rparr> = Normal f2)
       \<and> (isl (LoadFile h env w (RepositoryConfig h)) \<longrightarrow>
            Repositories f1 = [Some \<lparr>Name = n, URL = u1\<rparr>])"
proof -
  let ?e1 = "\<lparr>Name = n, URL = u1\<rparr>" and ?e2 = "\<lparr>Name = n, URL = u2\<rparr>"
  let ?named = "\<lambda>r. map_option Name r = Some n"
  from assms(6) obtain rs1 where rs1: "update (Repositories f0) ?e1 = Normal rs1"
    and f1: "f1 = f0\<lparr>Repositories := rs1\<rparr>"
    unfolding File_Update_Normal by blast
  have w1: "files w1 (RepositoryConfig h) = Some (marshalFile h f1)"
    using AddRepository_writes [OF assms(1,4)] assms(6) unfolding assms(3) by auto
  then have "LoadFile h env w1 (RepositoryConfig h) = Inr f1"
    using assms(5,7) by (rule LoadFile_written)
  with AddRepository_writes [OF assms(2,4)]
  obtain f2 where f2: "File_Update f1 ?e2 = Normal f2"
    and w2: "files w2 (RepositoryConfig h) = Some (marshalFile h f2)"
    by auto
  from f2 obtain rs2 where rs2: "update rs1 ?e2 = Normal rs2" and f2': "f2 = f1\<lparr>Repositories := rs2\<rparr>"
    unfolding File_Update_Normal by (auto simp: f1)
  have u: "update (Repositories f0) ?e2 = Normal rs2"
    using update_last_wins [of ?e1 ?e2 "Repositories f0" rs1] rs1 rs2 by simp
  have r2: "Repositories f2 = rs2" by (simp add: f2' f1)
  have u0: "File_Update f0 ?e2 = Normal f2"
    unfolding File_Update_Normal using u by (simp add: f2' f1)
  have same: "filter ?named (Repositories f2) = Some ?e2 # tl (filter ?named (Repositories f0))"
    using update_same [OF u] by (simp add: r2)
  have one: "length (filter ?named (Repositories f0)) \<le> 1 \<longrightarrow> filter ?named (Repositories f2) = [Some ?e2]"
  proof
    assume "length (filter ?named (Repositories f0)) \<le> 1"
    then have "tl (filter ?named (Repositories f0)) = []"
      by (cases "filter ?named (Repositories f0)") simp_all
    with same show "filter ?named (Repositories f2) = [Some ?e2]" by simp
  qed
  have others: "filter (\<lambda>r. map_option Name r \<noteq> Some n) (Repositories f2)
      = filter (\<lambda>r. map_option Name r \<noteq> Some n) (Repositories f0)"
    using update_others [OF u] by (simp add: r2)
  have len: "length (Repositories f0) \<le> length (Repositories f2)"
    using update_length [OF u] by (simp add: r2)
  have idem: "File_Update f2 ?e2 = Normal f2"
    unfolding File_Update_Normal using update_idem [OF u] by (simp add: r2)
  have gone: "isl (LoadFile h env w (RepositoryConfig h)) \<longrightarrow> Repositories f1 = [Some ?e1]"
  proof
    assume "isl (LoadFile h env w (RepositoryConfig h))"
    then have "Repositories f0 = []" unfolding assms(3) by (auto simp: isl_def)
    with rs1 show "Repositories f1 = [Some ?e1]" by (simp add: f1)
  qed
  from w1 u0 w2 same one others len idem gone show ?thesis by blast
qed


theorem AddRepository_upsert_loaded_witness:
  "AddRepository
       (plainHelm\<lparr>unmarshalFile := (\<lambda>b.
          if b = ''- name: stable url: https://charts.helm.sh/stable'' @ [CHR 0x0A]
          then Some \<lparr>APIVersion = [], Repositories = [Some \<lparr>Name = ''stable'', URL = ''https://charts.helm.sh/stable''\<rparr>]\<rparr>
          else if b = ''- name: stable url: https://charts.helm.sh/stable'' @ [CHR 0x0A]
                    @ ''- name: helm-openldap url: https://old.example/charts'' @ [CHR 0x0A]
          then Some \<lparr>APIVersion = [], Repositories = [Some \<lparr>Name = ''stable'', URL = ''https://charts.helm.sh/stable''\<rparr>,
                       Some \<lparr>Name = ''helm-openldap'', URL = ''https://old.example/charts''\<rparr>]\<rparr>
          else None)\<rparr>)
       plainSys
       \<lparr>files = [''/root/.config/helm/repositories.yaml'' \<mapsto>
                   ''- name: stable url: https://charts.helm.sh/stable'' @ [CHR 0x0A]
                   @ ''- name: helm-openldap url: https://old.example/charts'' @ [CHR 0x0A]],
        dirs = {''/root/.config/helm''}\<rparr>
       ''helm-openldap'' ''https://jp-gouin.github.io/helm-openldap''
     = Normal (None,
         \<lparr>files = [''/root/.config/helm/repositories.yaml'' \<mapsto>
                   ''- name: stable url: https://charts.helm.sh/stable'' @ [CHR 0x0A]
                   @ ''- name: helm-openldap url: https://jp-gouin.github.io/helm-openldap'' @ [CHR 0x0A]],
          dirs = {''/root/.config/helm''}\<rparr>)
   \<and> filter (\<lambda>r. map_option Name r = Some ''helm-openldap'')
        [Some \<lparr>Name = ''stable'', URL = ''https://charts.helm.sh/stable''\<rparr>,
         Some \<lparr>Name = ''helm-openldap'', URL = ''https://jp-gouin.github.io/helm-openldap''\<rparr>]
      = [Some \<lparr>Name = ''helm-openldap'', URL = ''https://jp-gouin.github.io/helm-openldap''\<rparr>]
   \<and> filter (\<lambda>r. map_option Name r \<noteq> Some ''helm-openldap'')
        [Some \<lparr>Name = ''stable'', URL = ''https://charts.helm.sh/stable''\<rparr>,
         Some \<lparr>Name = ''helm-openldap'', URL = ''https://jp-gouin.github.io/helm-openldap''\<rparr>]
      = [Some \<lparr>Name = ''stable'', URL = ''https://charts.helm.sh/stable''\<rparr>]"
proof -
  let ?T0 = "''- name: stable url: https://charts.helm.sh/stable'' @ [CHR 0x0A]"
  let ?T1 = "''- name: stable url: https://charts.helm.sh/stable'' @ [CHR 0x0A]
                     @ ''- name: helm-openldap url: https://old.example/charts'' @ [CHR 0x0A]"
  let ?T2 = "''- name: stable url: https://charts.helm.sh/stable'' @ [CHR 0x0A]
                   @ ''- name: helm-openldap url: https://jp-gouin.github.io/helm-openldap'' @ [CHR 0x0A]"
  let ?s = "\<lparr>Name = ''stable'', URL = ''https://charts.helm.sh/stable''\<rparr>"
  let ?e1 = "\<lparr>Name = ''helm-openldap'', URL = ''https://old.example/charts''\<rparr>"
  let ?e2 = "\<lparr>Name = ''helm-openldap'', URL = ''https://jp-gouin.github.io/helm-openldap''\<rparr>"
  let ?F0 = "\<lparr>APIVersion = [], Repositories = [Some ?s]\<rparr>"
  let ?F1 = "\<lparr>APIVersion = [], Repositories = [Some ?s, Some ?e1]\<rparr>"
  let ?F2 = "\<lparr>APIVersion = [], Repositories = [Some ?s, Some ?e2]\<rparr>"
  let ?H = "plainHelm\<lparr>unmarshalFile := (\<lambda>b.
           if b = ?T0 then Some ?F0 else if b = ?T1 then Some ?F1 else None)\<rparr>"
  let ?cfg = "''/root/.config/helm/repositories.yaml''"
  let ?w = "\<lparr>files = [?cfg \<mapsto> ?T0], dirs = {''/root/.config/helm''}\<rparr>"
  let ?w1 = "\<lparr>files = [?cfg \<mapsto> ?T1], dirs = {''/root/.config/helm''}\<rparr>"
  let ?w2 = "\<lparr>files = [?cfg \<mapsto> ?T2], dirs = {''/root/.config/helm''}\<rparr>"
  have c: "RepositoryConfig ?H = ?cfg" by (simp add: plainHelm_def)
  have l: "LoadFile ?H plainSys ?w ?cfg = Inr ?F0"
    by (simp add: LoadFile_def plainHelm_def plainSys_def)
  have fi: "fetchIndex ?H plainSys x e = (None, x)" for x e
    by (simp add: fetchIndex_def plainHelm_def)
  have nc: "newChartRepositoryErr ?H e = None" for e by (simp add: plainHelm_def)
  have a1: "AddRepository ?H plainSys ?w ''helm-openldap'' ''https://old.example/charts''
      = Normal (None, ?w1)"
    unfolding AddRepository_registers [OF nc fi]
    by (simp add: updateRepositoryFile_def LoadFile_def File_Update_def File_WriteFile_def
        MkdirAll_def WriteFile_def Let_def plainSys_def plainHelm_def)
  have a2: "AddRepository ?H plainSys ?w1 ''helm-openldap'' ''https://jp-gouin.github.io/helm-openldap''
      = Normal (None, ?w2)"
    unfolding AddRepository_registers [OF nc fi]
    by (simp add: updateRepositoryFile_def LoadFile_def File_Update_def File_WriteFile_def
        MkdirAll_def WriteFile_def Let_def plainSys_def plainHelm_def)
  have f0: "?F0 = (case LoadFile ?H plainSys ?w (RepositoryConfig ?H) of
                 Inl err \<Rightarrow> \<lparr>APIVersion = [], Repositories = []\<rparr> | Inr f \<Rightarrow> f)"
    unfolding c l by simp
  have ne: "RepositoryConfig ?H \<noteq> joinPath plainSys (RepositoryCache ?H) (''helm-openldap'' @ ''-index.yaml'')"
    by (simp add: plainHelm_def plainSys_def)
  have rd: "readFileErr plainSys (RepositoryConfig ?H) = None" by (simp add: plainSys_def)
  have f1: "File_Update ?F0 ?e1 = Normal ?F1" by (simp add: File_Update_def)
  have rt: "unmarshalFile ?H (marshalFile ?H ?F1) = Some ?F1" by (simp add: plainHelm_def)
  have u2: "File_Update ?F0 ?e2 = Normal ?F2" by (simp add: File_Update_def)
  have le: "length (filter (\<lambda>r. map_option Name r = Some ''helm-openldap'') (Repositories ?F0)) \<le> 1"
    by simp
  from AddRepository_upsert_loaded [OF a1 a2 f0 ne rd f1 rt] u2 le
  have one: "filter (\<lambda>r. map_option Name r = Some ''helm-openldap'') (Repositories ?F2) = [Some ?e2]"
    and oth: "filter (\<lambda>r. map_option Name r \<noteq> Some ''helm-openldap'') (Repositories ?F2)
        = filter (\<lambda>r. map_option Name r \<noteq> Some ''helm-openldap'') (Repositories ?F0)"
    by auto
  from oth have oth': "filter (\<lambda>r. map_option Name r \<noteq> Some ''helm-openldap'') [Some ?s, Some ?e2] = [Some ?s]"
    by simp
  from one have one': "filter (\<lambda>r. map_option Name r = Some ''helm-openldap'') [Some ?s, Some ?e2] = [Some ?e2]"
    by simp
  from a2 one' oth' show ?thesis by (simp only: append_assoc) 
qed

text \<open>
  C6 as stated fails in two ways. \<^verbatim>\<open>File.Update\<close> replaces the first entry of the
  name only: a registration file that loads with two entries named
  \<open>helm-openldap\<close> still has two after the name was registered twice (the second
  call reads back what the first wrote). And an entry is
  deleted when the file does not load: a registration file that holds the entry
  \<open>stable\<close> and cannot be read holds the new entry alone after one registration.
\<close>

theorem AddRepository_upsert_counterexample:
  "AddRepository
       (plainHelm\<lparr>unmarshalFile := (\<lambda>b.
          if b = ''- name: helm-openldap url: https://a.example/charts'' @ [CHR 0x0A]
                 @ ''- name: helm-openldap url: https://b.example/charts'' @ [CHR 0x0A]
          then Some \<lparr>APIVersion = [], Repositories =
                 [Some \<lparr>Name = ''helm-openldap'', URL = ''https://a.example/charts''\<rparr>,
                  Some \<lparr>Name = ''helm-openldap'', URL = ''https://b.example/charts''\<rparr>]\<rparr>
          else if b = ''- name: helm-openldap url: https://old.example/charts'' @ [CHR 0x0A]
                      @ ''- name: helm-openldap url: https://b.example/charts'' @ [CHR 0x0A]
          then Some \<lparr>APIVersion = [], Repositories =
                 [Some \<lparr>Name = ''helm-openldap'', URL = ''https://old.example/charts''\<rparr>,
                  Some \<lparr>Name = ''helm-openldap'', URL = ''https://b.example/charts''\<rparr>]\<rparr>
          else None)\<rparr>)
       plainSys
       \<lparr>files = [''/root/.config/helm/repositories.yaml'' \<mapsto>
                   ''- name: helm-openldap url: https://a.example/charts'' @ [CHR 0x0A]
                   @ ''- name: helm-openldap url: https://b.example/charts'' @ [CHR 0x0A]],
        dirs = {''/root/.config/helm''}\<rparr>
       ''helm-openldap'' ''https://old.example/charts''
     = Normal (None,
         \<lparr>files = [''/root/.config/helm/repositories.yaml'' \<mapsto>
                   ''- name: helm-openldap url: https://old.example/charts'' @ [CHR 0x0A]
                   @ ''- name: helm-openldap url: https://b.example/charts'' @ [CHR 0x0A]],
          dirs = {''/root/.config/helm''}\<rparr>)
   \<and> AddRepository
       (plainHelm\<lparr>unmarshalFile := (\<lambda>b.
          if b = ''- name: helm-openldap url: https://a.example/charts'' @ [CHR 0x0A]
                 @ ''- name: helm-openldap url: https://b.example/charts'' @ [CHR 0x0A]
          then Some \<lparr>APIVersion = [], Repositories =
                 [Some \<lparr>Name = ''helm-openldap'', URL = ''https://a.example/charts''\<rparr>,
                  Some \<lparr>Name = ''helm-openldap'', URL = ''https://b.example/charts''\<rparr>]\<rparr>
          else if b = ''- name: helm-openldap url: https://old.example/charts'' @ [CHR 0x0A]
                      @ ''- name: helm-openldap url: https://b.example/charts'' @ [CHR 0x0A]
          then Some \<lparr>APIVersion = [], Repositories =
                 [Some \<lparr>Name = ''helm-openldap'', URL = ''https://old.example/charts''\<rparr>,
                  Some \<lparr>Name = ''helm-openldap'', URL = ''https://b.example/charts''\<rparr>]\<rparr>
          else None)\<rparr>)
       plainSys
       \<lparr>files = [''/root/.config/helm/repositories.yaml'' \<mapsto>
                   ''- name: helm-openldap url: https://old.example/charts'' @ [CHR 0x0A]
                   @ ''- name: helm-openldap url: https://b.example/charts'' @ [CHR 0x0A]],
        dirs = {''/root/.config/helm''}\<rparr>
       ''helm-openldap'' ''https://jp-gouin.github.io/helm-openldap''
     = Normal (None,
         \<lparr>files = [''/root/.config/helm/repositories.yaml'' \<mapsto>
                   ''- name: helm-openldap url: https://jp-gouin.github.io/helm-openldap'' @ [CHR 0x0A]
                   @ ''- name: helm-openldap url: https://b.example/charts'' @ [CHR 0x0A]],
          dirs = {''/root/.config/helm''}\<rparr>)
   \<and> AddRepository plainHelm (plainSys\<lparr>readFileErr := (\<lambda>p. Some ''permission denied'')\<rparr>)
       \<lparr>files = [''/root/.config/helm/repositories.yaml'' \<mapsto>
                   ''- name: stable url: https://charts.helm.sh/stable'' @ [CHR 0x0A]],
        dirs = {''/root/.config/helm''}\<rparr>
       ''helm-openldap'' ''https://jp-gouin.github.io/helm-openldap''
     = Normal (None,
         \<lparr>files = [''/root/.config/helm/repositories.yaml'' \<mapsto>
                   ''- name: helm-openldap url: https://jp-gouin.github.io/helm-openldap'' @ [CHR 0x0A]],
          dirs = {''/root/.config/helm''}\<rparr>)"
  by (simp add: AddRepository_def fetchIndex_def updateRepositoryFile_def LoadFile_def
      File_Update_def File_WriteFile_def MkdirAll_def WriteFile_def Let_def plainSys_def
      plainHelm_def)

text \<open>
  C5. \<^verbatim>\<open>AddRepository\<close> (and \<^verbatim>\<open>addHelmRepo\<close>, the same statements) when the direct
  download of the index fails. The index is then fetched with
  \<^verbatim>\<open>curl -s -L <url>/index.yaml\<close>. When that command fails, the operation returns
  the error \<open>failed to download index file locally: ...\<close> and has changed nothing.
  When it succeeds and the operation returns no error, the cache directory exists, the
  file \<open><cacheDir>/<name>-index.yaml\<close> exists (holding the fetched bytes, unless it
  is the registration file itself), and the registration file is the text of a file
  that has the entry.
\<close>

theorem AddRepository_index_fallback:
  assumes "newChartRepositoryErr h \<lparr>Name = n, URL = u\<rparr> = None"
    and "downloadIndexFileErr h \<lparr>Name = n, URL = u\<rparr> = Some e0"
    and "cmdOutput env [''curl'', ''-s'', ''-L'', u @ ''/index.yaml''] = (output, err)"
  shows "(err = Some e1 \<longrightarrow>
            AddRepository h env w n u = Normal (Some (''failed to download index file locally: '' @ e1), w))
       \<and> (err = None \<and> AddRepository h env w n u = Normal (None, w') \<longrightarrow>
            RepositoryCache h \<in> dirs w'
            \<and> files w' (joinPath env (RepositoryCache h) (n @ ''-index.yaml'')) \<noteq> None
            \<and> (joinPath env (RepositoryCache h) (n @ ''-index.yaml'') \<noteq> RepositoryConfig h \<longrightarrow>
                 files w' (joinPath env (RepositoryCache h) (n @ ''-index.yaml'')) = Some output)
            \<and> (\<exists>f. files w' (RepositoryConfig h) = Some (marshalFile h f)
                     \<and> Some \<lparr>Name = n, URL = u\<rparr> \<in> set (Repositories f)))
       \<and> addHelmRepo h env w n u = AddRepository h env w n u"
proof (intro conjI impI)
  let ?e = "\<lparr>Name = n, URL = u\<rparr>"
  let ?idx = "joinPath env (RepositoryCache h) (n @ ''-index.yaml'')"
  show "addHelmRepo h env w n u = AddRepository h env w n u" by (simp add: addHelmRepo_def)
  {
    assume "err = Some e1"
    then have "fetchIndex h env w ?e = (Some (''failed to download index file locally: '' @ e1), w)"
      using fetchIndex_fallback_fails [of h ?e e0 env "output" e1 w] assms(2,3) by simp
    then show "AddRepository h env w n u = Normal (Some (''failed to download index file locally: '' @ e1), w)"
      using assms(1) by (simp add: AddRepository_def)
  }
  assume a: "err = None \<and> AddRepository h env w n u = Normal (None, w')"
  then have ok: "AddRepository h env w n u = Normal (None, w')" and c: "cmdOutput env [''curl'', ''-s'', ''-L'', URL ?e @ ''/index.yaml''] = (output, None)"
    using assms(3) by simp_all
  let ?wi = "snd (fetchIndex h env w ?e)"
  have "fetchIndex h env w ?e = (None, ?wi)"
    using AddRepository_success(2) [OF ok] by (simp add: prod_eq_iff)
  from fetchIndex_fallback_success [OF assms(2) c this]
  have wi: "?wi = w\<lparr>dirs := insert (RepositoryCache h) (dirs w),
                     files := (files w)(?idx \<mapsto> output)\<rparr>" by simp
  from updateRepositoryFile_success [OF AddRepository_success(3) [OF ok]]
  obtain f where f: "File_Update (case LoadFile h env ?wi (RepositoryConfig h) of
        Inl err \<Rightarrow> \<lparr>APIVersion = [], Repositories = []\<rparr> | Inr f \<Rightarrow> f) ?e = Normal f"
    and wr: "w' = ?wi\<lparr>dirs := insert (dirOf env (RepositoryConfig h)) (dirs ?wi),
                       files := (files ?wi)(RepositoryConfig h \<mapsto> marshalFile h f)\<rparr>"
    by blast
  show "RepositoryCache h \<in> dirs w'" by (subst wr) (simp add: wi)
  show "files w' ?idx \<noteq> None" by (subst wr) (simp add: wi)
  show "\<exists>f. files w' (RepositoryConfig h) = Some (marshalFile h f) \<and> Some ?e \<in> set (Repositories f)"
  proof (intro exI conjI)
    show "files w' (RepositoryConfig h) = Some (marshalFile h f)"
      by (subst wr) simp
    from f obtain rs where "update (Repositories (case LoadFile h env ?wi (RepositoryConfig h) of
        Inl err \<Rightarrow> \<lparr>APIVersion = [], Repositories = []\<rparr> | Inr f \<Rightarrow> f)) ?e = Normal rs"
      and "Repositories f = rs"
      unfolding File_Update_Normal by auto
    then show "Some ?e \<in> set (Repositories f)" using update_mem by blast
  qed
  assume "?idx \<noteq> RepositoryConfig h"
  then show "files w' ?idx = Some output" by (subst wr) (simp add: wi)
qed

theorem AddRepository_index_fallback_witness:
  "AddRepository (plainHelm\<lparr>downloadIndexFileErr := (\<lambda>e. Some ''connection refused'')\<rparr>)
       (plainSys\<lparr>cmdOutput := (\<lambda>a. ([], Some ''exit status 6''))\<rparr>)
       \<lparr>files = Map.empty, dirs = {}\<rparr> ''helm-openldap'' ''https://jp-gouin.github.io/helm-openldap''
     = Normal (Some ''failed to download index file locally: exit status 6'', \<lparr>files = Map.empty, dirs = {}\<rparr>)
   \<and> AddRepository (plainHelm\<lparr>downloadIndexFileErr := (\<lambda>e. Some ''connection refused'')\<rparr>)
       (plainSys\<lparr>cmdOutput := (\<lambda>a. (''apiVersion: v1'', None))\<rparr>)
       \<lparr>files = Map.empty, dirs = {}\<rparr> ''helm-openldap'' ''https://jp-gouin.github.io/helm-openldap''
     = Normal (None,
        \<lparr>files = [''/root/.cache/helm/repository/helm-openldap-index.yaml'' \<mapsto> ''apiVersion: v1'',
                  ''/root/.config/helm/repositories.yaml'' \<mapsto>
                    ''- name: helm-openldap url: https://jp-gouin.github.io/helm-openldap'' @ [CHR 0x0A]],
         dirs = {''/root/.config/helm'', ''/root/.cache/helm/repository''}\<rparr>)
   \<and> ''/root/.cache/helm/repository''
        \<in> dirs \<lparr>files = [''/root/.cache/helm/repository/helm-openldap-index.yaml'' \<mapsto> ''apiVersion: v1'',
                  ''/root/.config/helm/repositories.yaml'' \<mapsto>
                    ''- name: helm-openldap url: https://jp-gouin.github.io/helm-openldap'' @ [CHR 0x0A]],
                 dirs = {''/root/.config/helm'', ''/root/.cache/helm/repository''}\<rparr>
   \<and> files \<lparr>files = [''/root/.cache/helm/repository/helm-openldap-index.yaml'' \<mapsto> ''apiVersion: v1'',
                  ''/root/.config/helm/repositories.yaml'' \<mapsto>
                    ''- name: helm-openldap url: https://jp-gouin.github.io/helm-openldap'' @ [CHR 0x0A]],
              dirs = {''/root/.config/helm'', ''/root/.cache/helm/repository''}\<rparr>
        ''/root/.cache/helm/repository/helm-openldap-index.yaml'' = Some ''apiVersion: v1''"
proof -
  let ?H = "plainHelm\<lparr>downloadIndexFileErr := (\<lambda>e. Some ''connection refused'')\<rparr>"
  let ?bad = "plainSys\<lparr>cmdOutput := (\<lambda>a. ([], Some ''exit status 6''))\<rparr>"
  let ?ok = "plainSys\<lparr>cmdOutput := (\<lambda>a. (''apiVersion: v1'', None))\<rparr>"
  let ?w = "\<lparr>files = Map.empty, dirs = {}\<rparr>"
  let ?w' = "\<lparr>files = [''/root/.cache/helm/repository/helm-openldap-index.yaml'' \<mapsto> ''apiVersion: v1'',
                  ''/root/.config/helm/repositories.yaml'' \<mapsto>
                    ''- name: helm-openldap url: https://jp-gouin.github.io/helm-openldap'' @ [CHR 0x0A]],
         dirs = {''/root/.config/helm'', ''/root/.cache/helm/repository''}\<rparr>"
  let ?n = "''helm-openldap''" and ?u = "''https://jp-gouin.github.io/helm-openldap''"
  have nc: "newChartRepositoryErr ?H \<lparr>Name = ?n, URL = ?u\<rparr> = None" by (simp add: plainHelm_def)
  have dl: "downloadIndexFileErr ?H \<lparr>Name = ?n, URL = ?u\<rparr> = Some ''connection refused''" by simp
  have c1: "cmdOutput ?bad [''curl'', ''-s'', ''-L'', ?u @ ''/index.yaml''] = ([], Some ''exit status 6'')"
    by simp
  have c2: "cmdOutput ?ok [''curl'', ''-s'', ''-L'', ?u @ ''/index.yaml''] = (''apiVersion: v1'', None)"
    by simp
  have idx: "joinPath ?ok (RepositoryCache ?H) (?n @ ''-index.yaml'')
      = ''/root/.cache/helm/repository/helm-openldap-index.yaml''"
    by (simp add: plainSys_def plainHelm_def)
  have cache: "RepositoryCache ?H = ''/root/.cache/helm/repository''" by (simp add: plainHelm_def)
  have cfg: "RepositoryConfig ?H = ''/root/.config/helm/repositories.yaml''" by (simp add: plainHelm_def)
  have a: "AddRepository ?H ?ok ?w ?n ?u = Normal (None, ?w')"
    by (simp add: AddRepository_def fetchIndex_def updateRepositoryFile_def LoadFile_def
        File_Update_def File_WriteFile_def MkdirAll_def WriteFile_def Let_def plainSys_def plainHelm_def)
  from AddRepository_index_fallback [OF nc dl c1, where ?e1.0 = "''exit status 6''" and w = ?w]
  have r1: "AddRepository ?H ?bad ?w ?n ?u
      = Normal (Some ''failed to download index file locally: exit status 6'', ?w)" by simp
  from AddRepository_index_fallback [OF nc dl c2, where w = ?w and w' = ?w'] a
  have r2: "RepositoryCache ?H \<in> dirs ?w'"
    and r3: "joinPath ?ok (RepositoryCache ?H) (?n @ ''-index.yaml'') \<noteq> RepositoryConfig ?H \<longrightarrow>
       files ?w' (joinPath ?ok (RepositoryCache ?H) (?n @ ''-index.yaml'')) = Some ''apiVersion: v1''"
    by blast+
  have "joinPath ?ok (RepositoryCache ?H) (?n @ ''-index.yaml'') \<noteq> RepositoryConfig ?H"
    unfolding idx cfg by simp
  with r3 have r4: "files ?w' ''/root/.cache/helm/repository/helm-openldap-index.yaml'' = Some ''apiVersion: v1''"
    unfolding idx by blast
  from r2 have r5: "''/root/.cache/helm/repository'' \<in> dirs ?w'" unfolding cache .
  from r1 a r5 r4 show ?thesis by blast
qed



end
